(* ===== verification/Prelude.thy ===== *)
theory Prelude
  imports Main "HOL-Library.Word" "HOL-Library.Signed_Division" "HOL-Library.AList"
begin

text \<open>
  Shared vocabulary of the development: the machine integers of the Rust code, the
  association lists that stand for its hash maps, and the lemma collections the component
  theories use.

  Integers. An \<open>i64\<close> or \<open>i128\<close> of the code is an \<open>int\<close>, and every operation on it is written
  with the behaviour it has in the release profile the crate is built with: plain \<open>+\<close>, \<open>-\<close>,
  \<open>*\<close>, \<open>abs\<close> and unary minus wrap around (\<open>wrap_i64\<close>, \<open>wrap_i128\<close>), \<open>saturating_add\<close> and its kin
  clamp (\<open>clamp_i64\<close>), \<open>/\<close> truncates towards zero (\<open>sdiv\<close>). \<open>u64\<close>, \<open>u32\<close>, \<open>u8\<close> and \<open>usize\<close> are
  \<open>nat\<close>, with the wrap-around of \<open>wrapping_add\<close> written out. The lemma \<open>wrap_i64_eq_sint\<close>
  ties the wrap-around to the 64-bit words of HOL-Library.

  Maps. A \<open>HashMap\<close>, which the code never iterates, is an association list with the
  operations of HOL-Library.AList; a \<open>BTreeMap\<close> is the sorted list of theory \<open>BTree\<close>.
\<close>

named_theorems i64_defs
  \<open>the 64-bit and 128-bit operations, unfolded to arithmetic on int\<close>

named_theorems range_intros
  \<open>results of operations stay in the range of their machine type\<close>

section \<open>Machine integers\<close>

type_synonym i64 = int
type_synonym i128 = int
type_synonym u64 = nat
type_synonym u32 = nat
type_synonym u8 = nat
type_synonym usize = nat

abbreviation i64_min :: int where "i64_min \<equiv> -9223372036854775808"
abbreviation i64_max :: int where "i64_max \<equiv> 9223372036854775807"
abbreviation i128_min :: int where "i128_min \<equiv> -170141183460469231731687303715884105728"
abbreviation i128_max :: int where "i128_max \<equiv> 170141183460469231731687303715884105727"
abbreviation u64_modulus :: nat where "u64_modulus \<equiv> 18446744073709551616"

definition in_i64 :: "int \<Rightarrow> bool" where
  "in_i64 x \<longleftrightarrow> i64_min \<le> x \<and> x \<le> i64_max"

definition in_i128 :: "int \<Rightarrow> bool" where
  "in_i128 x \<longleftrightarrow> i128_min \<le> x \<and> x \<le> i128_max"

definition wrap_i64 :: "int \<Rightarrow> i64" where
  "wrap_i64 x = (x + 9223372036854775808) mod 18446744073709551616 - 9223372036854775808"

definition wrap_i128 :: "int \<Rightarrow> i128" where
  "wrap_i128 x =
     (x + 170141183460469231731687303715884105728)
       mod 340282366920938463463374607431768211456
     - 170141183460469231731687303715884105728"

definition clamp_i64 :: "int \<Rightarrow> i64" where
  "clamp_i64 x = max i64_min (min i64_max x)"

definition clamp_i128 :: "int \<Rightarrow> i128" where
  "clamp_i128 x = max i128_min (min i128_max x)"

definition add_i64 :: "i64 \<Rightarrow> i64 \<Rightarrow> i64" where "add_i64 a b = wrap_i64 (a + b)"
definition sub_i64 :: "i64 \<Rightarrow> i64 \<Rightarrow> i64" where "sub_i64 a b = wrap_i64 (a - b)"
definition neg_i64 :: "i64 \<Rightarrow> i64" where "neg_i64 a = wrap_i64 (- a)"
definition abs_i64 :: "i64 \<Rightarrow> i64" where "abs_i64 a = wrap_i64 \<bar>a\<bar>"
definition saturating_add :: "i64 \<Rightarrow> i64 \<Rightarrow> i64" where "saturating_add a b = clamp_i64 (a + b)"
definition saturating_sub :: "i64 \<Rightarrow> i64 \<Rightarrow> i64" where "saturating_sub a b = clamp_i64 (a - b)"
definition mul_i128 :: "i128 \<Rightarrow> i128 \<Rightarrow> i128" where "mul_i128 a b = wrap_i128 (a * b)"
definition add_i128 :: "i128 \<Rightarrow> i128 \<Rightarrow> i128" where "add_i128 a b = wrap_i128 (a + b)"
definition saturating_mul_i128 :: "i128 \<Rightarrow> i128 \<Rightarrow> i128" where
  "saturating_mul_i128 a b = clamp_i128 (a * b)"

definition u64_wrapping_succ :: "u64 \<Rightarrow> u64" where
  "u64_wrapping_succ n = Suc n mod u64_modulus"

lemmas [i64_defs] = wrap_i64_def wrap_i128_def clamp_i64_def clamp_i128_def in_i64_def in_i128_def
  add_i64_def sub_i64_def neg_i64_def abs_i64_def saturating_add_def saturating_sub_def
  mul_i128_def add_i128_def saturating_mul_i128_def

subsection \<open>Wrap-around\<close>

lemma wrap_i64_eq_sint: "wrap_i64 x = sint (word_of_int x :: 64 word)"
  by (simp add: wrap_i64_def signed_of_int signed_take_bit_eq_take_bit_shift take_bit_eq_mod)

lemma wrap_i64_id [simp]: "in_i64 x \<Longrightarrow> wrap_i64 x = x"
  by (simp add: wrap_i64_def in_i64_def)

lemma wrap_i128_id [simp]: "in_i128 x \<Longrightarrow> wrap_i128 x = x"
  by (simp add: wrap_i128_def in_i128_def)

lemma in_i64_wrap [simp, range_intros]: "in_i64 (wrap_i64 x)"
proof -
  have "0 \<le> (x + 9223372036854775808) mod 18446744073709551616"
    and "(x + 9223372036854775808) mod 18446744073709551616 < 18446744073709551616"
    by simp_all
  then show ?thesis by (simp add: wrap_i64_def in_i64_def)
qed

lemma in_i64_clamp [simp, range_intros]: "in_i64 (clamp_i64 x)"
  by (simp add: clamp_i64_def in_i64_def)

lemma in_i128_clamp [simp, range_intros]: "in_i128 (clamp_i128 x)"
  by (simp add: clamp_i128_def in_i128_def)

lemma clamp_i64_id [simp]: "in_i64 x \<Longrightarrow> clamp_i64 x = x"
  by (simp add: clamp_i64_def in_i64_def)

lemma clamp_i128_id [simp]: "in_i128 x \<Longrightarrow> clamp_i128 x = x"
  by (simp add: clamp_i128_def in_i128_def)

lemma clamp_i64_mono: "x \<le> y \<Longrightarrow> clamp_i64 x \<le> clamp_i64 y"
  by (simp add: clamp_i64_def)

lemma clamp_i64_sgn: "sgn (clamp_i64 x) = sgn x"
  by (auto simp: clamp_i64_def sgn_if max_def min_def)

lemma in_i64_0 [simp]: "in_i64 0"
  by (simp add: in_i64_def)

lemma in_i64_ops [simp, range_intros]:
  "in_i64 (add_i64 a b)" "in_i64 (sub_i64 a b)" "in_i64 (neg_i64 a)" "in_i64 (abs_i64 a)"
  "in_i64 (saturating_add a b)" "in_i64 (saturating_sub a b)"
  by (simp_all add: add_i64_def sub_i64_def neg_i64_def abs_i64_def saturating_add_def
      saturating_sub_def)

lemma add_i64_exact: "in_i64 (a + b) \<Longrightarrow> add_i64 a b = a + b"
  by (simp add: add_i64_def)

lemma sub_i64_exact: "in_i64 (a - b) \<Longrightarrow> sub_i64 a b = a - b"
  by (simp add: sub_i64_def)

lemma neg_i64_exact: "in_i64 (- a) \<Longrightarrow> neg_i64 a = - a"
  by (simp add: neg_i64_def)

lemma abs_i64_exact: "in_i64 a \<Longrightarrow> a \<noteq> i64_min \<Longrightarrow> abs_i64 a = \<bar>a\<bar>"
  by (auto simp: abs_i64_def in_i64_def intro!: wrap_i64_id)

lemma saturating_add_exact: "in_i64 (a + b) \<Longrightarrow> saturating_add a b = a + b"
  by (simp add: saturating_add_def)

lemma in_i64_between: "in_i64 a \<Longrightarrow> in_i64 b \<Longrightarrow> a \<le> x \<Longrightarrow> x \<le> b \<Longrightarrow> in_i64 x"
  by (simp add: in_i64_def)

text \<open>Evaluated on binary integers: as a unary \<open>nat\<close> the modulus would not fit in memory.\<close>

lemma u64_wrapping_succ_code [code]:
  "u64_wrapping_succ n = nat ((int n + 1) mod 18446744073709551616)"
  by (simp add: u64_wrapping_succ_def nat_mod_distrib nat_add_distrib)

lemma u64_succ_exact: "Suc n < u64_modulus \<Longrightarrow> u64_wrapping_succ n = Suc n"
  by (simp add: u64_wrapping_succ_def)

text \<open>\<open>iter().sum()\<close> adds from left to right; the sums wrap like one addition.\<close>

definition sum_i64 :: "i64 list \<Rightarrow> i64" where
  "sum_i64 xs = foldl add_i64 0 xs"

lemma wrap_i64_add_left: "wrap_i64 (wrap_i64 x + y) = wrap_i64 (x + y)"
proof -
  have "((x + 9223372036854775808) mod 18446744073709551616 + y) mod 18446744073709551616
      = (x + 9223372036854775808 + y) mod (18446744073709551616 :: int)"
    by (rule mod_add_left_eq)
  then show ?thesis by (simp add: wrap_i64_def algebra_simps)
qed

lemma foldl_add_i64: "in_i64 a \<Longrightarrow> foldl add_i64 a xs = wrap_i64 (a + sum_list xs)"
proof (induction xs arbitrary: a)
  case (Cons x xs)
  have "foldl add_i64 (add_i64 a x) xs = wrap_i64 (add_i64 a x + sum_list xs)"
    by (rule Cons.IH) simp
  also have "\<dots> = wrap_i64 (a + x + sum_list xs)"
    by (simp add: add_i64_def wrap_i64_add_left)
  finally show ?case by (simp add: add.assoc)
qed simp

lemma sum_i64_wrap: "sum_i64 xs = wrap_i64 (sum_list xs)"
  by (simp add: sum_i64_def foldl_add_i64)

lemma sum_i64_exact: "in_i64 (sum_list xs) \<Longrightarrow> sum_i64 xs = sum_list xs"
  by (simp add: sum_i64_wrap)

lemma sum_i64_Nil [simp]: "sum_i64 [] = 0"
  by (simp add: sum_i64_def)

subsection \<open>Products of 64-bit values fit 128 bits\<close>

lemma in_i64_abs_le: "in_i64 a \<Longrightarrow> \<bar>a\<bar> \<le> 9223372036854775808"
  by (simp add: in_i64_def abs_if)

lemma mult_i64_abs_le:
  assumes "in_i64 a" and "in_i64 b"
  shows "\<bar>a * b\<bar> \<le> 85070591730234615865843651857942052864"
proof -
  have "\<bar>a * b\<bar> = \<bar>a\<bar> * \<bar>b\<bar>" by (simp add: abs_mult)
  also have "\<dots> \<le> 9223372036854775808 * 9223372036854775808"
    using assms by (intro mult_mono in_i64_abs_le) auto
  finally show ?thesis by simp
qed

lemma mult_i64_in_i128: "in_i64 a \<Longrightarrow> in_i64 b \<Longrightarrow> in_i128 (a * b)"
  using mult_i64_abs_le [of a b] by (simp add: in_i128_def abs_if split: if_splits)

lemma mul_i128_exact: "in_i64 a \<Longrightarrow> in_i64 b \<Longrightarrow> mul_i128 a b = a * b"
  by (simp add: mul_i128_def mult_i64_in_i128)

lemma saturating_mul_i128_exact: "in_i64 a \<Longrightarrow> in_i64 b \<Longrightarrow> saturating_mul_i128 a b = a * b"
  by (simp add: saturating_mul_i128_def mult_i64_in_i128)

subsection \<open>Truncating division\<close>

lemma sdiv_pos_eq: "0 \<le> a \<Longrightarrow> 0 < b \<Longrightarrow> a sdiv b = a div b" for a b :: int
  by (cases "a = 0") (simp_all add: signed_divide_int_def)

lemma sdiv_neg_eq: "a < 0 \<Longrightarrow> 0 < b \<Longrightarrow> a sdiv b = - ((- a) div b)" for a b :: int
  by (simp add: signed_divide_int_def)

lemma sdiv_uminus_left [simp]: "(- a) sdiv b = - (a sdiv b)" for a b :: int
  by (simp add: signed_divide_int_def)

lemma sdiv_le_upper:
  assumes b: "0 < (b::int)" and le: "a \<le> c * b"
  shows "a sdiv b \<le> c"
proof (cases "0 \<le> a")
  case True
  have "a div b \<le> (c * b) div b" using le b by (rule zdiv_mono1)
  with True b show ?thesis by (simp add: sdiv_pos_eq)
next
  case False
  have "(- c) * b \<le> - a" using le by simp
  then have "(- c) * b div b \<le> (- a) div b" using b by (rule zdiv_mono1)
  then have "- c \<le> (- a) div b"
    using b nonzero_mult_div_cancel_right [of b "- c"] by linarith
  with b False show ?thesis by (simp add: sdiv_neg_eq)
qed

lemma sdiv_ge_lower:
  assumes "0 < (b::int)" and "c * b \<le> a"
  shows "c \<le> a sdiv b"
proof -
  have "(- a) sdiv b \<le> - c" using assms by (intro sdiv_le_upper) auto
  then show ?thesis by simp
qed

lemma sdiv_abs_le:
  assumes "0 < (b::int)"
  shows "\<bar>a sdiv b\<bar> \<le> \<bar>a\<bar>"
proof -
  have *: "\<bar>a\<bar> * 1 \<le> \<bar>a\<bar> * b" using assms by (intro mult_left_mono) auto
  then have "a \<le> \<bar>a\<bar> * b" and "(- \<bar>a\<bar>) * b \<le> a" by auto
  then have "a sdiv b \<le> \<bar>a\<bar>" and "- \<bar>a\<bar> \<le> a sdiv b"
    using assms by (blast intro: sdiv_le_upper sdiv_ge_lower)+
  then show ?thesis by simp
qed

section \<open>Hash maps as association lists\<close>

type_synonym ('k, 'v) hash_map = "('k \<times> 'v) list"

abbreviation hm_empty :: "('k, 'v) hash_map" where "hm_empty \<equiv> []"

definition hm_get :: "('k, 'v) hash_map \<Rightarrow> 'k \<Rightarrow> 'v option" where
  "hm_get m k = map_of m k"

definition hm_insert :: "'k \<Rightarrow> 'v \<Rightarrow> ('k, 'v) hash_map \<Rightarrow> ('k, 'v) hash_map" where
  "hm_insert k v m = AList.update k v m"

definition hm_remove :: "'k \<Rightarrow> ('k, 'v) hash_map \<Rightarrow> ('k, 'v) hash_map" where
  "hm_remove k m = AList.delete k m"

definition hm_len :: "('k, 'v) hash_map \<Rightarrow> nat" where
  "hm_len m = length m"

definition hm_wf :: "('k, 'v) hash_map \<Rightarrow> bool" where
  "hm_wf m \<longleftrightarrow> distinct (map fst m)"

lemma hm_get_empty [simp]: "hm_get hm_empty k = None"
  by (simp add: hm_get_def)

lemma hm_get_insert [simp]: "hm_get (hm_insert k v m) k' = (if k' = k then Some v else hm_get m k')"
  by (simp add: hm_get_def hm_insert_def update_conv')

lemma hm_get_remove [simp]: "hm_get (hm_remove k m) k' = (if k' = k then None else hm_get m k')"
  by (simp add: hm_get_def hm_remove_def delete_conv')

lemma hm_wf_empty [simp]: "hm_wf hm_empty"
  by (simp add: hm_wf_def)

lemma hm_wf_insert [simp]: "hm_wf m \<Longrightarrow> hm_wf (hm_insert k v m)"
  by (simp add: hm_wf_def hm_insert_def distinct_update)

lemma hm_wf_remove [simp]: "hm_wf m \<Longrightarrow> hm_wf (hm_remove k m)"
  by (simp add: hm_wf_def hm_remove_def distinct_delete)

lemma hm_len_insert: "hm_len (hm_insert k v m) = (if hm_get m k = None then Suc (hm_len m) else hm_len m)"
  unfolding hm_len_def hm_insert_def hm_get_def
  by (induction m) auto

lemma hm_len_insert_le: "hm_len (hm_insert k v m) \<le> Suc (hm_len m)"
  by (simp add: hm_len_insert)

lemma hm_len_remove_le: "hm_len (hm_remove k m) \<le> hm_len m"
  by (simp add: hm_len_def hm_remove_def length_delete_le)

text \<open>The contract of a map as the clients of the model use it.\<close>

locale key_value_map =
  fixes empty :: 'm
    and get :: "'m \<Rightarrow> 'k \<Rightarrow> 'v option"
    and insert :: "'k \<Rightarrow> 'v \<Rightarrow> 'm \<Rightarrow> 'm"
    and remove :: "'k \<Rightarrow> 'm \<Rightarrow> 'm"
    and invar :: "'m \<Rightarrow> bool"
  assumes get_empty: "get empty k = None"
    and get_insert: "invar m \<Longrightarrow> get (insert k v m) k' = (if k' = k then Some v else get m k')"
    and get_remove: "invar m \<Longrightarrow> get (remove k m) k' = (if k' = k then None else get m k')"
    and invar_empty: "invar empty"
    and invar_insert: "invar m \<Longrightarrow> invar (insert k v m)"
    and invar_remove: "invar m \<Longrightarrow> invar (remove k m)"
begin

lemma get_insert_same: "invar m \<Longrightarrow> get (insert k v m) k = Some v"
  by (simp add: get_insert)

lemma remove_insert_get: "invar m \<Longrightarrow> get m k = None \<Longrightarrow> get (remove k (insert k v m)) k' = get m k'"
  by (simp add: get_insert get_remove invar_insert)

lemma insert_insert_get: "invar m \<Longrightarrow> get (insert k v (insert k w m)) k' = get (insert k v m) k'"
  by (simp add: get_insert invar_insert)

end

interpretation hash_map: key_value_map hm_empty hm_get hm_insert hm_remove hm_wf
  by unfold_locales auto

section \<open>Decimal digits\<close>

text \<open>Numbers in the messages the code builds with \<open>format!\<close>.\<close>

fun show_nat :: "nat \<Rightarrow> string" where
  "show_nat n =
     (if n < 10 then [char_of (48 + n)] else show_nat (n div 10) @ [char_of (48 + n mod 10)])"

declare show_nat.simps [simp del]

definition show_int :: "int \<Rightarrow> string" where
  "show_int i = (if i < 0 then ''-'' @ show_nat (nat (- i)) else show_nat (nat i))"

section \<open>Lists\<close>

lemma remove1_filter_distinct: "distinct xs \<Longrightarrow> remove1 x xs = filter (\<lambda>y. y \<noteq> x) xs"
  by (simp add: distinct_remove1_removeAll removeAll_filter_not_eq eq_commute)

lemma sum_list_nonneg_int: "\<forall>x\<in>set xs. 0 \<le> f x \<Longrightarrow> 0 \<le> (\<Sum>x\<leftarrow>xs. f x)" for f :: "'a \<Rightarrow> int"
  by (induction xs) auto

lemma sum_list_member_le:
  "\<forall>x\<in>set xs. 0 \<le> f x \<Longrightarrow> x \<in> set xs \<Longrightarrow> f x \<le> (\<Sum>x\<leftarrow>xs. f x)" for f :: "'a \<Rightarrow> int"
  by (induction xs) (auto dest: sum_list_nonneg_int)

end
