(* ===== verification/BTree.thy ===== *)
theory BTree
  imports Prelude
begin

text \<open>
  The ordered maps of the code. A \<open>BTreeMap\<close> is the list of its entries in ascending key
  order, with the operations the code calls: \<open>get\<close>, \<open>insert\<close> (which also stands for writing
  through \<open>get_mut\<close> and \<open>entry\<close>), \<open>remove\<close>, \<open>iter().next()\<close> (the entry of the least key),
  \<open>iter().next_back()\<close> (the entry of the greatest key) and \<open>values_mut()\<close>. The invariant \<open>bt_wf\<close>
  says the keys are strictly ascending; every operation keeps it.
\<close>

type_synonym ('k, 'v) btree = "('k \<times> 'v) list"

abbreviation bt_empty :: "('k, 'v) btree" where "bt_empty \<equiv> []"

definition bt_wf :: "('k::linorder, 'v) btree \<Rightarrow> bool" where
  "bt_wf t \<longleftrightarrow> sorted_wrt (<) (map fst t)"

definition bt_get :: "('k, 'v) btree \<Rightarrow> 'k \<Rightarrow> 'v option" where
  "bt_get t k = map_of t k"

fun bt_insert :: "'k::linorder \<Rightarrow> 'v \<Rightarrow> ('k, 'v) btree \<Rightarrow> ('k, 'v) btree" where
  "bt_insert k v [] = [(k, v)]"
| "bt_insert k v ((k', v') # t) =
     (if k < k' then (k, v) # (k', v') # t
      else if k = k' then (k, v) # t
      else (k', v') # bt_insert k v t)"

definition bt_remove :: "'k \<Rightarrow> ('k, 'v) btree \<Rightarrow> ('k, 'v) btree" where
  "bt_remove k t = filter (\<lambda>e. fst e \<noteq> k) t"

fun bt_first :: "('k, 'v) btree \<Rightarrow> ('k \<times> 'v) option" where
  "bt_first [] = None"
| "bt_first (e # t) = Some e"

definition bt_last :: "('k, 'v) btree \<Rightarrow> ('k \<times> 'v) option" where
  "bt_last t = (if t = [] then None else Some (last t))"

definition bt_map_values :: "('v \<Rightarrow> 'w) \<Rightarrow> ('k, 'v) btree \<Rightarrow> ('k, 'w) btree" where
  "bt_map_values f t = map (\<lambda>(k, v). (k, f v)) t"

section \<open>The map contract\<close>

lemma bt_wf_empty [simp]: "bt_wf bt_empty"
  by (simp add: bt_wf_def)

lemma bt_wf_Cons: "bt_wf (e # t) \<longleftrightarrow> (\<forall>e'\<in>set t. fst e < fst e') \<and> bt_wf t"
  by (simp add: bt_wf_def)

lemma bt_get_empty [simp]: "bt_get bt_empty k = None"
  by (simp add: bt_get_def)

lemma set_bt_insert: "e \<in> set (bt_insert k v t) \<Longrightarrow> e = (k, v) \<or> e \<in> set t"
  by (induction k v t rule: bt_insert.induct) (auto split: if_splits)

lemma bt_wf_insert [simp]: "bt_wf t \<Longrightarrow> bt_wf (bt_insert k v t)"
proof (induction k v t rule: bt_insert.induct)
  case (1 k v)
  then show ?case by (simp add: bt_wf_Cons)
next
  case (2 k v k' v' t)
  then show ?case by (fastforce simp: bt_wf_Cons dest: set_bt_insert)
qed

lemma bt_get_insert [simp]:
  "bt_wf t \<Longrightarrow> bt_get (bt_insert k v t) k' = (if k' = k then Some v else bt_get t k')"
  by (induction k v t rule: bt_insert.induct) (auto simp: bt_get_def bt_wf_Cons)

lemma bt_wf_remove [simp]: "bt_wf t \<Longrightarrow> bt_wf (bt_remove k t)"
  by (induction t) (auto simp: bt_remove_def bt_wf_Cons)

lemma bt_get_remove [simp]: "bt_get (bt_remove k t) k' = (if k' = k then None else bt_get t k')"
  unfolding bt_remove_def bt_get_def by (induction t) auto

interpretation btree_map: key_value_map bt_empty bt_get bt_insert bt_remove bt_wf
  by unfold_locales auto

lemma bt_wf_distinct: "bt_wf t \<Longrightarrow> distinct (map fst t)"
  by (induction t) (auto simp: bt_wf_Cons)

lemma bt_get_Some_iff: "bt_wf t \<Longrightarrow> bt_get t k = Some v \<longleftrightarrow> (k, v) \<in> set t"
  by (simp add: bt_get_def bt_wf_distinct)

lemma bt_get_SomeD: "bt_get t k = Some v \<Longrightarrow> (k, v) \<in> set t"
  by (simp add: bt_get_def map_of_SomeD)

section \<open>Iteration from either end\<close>

lemma bt_first_None [simp]: "bt_first t = None \<longleftrightarrow> t = []"
  by (cases t) auto

lemma bt_last_None [simp]: "bt_last t = None \<longleftrightarrow> t = []"
  by (simp add: bt_last_def)

lemma bt_first_least:
  assumes "bt_wf t" and "bt_first t = Some (k, v)"
  shows "bt_get t k = Some v \<and> (\<forall>k' v'. bt_get t k' = Some v' \<longrightarrow> k \<le> k')"
  using assms by (cases t) (auto simp: bt_get_def bt_wf_Cons dest!: map_of_SomeD split: if_splits)

lemma bt_last_greatest:
  assumes "bt_wf t" and "bt_last t = Some (k, v)"
  shows "bt_get t k = Some v \<and> (\<forall>k' v'. bt_get t k' = Some v' \<longrightarrow> k' \<le> k)"
proof -
  from assms(2) obtain s where t: "t = s @ [(k, v)]"
    by (auto simp: bt_last_def split: if_splits) (metis append_butlast_last_id)
  with assms(1) have lt: "\<forall>e\<in>set s. fst e < k"
    by (simp add: bt_wf_def sorted_wrt_append)
  have "(k, v) \<in> set t" by (simp add: t)
  with assms(1) have "bt_get t k = Some v" by (simp add: bt_get_Some_iff)
  moreover have "k' \<le> k" if "bt_get t k' = Some v'" for k' v'
    using bt_get_SomeD [OF that] lt by (auto simp: t)
  ultimately show ?thesis by blast
qed

lemma bt_empty_iff: "t = [] \<longleftrightarrow> (\<forall>k. bt_get t k = None)"
proof
  assume *: "\<forall>k. bt_get t k = None"
  show "t = []"
  proof (cases t)
    case (Cons e s)
    then have "bt_get t (fst e) = Some (snd e)" by (simp add: bt_get_def)
    with * show ?thesis by simp
  qed simp
qed simp

section \<open>Updating every value\<close>

lemma bt_wf_map_values [simp]: "bt_wf (bt_map_values f t) = bt_wf t"
proof -
  have "map fst (bt_map_values f t) = map fst t"
    by (simp add: bt_map_values_def case_prod_beta)
  then show ?thesis by (simp add: bt_wf_def)
qed

lemma bt_get_map_values [simp]: "bt_get (bt_map_values f t) k = map_option f (bt_get t k)"
  unfolding bt_get_def bt_map_values_def by (induction t) auto

lemma bt_map_values_insert: "bt_map_values f (bt_insert k v t) = bt_insert k (f v) (bt_map_values f t)"
  unfolding bt_map_values_def by (induction k v t rule: bt_insert.induct) auto

lemma bt_map_values_remove: "bt_map_values f (bt_remove k t) = bt_remove k (bt_map_values f t)"
  unfolding bt_map_values_def bt_remove_def by (induction t) auto

lemma bt_first_map_values: "bt_first (bt_map_values f t) = map_option (\<lambda>(k, v). (k, f v)) (bt_first t)"
  by (cases t) (auto simp: bt_map_values_def)

lemma bt_last_map_values: "bt_last (bt_map_values f t) = map_option (\<lambda>(k, v). (k, f v)) (bt_last t)"
  by (simp add: bt_last_def bt_map_values_def last_map)

lemma bt_remove_absent: "bt_get t k = None \<Longrightarrow> bt_remove k t = t"
  by (induction t) (auto simp: bt_get_def bt_remove_def split: if_splits)

section \<open>Predicates on all values\<close>

definition bt_all :: "('v \<Rightarrow> bool) \<Rightarrow> ('k, 'v) btree \<Rightarrow> bool" where
  "bt_all P t \<longleftrightarrow> (\<forall>e\<in>set t. P (snd e))"

lemma bt_all_empty [simp]: "bt_all P bt_empty"
  by (simp add: bt_all_def)

lemma bt_all_insert: "bt_all P t \<Longrightarrow> P v \<Longrightarrow> bt_all P (bt_insert k v t)"
  by (auto simp: bt_all_def dest: set_bt_insert)

lemma bt_all_remove: "bt_all P t \<Longrightarrow> bt_all P (bt_remove k t)"
  by (simp add: bt_all_def bt_remove_def)

lemma bt_all_get: "bt_all P t \<Longrightarrow> bt_get t k = Some v \<Longrightarrow> P v"
  by (auto simp: bt_all_def dest!: bt_get_SomeD)

lemma bt_all_iff: "bt_wf t \<Longrightarrow> bt_all P t \<longleftrightarrow> (\<forall>k v. bt_get t k = Some v \<longrightarrow> P v)"
  by (fastforce simp: bt_all_def bt_get_Some_iff)

lemma bt_all_map_values: "bt_all P (bt_map_values f t) \<longleftrightarrow> bt_all (\<lambda>v. P (f v)) t"
  by (auto simp: bt_all_def bt_map_values_def)

lemma bt_all_mono: "bt_all P t \<Longrightarrow> (\<And>v. P v \<Longrightarrow> Q v) \<Longrightarrow> bt_all Q t"
  by (simp add: bt_all_def)

end
