(* ===== verification/Types.thy ===== *)
theory Types
  imports Prelude
begin

text \<open>
  The data types of \<open>types.rs\<close> and \<open>event.rs\<close>: fixed-point values, sides, the order state
  machine, the market-data and order records, and the events of the simulation. Field names
  carry a short prefix (\<open>tk_\<close> for \<open>Tick\<close>, \<open>od_\<close> for \<open>Order\<close>, \<open>rp_\<close> for \<open>OrderReport\<close>, \<open>l2_\<close>,
  \<open>l3_\<close>, \<open>fu_\<close>), since the structs share field names.
\<close>

section \<open>Time axes and fixed-point values\<close>

type_synonym ts_exchange_ns = i64
type_synonym ts_local_ns = i64
type_synonym ts_sim_ns = i64

abbreviation SCALE :: i64 where "SCALE \<equiv> 100000000"

datatype fixed_point = FixedPoint (as_scaled_i64: i64)

definition from_scaled_i64 :: "i64 \<Rightarrow> fixed_point" where
  "from_scaled_i64 v = FixedPoint v"

definition mul_scaled :: "fixed_point \<Rightarrow> fixed_point \<Rightarrow> fixed_point" where
  "mul_scaled a b =
     (let v = mul_i128 (as_scaled_i64 a) (as_scaled_i64 b) sdiv SCALE
      in FixedPoint (clamp_i64 v))"

section \<open>Sides and order types\<close>

datatype side = Buy | Sell | NoSide

fun as_i8 :: "side \<Rightarrow> int" where
  "as_i8 Buy = 1"
| "as_i8 Sell = -1"
| "as_i8 NoSide = 0"

definition side_try_from :: "int \<Rightarrow> string + side" where
  "side_try_from value =
     (if value = 1 then Inr Buy
      else if value = -1 then Inr Sell
      else if value = 0 then Inr NoSide
      else Inl ''invalid Side (expected 1, -1, or 0)'')"

datatype order_type = Limit | Market

section \<open>The order state machine\<close>

datatype order_state =
  Created | PendingNew | Open | PartiallyFilled | PendingCancel | Cancelled | Filled | Rejected

fun is_terminal :: "order_state \<Rightarrow> bool" where
  "is_terminal Cancelled = True"
| "is_terminal Filled = True"
| "is_terminal Rejected = True"
| "is_terminal _ = False"

fun can_transition_to :: "order_state \<Rightarrow> order_state \<Rightarrow> bool" where
  "can_transition_to Created PendingNew = True"
| "can_transition_to PendingNew Open = True"
| "can_transition_to PendingNew Rejected = True"
| "can_transition_to PendingNew Filled = True"
| "can_transition_to PendingNew PartiallyFilled = True"
| "can_transition_to Open PartiallyFilled = True"
| "can_transition_to Open Filled = True"
| "can_transition_to Open PendingCancel = True"
| "can_transition_to PartiallyFilled PartiallyFilled = True"
| "can_transition_to PartiallyFilled Filled = True"
| "can_transition_to PartiallyFilled PendingCancel = True"
| "can_transition_to PartiallyFilled Cancelled = True"
| "can_transition_to PendingCancel Cancelled = True"
| "can_transition_to PendingCancel Filled = True"
| "can_transition_to _ _ = False"

section \<open>Records\<close>

record order_report =
  rp_order_id :: u64
  rp_client_order_id :: u64
  rp_last_fill_qty :: i64
  rp_last_fill_price :: i64
  rp_filled_qty :: i64
  rp_remaining_qty :: i64
  rp_reason :: "string option"
  rp_symbol_id :: u32
  rp_status :: order_state

record funding_event =
  fu_ts_exchange :: ts_exchange_ns
  fu_rate :: i64
  fu_symbol_id :: u32

record tick =
  tk_ts_exchange :: ts_exchange_ns
  tk_ts_local :: ts_local_ns
  tk_seq :: u64
  tk_price :: i64
  tk_qty :: i64
  tk_symbol_id :: u32
  tk_side :: side
  tk_flags :: u8

record l2_update =
  l2_ts_exchange :: ts_exchange_ns
  l2_seq :: u64
  l2_price :: i64
  l2_qty :: i64
  l2_symbol_id :: u32
  l2_side :: side

record l3_update =
  l3_ts_exchange :: ts_exchange_ns
  l3_seq :: u64
  l3_symbol_id :: u32
  l3_order_id :: u64
  l3_price :: i64
  l3_qty :: i64
  l3_side :: side
  l3_action :: u8

record order =
  od_order_id :: u64
  od_client_order_id :: u64
  od_ts_submit :: ts_local_ns
  od_seq :: u64
  od_price :: i64
  od_qty :: i64
  od_symbol_id :: u32
  od_side :: side
  od_order_type :: order_type

section \<open>Events\<close>

datatype event_id = EventId (id_ts_sim: ts_sim_ns) (id_seq: u64)

datatype event_kind =
    TickEvent tick
  | TickDelivery tick
  | L2UpdateEvent l2_update
  | L3UpdateEvent l3_update
  | OrderEvent order
  | OrderAck u64
  | OrderCancel u64
  | OrderCancelAck u64
  | OrderReportEvent order_report
  | Funding funding_event
  | Timer u64

record event =
  ev_id :: event_id
  ev_kind :: event_kind

definition ts_sim :: "event \<Rightarrow> ts_sim_ns" where
  "ts_sim e = id_ts_sim (ev_id e)"

definition seq :: "event \<Rightarrow> u64" where
  "seq e = id_seq (ev_id e)"

text \<open>
  \<open>EventId\<close> derives \<open>Ord\<close>: the lexicographic order of its fields in their declaration order.
\<close>

instantiation event_id :: linorder
begin

definition less_eq_event_id :: "event_id \<Rightarrow> event_id \<Rightarrow> bool" where
  "less_eq_event_id a b \<longleftrightarrow>
     id_ts_sim a < id_ts_sim b \<or> (id_ts_sim a = id_ts_sim b \<and> id_seq a \<le> id_seq b)"

definition less_event_id :: "event_id \<Rightarrow> event_id \<Rightarrow> bool" where
  "less_event_id a b \<longleftrightarrow>
     id_ts_sim a < id_ts_sim b \<or> (id_ts_sim a = id_ts_sim b \<and> id_seq a < id_seq b)"

instance
  by standard (auto simp: less_eq_event_id_def less_event_id_def event_id.expand)

end

lemma event_id_le_ts: "a \<le> b \<Longrightarrow> id_ts_sim a \<le> id_ts_sim b" for a b :: event_id
  by (auto simp: less_eq_event_id_def)

section \<open>Facts on sides and states\<close>

lemma side_try_from_as_i8 [simp]: "side_try_from (as_i8 s) = Inr s"
  by (cases s) (simp_all add: side_try_from_def)

lemma as_i8_of_try_from: "side_try_from v = Inr s \<Longrightarrow> as_i8 s = v"
  by (auto simp: side_try_from_def split: if_splits)

lemma terminal_no_transition: "is_terminal s \<Longrightarrow> \<not> can_transition_to s t"
  by (cases s; cases t) simp_all

end
