(* ===== verification/OrderBookL2.thy ===== *)
theory OrderBookL2
  imports BTree Types
begin

text \<open>
  \<open>orderbook_l2.rs\<close>: the price-level book and the read interface \<open>MarketDepth\<close> the queue
  models see. The trait object is the record \<open>market_depth\<close> of its methods; its contract is the
  locale \<open>depth_view\<close>, interpreted here on the L2 book and in \<open>OrderBookL3\<close> on the L3 book.
\<close>

section \<open>The read interface\<close>

record market_depth =
  md_level_qty :: "side \<Rightarrow> i64 \<Rightarrow> i64"
  md_qty_ahead :: "side \<Rightarrow> i64 \<Rightarrow> u64 \<Rightarrow> i64"
  md_orders_ahead :: "side \<Rightarrow> i64 \<Rightarrow> u64 \<Rightarrow> (u64 \<times> i64) list"

text \<open>
  What a provider of depth promises of a book that satisfies its invariant: quantities are not
  negative and fit the machine type, nothing ahead exceeds the level, the listed orders ahead
  carry positive quantities that add up to the quantity ahead, and there is no depth without a
  side.
\<close>

locale depth_view =
  fixes depth :: "'b \<Rightarrow> market_depth"
    and invar :: "'b \<Rightarrow> bool"
  assumes no_side: "md_level_qty (depth b) NoSide p = 0"
    and level_range: "invar b \<Longrightarrow> 0 \<le> md_level_qty (depth b) s p \<and> in_i64 (md_level_qty (depth b) s p)"
    and ahead_range: "invar b \<Longrightarrow> 0 \<le> md_qty_ahead (depth b) s p i"
    and ahead_le_level: "invar b \<Longrightarrow> md_qty_ahead (depth b) s p i \<le> md_level_qty (depth b) s p"
    and orders_positive: "invar b \<Longrightarrow> e \<in> set (md_orders_ahead (depth b) s p i) \<Longrightarrow> 0 < snd e"
    and orders_sum: "invar b \<Longrightarrow> md_orders_ahead (depth b) s p i \<noteq> [] \<Longrightarrow>
          sum_list (map snd (md_orders_ahead (depth b) s p i)) = md_qty_ahead (depth b) s p i"
begin

lemma orders_fit:
  assumes "invar b"
  shows "in_i64 (sum_list (map snd (md_orders_ahead (depth b) s p i)))"
proof (cases "md_orders_ahead (depth b) s p i = []")
  case False
  with assms show ?thesis
    using ahead_range [OF assms, of s p i] ahead_le_level [OF assms, of s p i]
      level_range [OF assms, of s p]
    by (auto simp: orders_sum in_i64_def)
qed simp

lemma orders_sum_i64:
  assumes "invar b" and "md_orders_ahead (depth b) s p i \<noteq> []"
  shows "sum_i64 (map snd (md_orders_ahead (depth b) s p i)) = md_qty_ahead (depth b) s p i"
  using assms by (simp add: sum_i64_exact [OF orders_fit] orders_sum)

end

section \<open>The L2 book\<close>

record order_book_l2 =
  l2b_bids :: "(i64, i64) btree"
  l2b_asks :: "(i64, i64) btree"

definition l2_new :: order_book_l2 where
  "l2_new = \<lparr>l2b_bids = [], l2b_asks = []\<rparr>"

definition l2_set_level :: "i64 \<Rightarrow> i64 \<Rightarrow> (i64, i64) btree \<Rightarrow> (i64, i64) btree" where
  "l2_set_level price qty book = (if qty = 0 then bt_remove price book else bt_insert price qty book)"

definition apply_l2 :: "order_book_l2 \<Rightarrow> l2_update \<Rightarrow> order_book_l2" where
  "apply_l2 b u =
     (case l2_side u of
        Buy \<Rightarrow> b\<lparr>l2b_bids := l2_set_level (l2_price u) (l2_qty u) (l2b_bids b)\<rparr>
      | Sell \<Rightarrow> b\<lparr>l2b_asks := l2_set_level (l2_price u) (l2_qty u) (l2b_asks b)\<rparr>
      | NoSide \<Rightarrow> b)"

definition unwrap_or :: "'a option \<Rightarrow> 'a \<Rightarrow> 'a" where
  "unwrap_or x d = (case x of None \<Rightarrow> d | Some v \<Rightarrow> v)"

definition l2_level_qty :: "order_book_l2 \<Rightarrow> side \<Rightarrow> i64 \<Rightarrow> i64" where
  "l2_level_qty b s price =
     (case s of
        Buy \<Rightarrow> unwrap_or (bt_get (l2b_bids b) price) 0
      | Sell \<Rightarrow> unwrap_or (bt_get (l2b_asks b) price) 0
      | NoSide \<Rightarrow> 0)"

definition l2_best_bid :: "order_book_l2 \<Rightarrow> (i64 \<times> i64) option" where
  "l2_best_bid b = bt_last (l2b_bids b)"

definition l2_best_ask :: "order_book_l2 \<Rightarrow> (i64 \<times> i64) option" where
  "l2_best_ask b = bt_first (l2b_asks b)"

definition l2_depth :: "order_book_l2 \<Rightarrow> market_depth" where
  "l2_depth b =
     \<lparr>md_level_qty = l2_level_qty b,
      md_qty_ahead = (\<lambda>s p i. l2_level_qty b s p),
      md_orders_ahead = (\<lambda>s p i. [])\<rparr>"

section \<open>Invariants\<close>

text \<open>
  \<open>l2_wf\<close>: both sides are sorted maps and no level is stored with quantity 0. \<open>l2_nonneg\<close>: the
  feed sent no negative quantities (the book itself does not reject them).
\<close>

definition l2_wf :: "order_book_l2 \<Rightarrow> bool" where
  "l2_wf b \<longleftrightarrow> bt_wf (l2b_bids b) \<and> bt_wf (l2b_asks b) \<and>
     bt_all (\<lambda>q. q \<noteq> 0) (l2b_bids b) \<and> bt_all (\<lambda>q. q \<noteq> 0) (l2b_asks b)"

definition l2_nonneg :: "order_book_l2 \<Rightarrow> bool" where
  "l2_nonneg b \<longleftrightarrow> bt_all (\<lambda>q. 0 \<le> q \<and> in_i64 q) (l2b_bids b) \<and>
     bt_all (\<lambda>q. 0 \<le> q \<and> in_i64 q) (l2b_asks b)"

lemma l2_wf_new [simp]: "l2_wf l2_new"
  by (simp add: l2_wf_def l2_new_def)

lemma l2_nonneg_new [simp]: "l2_nonneg l2_new"
  by (simp add: l2_nonneg_def l2_new_def)

lemma l2_set_level_wf:
  "bt_wf t \<Longrightarrow> bt_all (\<lambda>q. q \<noteq> 0) t \<Longrightarrow>
   bt_wf (l2_set_level p q t) \<and> bt_all (\<lambda>q. q \<noteq> 0) (l2_set_level p q t)"
  by (simp add: l2_set_level_def bt_all_insert bt_all_remove)

lemma apply_l2_wf: "l2_wf b \<Longrightarrow> l2_wf (apply_l2 b u)"
  by (cases "l2_side u") (simp_all add: l2_wf_def apply_l2_def l2_set_level_wf)

lemma apply_l2_nonneg: "l2_nonneg b \<Longrightarrow> 0 \<le> l2_qty u \<Longrightarrow> in_i64 (l2_qty u) \<Longrightarrow> l2_nonneg (apply_l2 b u)"
  by (cases "l2_side u")
    (simp_all add: l2_nonneg_def apply_l2_def l2_set_level_def bt_all_insert bt_all_remove)

lemma l2_level_range: "l2_nonneg b \<Longrightarrow> 0 \<le> l2_level_qty b s p \<and> in_i64 (l2_level_qty b s p)"
  by (auto simp: l2_level_qty_def unwrap_or_def l2_nonneg_def dest: bt_all_get
      split: side.split option.split)

interpretation l2_view: depth_view l2_depth l2_nonneg
  by unfold_locales (auto simp: l2_depth_def l2_level_qty_def [of _ NoSide] l2_level_range)

section \<open>Behaviour\<close>

lemma l2_level_qty_set:
  "bt_wf t \<Longrightarrow>
   unwrap_or (bt_get (l2_set_level p q t) p') 0 = (if p' = p then q else unwrap_or (bt_get t p') 0)"
  by (auto simp: l2_set_level_def unwrap_or_def)

text \<open>
  Applying a level update sets the quantity of exactly that level of that side to the
  update's quantity (a removal, quantity 0, included) and leaves every other level of either
  side as it was; an update without a side changes nothing.
\<close>

theorem apply_l2_level_qty:
  assumes "l2_wf b"
  shows "l2_level_qty (apply_l2 b u) s p =
    (if s = l2_side u \<and> s \<noteq> NoSide \<and> p = l2_price u then l2_qty u else l2_level_qty b s p)"
  using assms
  by (cases "l2_side u"; cases s)
    (auto simp: l2_level_qty_def apply_l2_def l2_wf_def l2_level_qty_set)

theorem apply_l2_level_qty_witness:
  "l2_wf l2_new \<and>
   l2_level_qty (apply_l2 l2_new \<lparr>l2_ts_exchange = 1000, l2_seq = 0, l2_price = 100, l2_qty = 10,
     l2_symbol_id = 1, l2_side = Buy\<rparr>) Buy 100 = 10"
  by (subst apply_l2_level_qty) simp_all

lemma l2_best_bid_spec:
  assumes "l2_wf b" and "l2_best_bid b = Some (p, q)"
  shows "q = l2_level_qty b Buy p \<and> q \<noteq> 0 \<and> (\<forall>p'. l2_level_qty b Buy p' \<noteq> 0 \<longrightarrow> p' \<le> p)"
proof -
  from assms have "bt_get (l2b_bids b) p = Some q"
    and max: "\<And>p' q'. bt_get (l2b_bids b) p' = Some q' \<Longrightarrow> p' \<le> p"
    using bt_last_greatest [of "l2b_bids b" p q] by (auto simp: l2_wf_def l2_best_bid_def)
  moreover from this(1) assms(1) have "q \<noteq> 0" by (auto simp: l2_wf_def dest: bt_all_get)
  ultimately show ?thesis by (auto simp: l2_level_qty_def unwrap_or_def split: option.splits)
qed

lemma l2_best_ask_spec:
  assumes "l2_wf b" and "l2_best_ask b = Some (p, q)"
  shows "q = l2_level_qty b Sell p \<and> q \<noteq> 0 \<and> (\<forall>p'. l2_level_qty b Sell p' \<noteq> 0 \<longrightarrow> p \<le> p')"
proof -
  from assms have "bt_get (l2b_asks b) p = Some q"
    and min: "\<And>p' q'. bt_get (l2b_asks b) p' = Some q' \<Longrightarrow> p \<le> p'"
    using bt_first_least [of "l2b_asks b" p q] by (auto simp: l2_wf_def l2_best_ask_def)
  moreover from this(1) assms(1) have "q \<noteq> 0" by (auto simp: l2_wf_def dest: bt_all_get)
  ultimately show ?thesis by (auto simp: l2_level_qty_def unwrap_or_def split: option.splits)
qed

end
