(* ===== verification/OrderBookL3.thy ===== *)
theory OrderBookL3
  imports OrderBookL2
begin

text \<open>
  \<open>orderbook_l3.rs\<close>: the order-by-order book, a FIFO queue of \<open>(order id, quantity)\<close> per price
  and side. The theory proves that updates keep the book well formed, that the book is a
  provider of depth, that time priority is kept, and that its level totals behave like an L2
  book fed with the totals (a simulation).
\<close>

abbreviation L3_ADD :: u8 where "L3_ADD \<equiv> 1"
abbreviation L3_MODIFY :: u8 where "L3_MODIFY \<equiv> 2"
abbreviation L3_DELETE :: u8 where "L3_DELETE \<equiv> 3"

type_synonym l3_queue = "(u64 \<times> i64) list"

record order_book_l3 =
  l3b_bids :: "(i64, l3_queue) btree"
  l3b_asks :: "(i64, l3_queue) btree"

definition l3_new :: order_book_l3 where
  "l3_new = \<lparr>l3b_bids = [], l3b_asks = []\<rparr>"

definition side_map :: "order_book_l3 \<Rightarrow> side \<Rightarrow> (i64, l3_queue) btree option" where
  "side_map b s = (case s of Buy \<Rightarrow> Some (l3b_bids b) | Sell \<Rightarrow> Some (l3b_asks b) | NoSide \<Rightarrow> None)"

text \<open>
  Writing through \<open>side_map_mut\<close>; its \<open>Side::None\<close> arm is unreachable, since \<open>apply_l3\<close> has
  rejected such updates.
\<close>

definition side_map_mut :: "((i64, l3_queue) btree \<Rightarrow> (i64, l3_queue) btree) \<Rightarrow> side \<Rightarrow> order_book_l3 \<Rightarrow> order_book_l3" where
  "side_map_mut f s b =
     (case s of
        Buy \<Rightarrow> b\<lparr>l3b_bids := f (l3b_bids b)\<rparr>
      | Sell \<Rightarrow> b\<lparr>l3b_asks := f (l3b_asks b)\<rparr>
      | NoSide \<Rightarrow> b)"

definition retain_other :: "u64 \<Rightarrow> l3_queue \<Rightarrow> l3_queue" where
  "retain_other order_id queue = filter (\<lambda>e. fst e \<noteq> order_id) queue"

fun set_first_qty :: "u64 \<Rightarrow> i64 \<Rightarrow> l3_queue \<Rightarrow> l3_queue" where
  "set_first_qty order_id qty [] = []"
| "set_first_qty order_id qty ((i, q) # queue) =
     (if i = order_id then (i, qty) # queue else (i, q) # set_first_qty order_id qty queue)"

text \<open>Storing a level's queue, which removes the level when the queue became empty.\<close>

definition store_queue :: "i64 \<Rightarrow> l3_queue \<Rightarrow> (i64, l3_queue) btree \<Rightarrow> (i64, l3_queue) btree" where
  "store_queue price queue t = (if queue = [] then bt_remove price t else bt_insert price queue t)"

definition add_level :: "l3_update \<Rightarrow> (i64, l3_queue) btree \<Rightarrow> (i64, l3_queue) btree" where
  "add_level u t =
     (let queue = unwrap_or (bt_get t (l3_price u)) []
      in bt_insert (l3_price u) (queue @ [(l3_order_id u, l3_qty u)]) t)"

definition modify_level :: "l3_update \<Rightarrow> (i64, l3_queue) btree \<Rightarrow> (i64, l3_queue) btree" where
  "modify_level u t =
     (case bt_get t (l3_price u) of
        None \<Rightarrow> t
      | Some queue \<Rightarrow>
          store_queue (l3_price u)
            (if l3_qty u = 0 then retain_other (l3_order_id u) queue
             else set_first_qty (l3_order_id u) (l3_qty u) queue) t)"

definition delete_level :: "l3_update \<Rightarrow> (i64, l3_queue) btree \<Rightarrow> (i64, l3_queue) btree" where
  "delete_level u t =
     (case bt_get t (l3_price u) of
        None \<Rightarrow> t
      | Some queue \<Rightarrow> store_queue (l3_price u) (retain_other (l3_order_id u) queue) t)"

definition apply_l3 :: "order_book_l3 \<Rightarrow> l3_update \<Rightarrow> string + order_book_l3" where
  "apply_l3 b u =
     (if l3_side u = NoSide then Inl ''invalid L3 side''
      else if l3_action u = L3_ADD then
        (if l3_qty u \<le> 0 then Inl ''L3 ADD qty must be positive''
         else Inr (side_map_mut (add_level u) (l3_side u) b))
      else if l3_action u = L3_MODIFY then
        (if l3_qty u < 0 then Inl ''L3 MODIFY qty must be non-negative''
         else Inr (side_map_mut (modify_level u) (l3_side u) b))
      else if l3_action u = L3_DELETE then
        Inr (side_map_mut (delete_level u) (l3_side u) b)
      else Inl ''invalid L3 action'')"

definition queue_qty :: "l3_queue \<Rightarrow> i64" where
  "queue_qty queue = sum_i64 (map snd queue)"

definition l3_level_qty :: "order_book_l3 \<Rightarrow> side \<Rightarrow> i64 \<Rightarrow> i64" where
  "l3_level_qty b s price =
     (case side_map b s of
        None \<Rightarrow> 0
      | Some levels \<Rightarrow> unwrap_or (map_option queue_qty (bt_get levels price)) 0)"

fun take_until_order :: "u64 \<Rightarrow> l3_queue \<Rightarrow> l3_queue" where
  "take_until_order order_id [] = []"
| "take_until_order order_id ((i, q) # queue) =
     (if i = order_id then [] else (i, q) # take_until_order order_id queue)"

definition l3_orders_ahead :: "order_book_l3 \<Rightarrow> side \<Rightarrow> i64 \<Rightarrow> u64 \<Rightarrow> (u64 \<times> i64) list" where
  "l3_orders_ahead b s price order_id =
     (case Option.bind (side_map b s) (\<lambda>levels. bt_get levels price) of
        None \<Rightarrow> []
      | Some queue \<Rightarrow> take_until_order order_id queue)"

definition l3_qty_ahead :: "order_book_l3 \<Rightarrow> side \<Rightarrow> i64 \<Rightarrow> u64 \<Rightarrow> i64" where
  "l3_qty_ahead b s price order_id = sum_i64 (map snd (l3_orders_ahead b s price order_id))"

definition l3_best_bid :: "order_book_l3 \<Rightarrow> (i64 \<times> i64) option" where
  "l3_best_bid b = map_option (\<lambda>(price, queue). (price, queue_qty queue)) (bt_last (l3b_bids b))"

definition l3_best_ask :: "order_book_l3 \<Rightarrow> (i64 \<times> i64) option" where
  "l3_best_ask b = map_option (\<lambda>(price, queue). (price, queue_qty queue)) (bt_first (l3b_asks b))"

definition l3_depth :: "order_book_l3 \<Rightarrow> market_depth" where
  "l3_depth b =
     \<lparr>md_level_qty = l3_level_qty b,
      md_qty_ahead = l3_qty_ahead b,
      md_orders_ahead = l3_orders_ahead b\<rparr>"

section \<open>Well-formed books\<close>

text \<open>
  \<open>l3_wf\<close>: the sides are sorted maps, no stored level is empty, every resting quantity is
  positive. \<open>l3_fits\<close>: no level total overflows the 64-bit sum.
\<close>

definition qtys_positive :: "(u64 \<times> i64) list \<Rightarrow> bool" where
  "qtys_positive queue \<longleftrightarrow> (\<forall>q\<in>set (map snd queue). 0 < q)"

definition queue_ok :: "l3_queue \<Rightarrow> bool" where
  "queue_ok queue \<longleftrightarrow> queue \<noteq> [] \<and> qtys_positive queue"

definition queue_fits :: "l3_queue \<Rightarrow> bool" where
  "queue_fits queue \<longleftrightarrow> in_i64 (sum_list (map snd queue))"

definition l3_wf :: "order_book_l3 \<Rightarrow> bool" where
  "l3_wf b \<longleftrightarrow> bt_wf (l3b_bids b) \<and> bt_wf (l3b_asks b) \<and>
     bt_all queue_ok (l3b_bids b) \<and> bt_all queue_ok (l3b_asks b)"

definition l3_fits :: "order_book_l3 \<Rightarrow> bool" where
  "l3_fits b \<longleftrightarrow> bt_all queue_fits (l3b_bids b) \<and> bt_all queue_fits (l3b_asks b)"

lemma l3_wf_new [simp]: "l3_wf l3_new"
  by (simp add: l3_wf_def l3_new_def)

lemma l3_fits_new [simp]: "l3_fits l3_new"
  by (simp add: l3_fits_def l3_new_def)

lemma qtys_positive_simps [simp]:
  "qtys_positive []"
  "qtys_positive (e # queue) \<longleftrightarrow> 0 < snd e \<and> qtys_positive queue"
  "qtys_positive (queue @ queue') \<longleftrightarrow> qtys_positive queue \<and> qtys_positive queue'"
  by (auto simp: qtys_positive_def)

lemma qtys_positive_sum_nonneg: "qtys_positive queue \<Longrightarrow> 0 \<le> sum_list (map snd queue)"
  by (induction queue) auto

lemma qtys_positive_sum_pos: "qtys_positive queue \<Longrightarrow> queue \<noteq> [] \<Longrightarrow> 0 < sum_list (map snd queue)"
  by (cases queue) (auto dest: qtys_positive_sum_nonneg)

lemma set_first_qty_positive [simp]:
  "0 < qty \<Longrightarrow> qtys_positive queue \<Longrightarrow> qtys_positive (set_first_qty i qty queue)"
  by (induction i qty queue rule: set_first_qty.induct) auto

lemma set_first_qty_ids [simp]: "map fst (set_first_qty i qty queue) = map fst queue"
  by (induction i qty queue rule: set_first_qty.induct) auto

lemma set_first_qty_Nil [simp]: "set_first_qty i qty queue = [] \<longleftrightarrow> queue = []"
  by (cases "(i, qty, queue)" rule: set_first_qty.cases) auto

lemma retain_other_positive [simp]: "qtys_positive queue \<Longrightarrow> qtys_positive (retain_other i queue)"
  by (auto simp: retain_other_def qtys_positive_def)

lemma take_until_order_positive: "qtys_positive queue \<Longrightarrow> qtys_positive (take_until_order i queue)"
  by (induction i queue rule: take_until_order.induct) auto

text \<open>One level map, one update: what all three actions keep.\<close>

definition levels_ok :: "(i64, l3_queue) btree \<Rightarrow> bool" where
  "levels_ok t \<longleftrightarrow> bt_wf t \<and> bt_all queue_ok t"

lemma store_queue_ok: "levels_ok t \<Longrightarrow> qtys_positive queue \<Longrightarrow> levels_ok (store_queue p queue t)"
  by (simp add: levels_ok_def store_queue_def bt_all_insert bt_all_remove queue_ok_def)

lemma levels_ok_get: "levels_ok t \<Longrightarrow> bt_get t p = Some queue \<Longrightarrow> qtys_positive queue"
  by (auto simp: levels_ok_def queue_ok_def dest: bt_all_get)

lemma add_level_ok: "levels_ok t \<Longrightarrow> 0 < l3_qty u \<Longrightarrow> levels_ok (add_level u t)"
  using levels_ok_get [of t "l3_price u"]
  by (auto simp: add_level_def levels_ok_def unwrap_or_def Let_def queue_ok_def
      intro!: bt_all_insert split: option.splits)

lemma modify_level_ok: "levels_ok t \<Longrightarrow> 0 \<le> l3_qty u \<Longrightarrow> levels_ok (modify_level u t)"
  using levels_ok_get [of t "l3_price u"]
  by (auto simp: modify_level_def intro!: store_queue_ok split: option.split)

lemma delete_level_ok: "levels_ok t \<Longrightarrow> levels_ok (delete_level u t)"
  using levels_ok_get [of t "l3_price u"]
  by (auto simp: delete_level_def intro!: store_queue_ok split: option.split)

lemma l3_wf_levels: "l3_wf b \<longleftrightarrow> levels_ok (l3b_bids b) \<and> levels_ok (l3b_asks b)"
  by (auto simp: l3_wf_def levels_ok_def)

lemma side_map_mut_wf:
  "l3_wf b \<Longrightarrow> (\<And>t. levels_ok t \<Longrightarrow> levels_ok (f t)) \<Longrightarrow> l3_wf (side_map_mut f s b)"
  by (cases s) (simp_all add: side_map_mut_def l3_wf_levels)

lemma apply_l3_cases:
  assumes "apply_l3 b u = Inr b'"
  obtains (add) "l3_action u = L3_ADD" "0 < l3_qty u" "l3_side u \<noteq> NoSide"
      "b' = side_map_mut (add_level u) (l3_side u) b"
    | (modify) "l3_action u = L3_MODIFY" "0 \<le> l3_qty u" "l3_side u \<noteq> NoSide"
      "b' = side_map_mut (modify_level u) (l3_side u) b"
    | (delete) "l3_action u = L3_DELETE" "l3_side u \<noteq> NoSide"
      "b' = side_map_mut (delete_level u) (l3_side u) b"
  using assms by (auto simp: apply_l3_def split: if_splits)

lemma apply_l3_wf: "apply_l3 b u = Inr b' \<Longrightarrow> l3_wf b \<Longrightarrow> l3_wf b'"
  by (elim apply_l3_cases) (simp_all add: side_map_mut_wf add_level_ok modify_level_ok delete_level_ok)

text \<open>
  The book accepts exactly the updates with a side, a known action code and a quantity
  that fits the action: positive for ADD, not negative for MODIFY. Every other update is
  rejected with an error.
\<close>

theorem apply_l3_accepts:
  "(\<exists>b'. apply_l3 b u = Inr b') \<longleftrightarrow>
     l3_side u \<noteq> NoSide \<and>
     ((l3_action u = L3_ADD \<and> 0 < l3_qty u) \<or> (l3_action u = L3_MODIFY \<and> 0 \<le> l3_qty u) \<or>
      l3_action u = L3_DELETE)"
  by (auto simp: apply_l3_def)

section \<open>The L3 book provides depth\<close>

lemma side_map_get_positive:
  assumes "l3_wf b" and "side_map b s = Some t" and "bt_get t p = Some queue"
  shows "queue_ok queue"
  using assms by (auto simp: l3_wf_def side_map_def dest: bt_all_get split: side.splits)

lemma side_map_get_fits:
  assumes "l3_fits b" and "side_map b s = Some t" and "bt_get t p = Some queue"
  shows "queue_fits queue"
  using assms by (auto simp: l3_fits_def side_map_def dest: bt_all_get split: side.splits)

definition l3_queue_at :: "order_book_l3 \<Rightarrow> side \<Rightarrow> i64 \<Rightarrow> l3_queue" where
  "l3_queue_at b s p = unwrap_or (Option.bind (side_map b s) (\<lambda>levels. bt_get levels p)) []"

lemma l3_level_qty_queue_at: "l3_level_qty b s p = queue_qty (l3_queue_at b s p)"
  by (auto simp: l3_level_qty_def l3_queue_at_def unwrap_or_def queue_qty_def split: option.splits)

lemma l3_orders_ahead_queue_at: "l3_orders_ahead b s p i = take_until_order i (l3_queue_at b s p)"
  by (auto simp: l3_orders_ahead_def l3_queue_at_def unwrap_or_def split: option.splits)

lemma l3_queue_at_positive: "l3_wf b \<Longrightarrow> qtys_positive (l3_queue_at b s p)"
  by (auto simp: l3_queue_at_def unwrap_or_def queue_ok_def dest: side_map_get_positive
      split: option.splits Option.bind_splits)

lemma l3_queue_at_fits: "l3_fits b \<Longrightarrow> queue_fits (l3_queue_at b s p)"
  by (auto simp: l3_queue_at_def unwrap_or_def queue_fits_def [of "[]"] dest: side_map_get_fits
      split: option.splits Option.bind_splits)

lemma take_until_order_sum_le:
  "qtys_positive queue \<Longrightarrow> sum_list (map snd (take_until_order i queue)) \<le> sum_list (map snd queue)"
  by (induction i queue rule: take_until_order.induct)
    (auto dest: qtys_positive_sum_nonneg)

lemma take_until_order_all: "i \<notin> fst ` set queue \<Longrightarrow> take_until_order i queue = queue"
  by (induction i queue rule: take_until_order.induct) auto

lemma queue_qty_exact: "queue_fits queue \<Longrightarrow> queue_qty queue = sum_list (map snd queue)"
  by (simp add: queue_qty_def queue_fits_def sum_i64_exact)

lemma l3_ahead_sum:
  assumes "l3_wf b" and "l3_fits b"
  shows "l3_qty_ahead b s p i = sum_list (map snd (l3_orders_ahead b s p i))"
    and "0 \<le> l3_qty_ahead b s p i" and "l3_qty_ahead b s p i \<le> l3_level_qty b s p"
proof -
  let ?q = "l3_queue_at b s p"
  let ?a = "take_until_order i ?q"
  have pos: "qtys_positive ?q" using assms(1) by (rule l3_queue_at_positive)
  have fits: "queue_fits ?q" using assms(2) by (rule l3_queue_at_fits)
  have le: "sum_list (map snd ?a) \<le> sum_list (map snd ?q)" using pos by (rule take_until_order_sum_le)
  have ge: "0 \<le> sum_list (map snd ?a)"
    using take_until_order_positive [OF pos] by (rule qtys_positive_sum_nonneg)
  have "in_i64 (sum_list (map snd ?a))"
    using le ge fits by (auto simp: queue_fits_def in_i64_def)
  then show eq: "l3_qty_ahead b s p i = sum_list (map snd (l3_orders_ahead b s p i))"
    by (simp add: l3_qty_ahead_def l3_orders_ahead_queue_at sum_i64_exact)
  with ge le show "0 \<le> l3_qty_ahead b s p i" "l3_qty_ahead b s p i \<le> l3_level_qty b s p"
    by (simp_all add: l3_orders_ahead_queue_at l3_level_qty_queue_at queue_qty_exact [OF fits])
qed

lemma l3_level_range:
  assumes "l3_wf b" and "l3_fits b"
  shows "0 \<le> l3_level_qty b s p \<and> in_i64 (l3_level_qty b s p)"
proof -
  have "queue_fits (l3_queue_at b s p)" using assms(2) by (rule l3_queue_at_fits)
  moreover have "qtys_positive (l3_queue_at b s p)" using assms(1) by (rule l3_queue_at_positive)
  ultimately show ?thesis
    using qtys_positive_sum_nonneg
    by (simp add: l3_level_qty_queue_at queue_qty_exact) (simp add: queue_fits_def)
qed

interpretation l3_view: depth_view l3_depth "\<lambda>b. l3_wf b \<and> l3_fits b"
proof
  fix b s p i e
  show "md_level_qty (l3_depth b) NoSide p = 0"
    by (simp add: l3_depth_def l3_level_qty_def side_map_def)
  assume *: "l3_wf b \<and> l3_fits b"
  show "0 \<le> md_level_qty (l3_depth b) s p \<and> in_i64 (md_level_qty (l3_depth b) s p)"
    using * by (simp add: l3_depth_def l3_level_range)
  show "0 \<le> md_qty_ahead (l3_depth b) s p i" "md_qty_ahead (l3_depth b) s p i \<le> md_level_qty (l3_depth b) s p"
    using * by (simp_all add: l3_depth_def l3_ahead_sum(2,3))
  show "sum_list (map snd (md_orders_ahead (l3_depth b) s p i)) = md_qty_ahead (l3_depth b) s p i"
    using * by (simp add: l3_depth_def l3_ahead_sum(1))
  assume "e \<in> set (md_orders_ahead (l3_depth b) s p i)"
  with * show "0 < snd e"
    using take_until_order_positive [OF l3_queue_at_positive, of b i s p]
    by (auto simp: l3_depth_def l3_orders_ahead_queue_at qtys_positive_def)
qed

section \<open>Time priority and level totals\<close>

lemma side_map_mut_queue_at:
  "s' \<noteq> NoSide \<Longrightarrow>
   l3_queue_at (side_map_mut f s' b) s p =
     (if s = s' then unwrap_or (bt_get (f (the (side_map b s))) p) [] else l3_queue_at b s p)"
  by (cases s; cases s') (auto simp: l3_queue_at_def side_map_mut_def side_map_def)

lemma l3_queue_at_side: "side_map b s = Some t \<Longrightarrow> l3_queue_at b s p = unwrap_or (bt_get t p) []"
  by (simp add: l3_queue_at_def)

lemma side_map_wf: "l3_wf b \<Longrightarrow> s \<noteq> NoSide \<Longrightarrow> \<exists>t. side_map b s = Some t \<and> bt_wf t"
  by (cases s) (auto simp: side_map_def l3_wf_def)

definition updated_queue :: "l3_update \<Rightarrow> l3_queue \<Rightarrow> l3_queue" where
  "updated_queue u queue =
     (if l3_action u = L3_ADD then queue @ [(l3_order_id u, l3_qty u)]
      else if l3_action u = L3_MODIFY \<and> l3_qty u \<noteq> 0 then set_first_qty (l3_order_id u) (l3_qty u) queue
      else retain_other (l3_order_id u) queue)"

lemma store_queue_get:
  "bt_wf t \<Longrightarrow> unwrap_or (bt_get (store_queue p queue t) p') [] =
     (if p' = p then queue else unwrap_or (bt_get t p') [])"
  by (simp add: store_queue_def unwrap_or_def)

lemma retain_other_Nil [simp]: "retain_other i [] = []"
  by (simp add: retain_other_def)

lemma updated_level:
  assumes "bt_wf t" and "l3_action u \<in> {L3_ADD, L3_MODIFY, L3_DELETE}"
  shows "(if l3_action u = L3_ADD then add_level u t
          else if l3_action u = L3_MODIFY then modify_level u t else delete_level u t)
    = store_queue (l3_price u) (updated_queue u (unwrap_or (bt_get t (l3_price u)) [])) t"
  using assms
  by (auto simp: add_level_def modify_level_def delete_level_def updated_queue_def store_queue_def
      Let_def unwrap_or_def bt_remove_absent split: option.splits)

lemma apply_l3_store:
  assumes "l3_wf b" and "apply_l3 b u = Inr b'"
  shows "b' = side_map_mut
    (\<lambda>t. store_queue (l3_price u) (updated_queue u (l3_queue_at b (l3_side u) (l3_price u))) t) (l3_side u) b"
proof -
  from assms(2) have side: "l3_side u \<noteq> NoSide" by (elim apply_l3_cases)
  with assms(1) obtain t where t: "side_map b (l3_side u) = Some t" "bt_wf t"
    by (blast dest: side_map_wf)
  from assms(2) show ?thesis
    by (cases rule: apply_l3_cases; cases "l3_side u")
      (use t updated_level [OF t(2), of u] in
        \<open>auto simp: side_map_mut_def side_map_def l3_queue_at_def\<close>)
qed

lemma apply_l3_queue_lemma:
  assumes "l3_wf b" and "apply_l3 b u = Inr b'"
  shows "l3_queue_at b' s p =
    (if s = l3_side u \<and> p = l3_price u then updated_queue u (l3_queue_at b s p) else l3_queue_at b s p)"
proof -
  from assms(2) have side: "l3_side u \<noteq> NoSide" by (elim apply_l3_cases)
  with assms(1) obtain t where t: "side_map b (l3_side u) = Some t" "bt_wf t"
    by (blast dest: side_map_wf)
  show ?thesis
    unfolding apply_l3_store [OF assms] side_map_mut_queue_at [OF side]
    using t by (simp add: store_queue_get l3_queue_at_side [OF t(1)])
qed

text \<open>
  C28. An accepted update touches one FIFO queue only, the one of its side and price: ADD
  appends the order behind all resting orders, MODIFY with a positive quantity rewrites the
  order's quantity in place and so keeps its time priority, MODIFY to 0 and DELETE take it out
  and leave the order of the others. All other queues of the book are unchanged.
\<close>

theorem apply_l3_queue:
  assumes "l3_wf b" and "apply_l3 b u = Inr b'"
  shows "l3_queue_at b' s p =
    (if s = l3_side u \<and> p = l3_price u then updated_queue u (l3_queue_at b s p) else l3_queue_at b s p)"
  using assms by (rule apply_l3_queue_lemma)

theorem apply_l3_queue_witness:
  "\<exists>b'. apply_l3 l3_new \<lparr>l3_ts_exchange = 1, l3_seq = 0, l3_symbol_id = 1, l3_order_id = 7,
      l3_price = 100, l3_qty = 5, l3_side = Buy, l3_action = 1\<rparr> = Inr b' \<and>
     l3_queue_at b' Buy 100 = [(7, 5)]"
proof -
  let ?u = "\<lparr>l3_ts_exchange = 1, l3_seq = 0, l3_symbol_id = 1, l3_order_id = 7,
      l3_price = 100, l3_qty = 5, l3_side = Buy, l3_action = 1\<rparr> :: l3_update"
  obtain b' where b': "apply_l3 l3_new ?u = Inr b'" by (simp add: apply_l3_def)
  with apply_l3_queue [OF l3_wf_new b', of Buy 100] show ?thesis
    by (simp add: updated_queue_def l3_queue_at_def side_map_def l3_new_def unwrap_or_def)
qed

subsection \<open>Level totals simulate an L2 book\<close>

text \<open>
  The abstraction forgets the orders and keeps the total of each level.
\<close>

definition l3_to_l2 :: "order_book_l3 \<Rightarrow> order_book_l2" where
  "l3_to_l2 b =
     \<lparr>l2b_bids = bt_map_values queue_qty (l3b_bids b), l2b_asks = bt_map_values queue_qty (l3b_asks b)\<rparr>"

lemma l3_to_l2_views:
  "l2_best_bid (l3_to_l2 b) = l3_best_bid b" "l2_best_ask (l3_to_l2 b) = l3_best_ask b"
  "l2_level_qty (l3_to_l2 b) s p = l3_level_qty b s p"
  by (auto simp: l2_best_bid_def l3_best_bid_def l2_best_ask_def l3_best_ask_def l3_to_l2_def
      bt_last_map_values bt_first_map_values l2_level_qty_def l3_level_qty_def side_map_def
      split: side.split)

text \<open>The L2 update that carries the new total of the level an L3 update touched.\<close>

definition level_update :: "order_book_l3 \<Rightarrow> l3_update \<Rightarrow> l2_update" where
  "level_update b' u =
     \<lparr>l2_ts_exchange = l3_ts_exchange u, l2_seq = l3_seq u, l2_price = l3_price u,
      l2_qty = l3_level_qty b' (l3_side u) (l3_price u), l2_symbol_id = l3_symbol_id u,
      l2_side = l3_side u\<rparr>"

lemma queue_qty_zero_iff: "qtys_positive queue \<Longrightarrow> queue_fits queue \<Longrightarrow> queue_qty queue = 0 \<longleftrightarrow> queue = []"
  by (cases "queue = []") (auto simp: queue_qty_exact queue_fits_def dest: qtys_positive_sum_pos)

lemma store_queue_total:
  assumes "qtys_positive queue" and "queue_fits queue"
  shows "bt_map_values queue_qty (store_queue p queue t) =
    l2_set_level p (queue_qty queue) (bt_map_values queue_qty t)"
  using queue_qty_zero_iff [OF assms]
  by (auto simp: store_queue_def l2_set_level_def bt_map_values_insert bt_map_values_remove)

text \<open>
  C15. The level totals of the L3 book are an L2 book: applying an accepted L3 update and then
  taking totals is the same as taking totals and then applying the L2 update that sets the
  touched level to its new total, as long as the level totals fit 64 bits. In particular the
  two depth modes agree on level quantities, best bid and best ask.
\<close>

theorem l3_refines_l2:
  assumes "l3_wf b" and "apply_l3 b u = Inr b'" and "l3_fits b'"
  shows "l3_to_l2 b' = apply_l2 (l3_to_l2 b) (level_update b' u) \<and>
    l2_best_bid (l3_to_l2 b') = l3_best_bid b' \<and> l2_best_ask (l3_to_l2 b') = l3_best_ask b' \<and>
    l2_level_qty (l3_to_l2 b') s p = l3_level_qty b' s p"
proof -
  define q where "q = l3_queue_at b' (l3_side u) (l3_price u)"
  from assms(2) have side: "l3_side u \<noteq> NoSide" by (elim apply_l3_cases)
  have q: "q = updated_queue u (l3_queue_at b (l3_side u) (l3_price u))"
    by (simp add: q_def apply_l3_queue_lemma [OF assms(1,2)])
  have pos: "qtys_positive q" unfolding q_def by (rule l3_queue_at_positive [OF apply_l3_wf [OF assms(2,1)]])
  have total: "bt_map_values queue_qty (store_queue (l3_price u) q t) =
      l2_set_level (l3_price u) (queue_qty q) (bt_map_values queue_qty t)" for t
    using pos l3_queue_at_fits [OF assms(3)] by (intro store_queue_total) (simp_all add: q_def)
  have qty: "l3_level_qty b' (l3_side u) (l3_price u) = queue_qty q"
    by (simp add: l3_level_qty_queue_at q_def)
  have b': "b' = side_map_mut (store_queue (l3_price u) q) (l3_side u) b"
    using apply_l3_store [OF assms(1,2)] q by simp
  have "l3_to_l2 (side_map_mut (store_queue (l3_price u) q) (l3_side u) b)
      = apply_l2 (l3_to_l2 b) (level_update b' u)"
    using side
    by (cases "l3_side u")
      (simp_all add: l3_to_l2_def side_map_mut_def apply_l2_def level_update_def total qty [symmetric])
  then have "l3_to_l2 b' = apply_l2 (l3_to_l2 b) (level_update b' u)" using b' by simp
  with l3_to_l2_views [of b'] show ?thesis by simp
qed

theorem l3_refines_l2_witness:
  "\<exists>b'. apply_l3 l3_new \<lparr>l3_ts_exchange = 1, l3_seq = 0, l3_symbol_id = 1, l3_order_id = 7,
      l3_price = 100, l3_qty = 5, l3_side = Sell, l3_action = 1\<rparr> = Inr b' \<and>
     l3_best_ask b' = l2_best_ask (l3_to_l2 b') \<and> l3_best_ask b' = Some (100, 5)"
proof -
  let ?u = "\<lparr>l3_ts_exchange = 1, l3_seq = 0, l3_symbol_id = 1, l3_order_id = 7,
      l3_price = 100, l3_qty = 5, l3_side = Sell, l3_action = 1\<rparr> :: l3_update"
  let ?b = "\<lparr>l3b_bids = [], l3b_asks = [(100, [(7, 5)])]\<rparr> :: order_book_l3"
  have b: "apply_l3 l3_new ?u = Inr ?b"
    by (simp add: apply_l3_def side_map_mut_def add_level_def l3_new_def unwrap_or_def Let_def)
  have "l3_fits ?b" by (simp add: l3_fits_def bt_all_def queue_fits_def in_i64_def)
  from l3_refines_l2 [OF l3_wf_new b this] have "l3_best_ask ?b = l2_best_ask (l3_to_l2 ?b)"
    by metis
  moreover have "l3_best_ask ?b = Some (100, 5)"
    by (simp add: l3_best_ask_def queue_qty_def sum_i64_def add_i64_def wrap_i64_def)
  ultimately show ?thesis using b by blast
qed

end
