(* ===== verification/QueueModel.thy ===== *)
theory QueueModel
  imports OrderBookL3 "HOL-Library.Sublist"
begin

text \<open>
  \<open>queue_model.rs\<close>: how much of a market trade reaches a resting order of the user. The trait
  \<open>QueueModel\<close> is the record \<open>queue_model\<close> of its methods over the model's per-order state
  (every implementation is a unit struct, so \<open>&mut self\<close> carries nothing); its contract is the
  locale \<open>queue_laws\<close>, interpreted on the four implementations: no fills, conservative, volume
  clock and L3 exact.
\<close>

record 'st queue_model =
  qm_register_order :: "order \<Rightarrow> market_depth \<Rightarrow> 'st"
  qm_check_fill :: "order \<Rightarrow> i64 \<Rightarrow> tick \<Rightarrow> 'st \<Rightarrow> i64 \<times> 'st"
  qm_on_l3_update :: "order \<Rightarrow> 'st \<Rightarrow> l3_update \<Rightarrow> 'st"

section \<open>The guards shared by the implementations\<close>

definition is_against :: "side \<Rightarrow> side \<Rightarrow> bool" where
  "is_against order_side trade_side \<longleftrightarrow>
     (order_side = Buy \<and> trade_side = Sell) \<or> (order_side = Sell \<and> trade_side = Buy)"

text \<open>The five early returns of \<open>check_fill\<close>: a trade that fails one of them fills nothing.\<close>

definition eligible :: "order \<Rightarrow> i64 \<Rightarrow> tick \<Rightarrow> bool" where
  "eligible ord remaining_qty trade \<longleftrightarrow>
     \<not> remaining_qty \<le> 0 \<and> tk_symbol_id trade = od_symbol_id ord \<and> tk_price trade = od_price ord \<and>
     \<not> tk_qty trade \<le> 0 \<and> is_against (od_side ord) (tk_side trade)"

section \<open>The implementations\<close>

subsection \<open>NoopQueue\<close>

definition noop_queue :: "unit queue_model" where
  "noop_queue =
     \<lparr>qm_register_order = (\<lambda>_ _. ()),
      qm_check_fill = (\<lambda>_ _ _ st. (0, st)),
      qm_on_l3_update = (\<lambda>_ st _. st)\<rparr>"

subsection \<open>ConservativeQueue\<close>

record conservative_state =
  cq_qty_ahead :: i64

definition conservative_register :: "order \<Rightarrow> market_depth \<Rightarrow> conservative_state" where
  "conservative_register ord depth = \<lparr>cq_qty_ahead = md_level_qty depth (od_side ord) (od_price ord)\<rparr>"

definition conservative_check_fill ::
  "order \<Rightarrow> i64 \<Rightarrow> tick \<Rightarrow> conservative_state \<Rightarrow> i64 \<times> conservative_state" where
  "conservative_check_fill ord remaining_qty trade st =
     (if \<not> eligible ord remaining_qty trade then (0, st)
      else let available = tk_qty trade
           in if cq_qty_ahead st > 0 then
                let d = min (cq_qty_ahead st) available
                in (min (sub_i64 available d) remaining_qty,
                    st\<lparr>cq_qty_ahead := sub_i64 (cq_qty_ahead st) d\<rparr>)
              else (min available remaining_qty, st))"

definition conservative_queue :: "conservative_state queue_model" where
  "conservative_queue =
     \<lparr>qm_register_order = conservative_register,
      qm_check_fill = conservative_check_fill,
      qm_on_l3_update = (\<lambda>_ st _. st)\<rparr>"

subsection \<open>VolumeClockQueue\<close>

record volume_clock_state =
  vc_queue_pos :: i64
  vc_cum_volume :: i64
  vc_claimed :: i64

definition volume_clock_register :: "order \<Rightarrow> market_depth \<Rightarrow> volume_clock_state" where
  "volume_clock_register ord depth =
     \<lparr>vc_queue_pos = md_level_qty depth (od_side ord) (od_price ord), vc_cum_volume = 0, vc_claimed = 0\<rparr>"

definition volume_clock_check_fill ::
  "order \<Rightarrow> i64 \<Rightarrow> tick \<Rightarrow> volume_clock_state \<Rightarrow> i64 \<times> volume_clock_state" where
  "volume_clock_check_fill ord remaining_qty trade st =
     (if \<not> eligible ord remaining_qty trade then (0, st)
      else let st1 = st\<lparr>vc_cum_volume := saturating_add (vc_cum_volume st) (tk_qty trade)\<rparr>;
               past = saturating_sub (vc_cum_volume st1) (vc_queue_pos st1)
           in if past \<le> vc_claimed st1 then (0, st1)
              else let available = sub_i64 past (vc_claimed st1);
                       fill = max (min available remaining_qty) 0
                   in (fill, st1\<lparr>vc_claimed := saturating_add (vc_claimed st1) fill\<rparr>))"

definition volume_clock_queue :: "volume_clock_state queue_model" where
  "volume_clock_queue =
     \<lparr>qm_register_order = volume_clock_register,
      qm_check_fill = volume_clock_check_fill,
      qm_on_l3_update = (\<lambda>_ st _. st)\<rparr>"

subsection \<open>L3ExactQueue\<close>

record l3_exact_state =
  lq_qty_ahead :: i64
  lq_ahead_orders :: "(u64 \<times> i64) list"

definition l3_exact_register :: "order \<Rightarrow> market_depth \<Rightarrow> l3_exact_state" where
  "l3_exact_register ord depth =
     (let ahead_orders = md_orders_ahead depth (od_side ord) (od_price ord) (od_order_id ord)
      in \<lparr>lq_qty_ahead = sum_i64 (map snd ahead_orders), lq_ahead_orders = ahead_orders\<rparr>)"

text \<open>
  The \<open>while\<close> loop of \<open>consume_ahead_orders\<close> on the list and the quantity left. Each round
  either drops the head or uses the quantity up, so it stops.
\<close>

function consume_ahead_orders :: "(u64 \<times> i64) list \<Rightarrow> i64 \<Rightarrow> (u64 \<times> i64) list" where
  "consume_ahead_orders [] qty = []"
| "consume_ahead_orders ((i, q) # ahead) qty =
     (if qty > 0 then
        let consumed = min q qty;
            q' = sub_i64 q consumed;
            qty' = sub_i64 qty consumed
        in if q' = 0 then consume_ahead_orders ahead qty'
           else consume_ahead_orders ((i, q') # ahead) qty'
      else (i, q) # ahead)"
  by pat_completeness auto
termination
  by (relation "measures [\<lambda>(a, q). length a, \<lambda>(a, q). if q > 0 then 1 else 0]")
    (auto simp: sub_i64_def min_def split: if_splits)

declare consume_ahead_orders.simps [simp del]

definition l3_exact_check_fill ::
  "order \<Rightarrow> i64 \<Rightarrow> tick \<Rightarrow> l3_exact_state \<Rightarrow> i64 \<times> l3_exact_state" where
  "l3_exact_check_fill ord remaining_qty trade st =
     (if \<not> eligible ord remaining_qty trade then (0, st)
      else let available = tk_qty trade
           in if lq_qty_ahead st > 0 then
                let consumed = min (lq_qty_ahead st) available
                in (min (sub_i64 available consumed) remaining_qty,
                    st\<lparr>lq_qty_ahead := sub_i64 (lq_qty_ahead st) consumed,
                       lq_ahead_orders := consume_ahead_orders (lq_ahead_orders st) consumed\<rparr>)
              else (min available remaining_qty, st))"

fun remove_first_id :: "u64 \<Rightarrow> (u64 \<times> i64) list \<Rightarrow> (i64 \<times> (u64 \<times> i64) list) option" where
  "remove_first_id order_id [] = None"
| "remove_first_id order_id ((i, q) # ahead) =
     (if i = order_id then Some (q, ahead)
      else map_option (\<lambda>(r, rest). (r, (i, q) # rest)) (remove_first_id order_id ahead))"

definition remove_ahead_order :: "l3_exact_state \<Rightarrow> u64 \<Rightarrow> l3_exact_state" where
  "remove_ahead_order st order_id =
     (case remove_first_id order_id (lq_ahead_orders st) of
        None \<Rightarrow> st
      | Some (qty, rest) \<Rightarrow>
          st\<lparr>lq_ahead_orders := rest, lq_qty_ahead := saturating_sub (lq_qty_ahead st) qty\<rparr>)"

definition modify_ahead_order :: "l3_exact_state \<Rightarrow> u64 \<Rightarrow> i64 \<Rightarrow> l3_exact_state" where
  "modify_ahead_order st order_id new_qty =
     (case remove_first_id order_id (lq_ahead_orders st) of
        None \<Rightarrow> st
      | Some (qty, _) \<Rightarrow>
          let ahead = set_first_qty order_id new_qty (lq_ahead_orders st)
          in st\<lparr>lq_qty_ahead := saturating_add (saturating_sub (lq_qty_ahead st) qty) new_qty,
                lq_ahead_orders := (if new_qty = 0 then filter (\<lambda>e. snd e > 0) ahead else ahead)\<rparr>)"

definition l3_exact_on_l3_update :: "order \<Rightarrow> l3_exact_state \<Rightarrow> l3_update \<Rightarrow> l3_exact_state" where
  "l3_exact_on_l3_update ord st u =
     (if l3_symbol_id u \<noteq> od_symbol_id ord \<or> l3_side u \<noteq> od_side ord \<or> l3_price u \<noteq> od_price ord then st
      else if l3_action u = L3_DELETE then remove_ahead_order st (l3_order_id u)
      else if l3_action u = L3_MODIFY then modify_ahead_order st (l3_order_id u) (max (l3_qty u) 0)
      else st)"

definition l3_exact_queue :: "l3_exact_state queue_model" where
  "l3_exact_queue =
     \<lparr>qm_register_order = l3_exact_register,
      qm_check_fill = l3_exact_check_fill,
      qm_on_l3_update = l3_exact_on_l3_update\<rparr>"

section \<open>The contract\<close>

text \<open>
  Depth a queue model may rely on; the providers of \<open>depth_view\<close> give it.
\<close>

definition depth_ok :: "market_depth \<Rightarrow> bool" where
  "depth_ok d \<longleftrightarrow>
     (\<forall>s p. 0 \<le> md_level_qty d s p \<and> in_i64 (md_level_qty d s p)) \<and>
     (\<forall>s p i. qtys_positive (md_orders_ahead d s p i) \<and>
        in_i64 (sum_list (map snd (md_orders_ahead d s p i))))"

context depth_view begin

lemma view_depth_ok: "invar b \<Longrightarrow> depth_ok (depth b)"
  using level_range orders_positive orders_fit
  by (auto simp: depth_ok_def qtys_positive_def)

end

text \<open>
  \<open>ok ord r st\<close> is the implementation's invariant of the state it keeps for an order with \<open>r\<close>
  left to fill. The laws: a fresh state satisfies it; a fill is between 0 and both the
  remaining quantity and the volume of the trade; a trade that is not eligible fills nothing
  and leaves the state; the invariant survives fills, depth updates and a smaller remainder.
\<close>

locale queue_laws =
  fixes qm :: "'st queue_model"
    and ok :: "order \<Rightarrow> i64 \<Rightarrow> 'st \<Rightarrow> bool"
  assumes register_ok: "depth_ok d \<Longrightarrow> ok ord (od_qty ord) (qm_register_order qm ord d)"
    and fill_ineligible: "\<not> eligible ord r t \<Longrightarrow> qm_check_fill qm ord r t st = (0, st)"
    and fill_range: "ok ord r st \<Longrightarrow> in_i64 r \<Longrightarrow> in_i64 (tk_qty t) \<Longrightarrow> eligible ord r t \<Longrightarrow>
          qm_check_fill qm ord r t st = (f, st') \<Longrightarrow> 0 \<le> f \<and> f \<le> r \<and> f \<le> tk_qty t"
    and fill_ok: "ok ord r st \<Longrightarrow> in_i64 r \<Longrightarrow> in_i64 (tk_qty t) \<Longrightarrow> eligible ord r t \<Longrightarrow>
          qm_check_fill qm ord r t st = (f, st') \<Longrightarrow> ok ord (r - f) st'"
    and l3_ok: "ok ord r st \<Longrightarrow> ok ord r (qm_on_l3_update qm ord st u)"
    and ok_less: "ok ord r st \<Longrightarrow> r' \<le> r \<Longrightarrow> ok ord r' st"
begin

lemma fill_bounds:
  assumes "ok ord r st" and "in_i64 r" and "in_i64 (tk_qty t)" and "0 \<le> r"
    and "qm_check_fill qm ord r t st = (f, st')"
  shows "0 \<le> f \<and> f \<le> r" and "0 < f \<Longrightarrow> eligible ord r t \<and> f \<le> tk_qty t" and "ok ord (r - f) st'"
  using assms fill_range [of ord r st t f st'] fill_ok [of ord r st t f st']
    fill_ineligible [of ord r t st]
  by (cases "eligible ord r t"; simp)+

end

subsection \<open>The implementations satisfy it\<close>

lemma eligible_pos: "eligible ord r t \<Longrightarrow> 0 < r \<and> 0 < tk_qty t"
  by (simp add: eligible_def)

interpretation noop: queue_laws noop_queue "\<lambda>_ _ _. True"
  by unfold_locales (auto simp: noop_queue_def dest: eligible_pos)

definition conservative_ok :: "order \<Rightarrow> i64 \<Rightarrow> conservative_state \<Rightarrow> bool" where
  "conservative_ok ord r st \<longleftrightarrow> in_i64 (cq_qty_ahead st)"

text \<open>What an eligible trade does, with the exact arithmetic of the machine integers.\<close>

lemma conservative_fill_eq:
  assumes "eligible ord r t" and "in_i64 (tk_qty t)" and "in_i64 (cq_qty_ahead st)"
  shows "conservative_check_fill ord r t st =
    (min (max 0 (tk_qty t - max 0 (cq_qty_ahead st))) r,
     st\<lparr>cq_qty_ahead := cq_qty_ahead st - min (max 0 (cq_qty_ahead st)) (tk_qty t)\<rparr>)"
proof (cases "cq_qty_ahead st > 0")
  case True
  let ?d = "min (cq_qty_ahead st) (tk_qty t)"
  from assms eligible_pos have "0 < tk_qty t" by blast
  with assms(2,3) True have "in_i64 (tk_qty t - ?d)" "in_i64 (cq_qty_ahead st - ?d)"
    by (auto simp: in_i64_def min_def)
  with assms(1) True show ?thesis
    by (simp add: conservative_check_fill_def Let_def sub_i64_exact)
next
  case False
  with assms(1) eligible_pos [OF assms(1)] show ?thesis
    by (simp add: conservative_check_fill_def Let_def)
qed

interpretation conservative: queue_laws conservative_queue conservative_ok
proof
  fix d ord r r' t st f u and st' :: conservative_state
  show "conservative_ok ord r st \<Longrightarrow> r' \<le> r \<Longrightarrow> conservative_ok ord r' st"
    by (simp add: conservative_ok_def)
  show "depth_ok d \<Longrightarrow> conservative_ok ord (od_qty ord) (qm_register_order conservative_queue ord d)"
    by (simp add: depth_ok_def conservative_ok_def conservative_queue_def conservative_register_def)
  show "\<not> eligible ord r t \<Longrightarrow> qm_check_fill conservative_queue ord r t st = (0, st)"
    by (simp add: conservative_queue_def conservative_check_fill_def)
  show "conservative_ok ord r st \<Longrightarrow> conservative_ok ord r (qm_on_l3_update conservative_queue ord st u)"
    by (simp add: conservative_queue_def)
  assume a: "conservative_ok ord r st" "in_i64 (tk_qty t)" "eligible ord r t"
    "qm_check_fill conservative_queue ord r t st = (f, st')"
  then have eq: "f = min (max 0 (tk_qty t - max 0 (cq_qty_ahead st))) r"
    "cq_qty_ahead st' = cq_qty_ahead st - min (max 0 (cq_qty_ahead st)) (tk_qty t)"
    by (auto simp: conservative_queue_def conservative_fill_eq conservative_ok_def)
  from a(3) eligible_pos have "0 < r" "0 < tk_qty t" by blast+
  with eq a(1) show "0 \<le> f \<and> f \<le> r \<and> f \<le> tk_qty t" and "conservative_ok ord (r - f) st'"
    by (auto simp: conservative_ok_def in_i64_def)
qed

definition volume_clock_ok :: "order \<Rightarrow> i64 \<Rightarrow> volume_clock_state \<Rightarrow> bool" where
  "volume_clock_ok ord r st \<longleftrightarrow>
     0 \<le> vc_queue_pos st \<and> in_i64 (vc_queue_pos st) \<and>
     0 \<le> vc_cum_volume st \<and> in_i64 (vc_cum_volume st) \<and>
     0 \<le> vc_claimed st \<and> vc_claimed st \<le> max 0 (vc_cum_volume st - vc_queue_pos st) \<and>
     (0 < r \<longrightarrow> vc_claimed st = max 0 (vc_cum_volume st - vc_queue_pos st))"

lemma volume_clock_fill_eq:
  assumes "volume_clock_ok ord r st" and "eligible ord r t" and "in_i64 (tk_qty t)"
  shows "volume_clock_check_fill ord r t st =
    (let cum = min i64_max (vc_cum_volume st + tk_qty t);
         fill = min (max 0 (cum - vc_queue_pos st) - vc_claimed st) r
     in (fill, st\<lparr>vc_cum_volume := cum, vc_claimed := vc_claimed st + fill\<rparr>))"
proof -
  from assms(2) eligible_pos have pos: "0 < r" "0 < tk_qty t" by blast+
  let ?cum = "min i64_max (vc_cum_volume st + tk_qty t)"
  have cum: "saturating_add (vc_cum_volume st) (tk_qty t) = ?cum"
    using assms(1) pos by (auto simp: saturating_add_def clamp_i64_def volume_clock_ok_def)
  have past: "saturating_sub ?cum (vc_queue_pos st) = ?cum - vc_queue_pos st"
    using assms(1) pos
    by (auto simp: saturating_sub_def volume_clock_ok_def in_i64_def intro!: clamp_i64_id)
  have claimed: "vc_claimed st = max 0 (vc_cum_volume st - vc_queue_pos st)"
    using assms(1) pos by (simp add: volume_clock_ok_def)
  have avail: "sub_i64 (?cum - vc_queue_pos st) (vc_claimed st) = ?cum - vc_queue_pos st - vc_claimed st"
    if "vc_claimed st < ?cum - vc_queue_pos st"
    using that assms(1) by (auto simp: volume_clock_ok_def in_i64_def intro!: sub_i64_exact)
  have add: "saturating_add (vc_claimed st) x = vc_claimed st + x"
    if "0 \<le> x" "x \<le> ?cum - vc_queue_pos st - vc_claimed st" for x
    using that assms(1) by (auto simp: volume_clock_ok_def in_i64_def intro!: saturating_add_exact)
  show ?thesis
  proof (cases "?cum - vc_queue_pos st \<le> vc_claimed st")
    case True
    have "vc_cum_volume st \<le> ?cum"
      using assms(1) pos by (simp add: volume_clock_ok_def in_i64_def)
    with True claimed have "max 0 (?cum - vc_queue_pos st) = vc_claimed st" by linarith
    with True assms(2) pos(1) show ?thesis
      by (simp add: volume_clock_check_fill_def Let_def cum past)
  next
    case False
    then have "max 0 (?cum - vc_queue_pos st) = ?cum - vc_queue_pos st"
      using assms(1) by (auto simp: volume_clock_ok_def)
    with False assms(2) pos(1) show ?thesis
      by (simp add: volume_clock_check_fill_def Let_def cum past avail add)
  qed
qed

interpretation volume_clock: queue_laws volume_clock_queue volume_clock_ok
proof
  fix d ord r r' t st f u and st' :: volume_clock_state
  show "volume_clock_ok ord r st \<Longrightarrow> r' \<le> r \<Longrightarrow> volume_clock_ok ord r' st"
    by (simp add: volume_clock_ok_def)
  show "depth_ok d \<Longrightarrow> volume_clock_ok ord (od_qty ord) (qm_register_order volume_clock_queue ord d)"
    by (simp add: depth_ok_def volume_clock_ok_def volume_clock_queue_def volume_clock_register_def)
  show "\<not> eligible ord r t \<Longrightarrow> qm_check_fill volume_clock_queue ord r t st = (0, st)"
    by (simp add: volume_clock_queue_def volume_clock_check_fill_def)
  show "volume_clock_ok ord r st \<Longrightarrow> volume_clock_ok ord r (qm_on_l3_update volume_clock_queue ord st u)"
    by (simp add: volume_clock_queue_def)
  assume a: "volume_clock_ok ord r st" "in_i64 (tk_qty t)" "eligible ord r t"
    "qm_check_fill volume_clock_queue ord r t st = (f, st')"
  let ?cum = "min i64_max (vc_cum_volume st + tk_qty t)"
  from a have eq: "f = min (max 0 (?cum - vc_queue_pos st) - vc_claimed st) r"
    "st' = st\<lparr>vc_cum_volume := ?cum, vc_claimed := vc_claimed st + f\<rparr>"
    by (auto simp: volume_clock_queue_def volume_clock_fill_eq Let_def)
  from a(3) eligible_pos have pos: "0 < r" "0 < tk_qty t" by blast+
  with a(1) have claimed: "vc_claimed st = max 0 (vc_cum_volume st - vc_queue_pos st)"
    by (simp add: volume_clock_ok_def)
  have nonneg: "0 \<le> max 0 (?cum - vc_queue_pos st) - vc_claimed st"
    "max 0 (?cum - vc_queue_pos st) - vc_claimed st \<le> tk_qty t"
    using claimed a(1) pos by (auto simp: volume_clock_ok_def in_i64_def)
  with eq(1) pos show "0 \<le> f \<and> f \<le> r \<and> f \<le> tk_qty t"
    by (simp add: min_le_iff_disj)
  then have f0: "0 \<le> f" by simp
  define past where "past = max 0 (?cum - vc_queue_pos st)"
  have le: "vc_claimed st + f \<le> past" by (simp add: eq(1) past_def)
  have all: "vc_claimed st + f = past" if "f < r"
    using that eq(1) by (simp add: past_def min_def split: if_splits)
  have "0 \<le> vc_claimed st + f" "0 \<le> ?cum" "in_i64 ?cum"
    using a(1) pos f0 by (auto simp: volume_clock_ok_def in_i64_def)
  with a(1) le all show "volume_clock_ok ord (r - f) st'"
    by (simp add: volume_clock_ok_def eq(2) past_def)
qed

definition l3_exact_ok :: "order \<Rightarrow> i64 \<Rightarrow> l3_exact_state \<Rightarrow> bool" where
  "l3_exact_ok ord r st \<longleftrightarrow> in_i64 (lq_qty_ahead st)"

lemma l3_exact_fill_eq:
  assumes "eligible ord r t" and "in_i64 (tk_qty t)" and "in_i64 (lq_qty_ahead st)"
  shows "l3_exact_check_fill ord r t st =
    (let consumed = min (max 0 (lq_qty_ahead st)) (tk_qty t)
     in (min (tk_qty t - consumed) r,
         if lq_qty_ahead st > 0
         then st\<lparr>lq_qty_ahead := lq_qty_ahead st - consumed,
                 lq_ahead_orders := consume_ahead_orders (lq_ahead_orders st) consumed\<rparr>
         else st))"
proof (cases "lq_qty_ahead st > 0")
  case True
  let ?d = "min (lq_qty_ahead st) (tk_qty t)"
  from assms eligible_pos have "0 < tk_qty t" by blast
  with assms(2,3) True have "in_i64 (tk_qty t - ?d)" "in_i64 (lq_qty_ahead st - ?d)"
    by (auto simp: in_i64_def min_def)
  with assms(1) True show ?thesis
    by (simp add: l3_exact_check_fill_def Let_def sub_i64_exact)
next
  case False
  with assms(1) eligible_pos [OF assms(1)] show ?thesis
    by (simp add: l3_exact_check_fill_def Let_def)
qed

lemma l3_exact_update_range:
  "in_i64 (lq_qty_ahead st) \<Longrightarrow> in_i64 (lq_qty_ahead (l3_exact_on_l3_update ord st u))"
  by (simp add: l3_exact_on_l3_update_def remove_ahead_order_def modify_ahead_order_def Let_def
      split: option.split prod.split)

interpretation l3_exact: queue_laws l3_exact_queue l3_exact_ok
proof
  fix d ord r r' t st f u and st' :: l3_exact_state
  show "l3_exact_ok ord r st \<Longrightarrow> r' \<le> r \<Longrightarrow> l3_exact_ok ord r' st"
    by (simp add: l3_exact_ok_def)
  show "depth_ok d \<Longrightarrow> l3_exact_ok ord (od_qty ord) (qm_register_order l3_exact_queue ord d)"
    by (simp add: l3_exact_ok_def l3_exact_queue_def l3_exact_register_def Let_def sum_i64_wrap)
  show "\<not> eligible ord r t \<Longrightarrow> qm_check_fill l3_exact_queue ord r t st = (0, st)"
    by (simp add: l3_exact_queue_def l3_exact_check_fill_def)
  show "l3_exact_ok ord r st \<Longrightarrow> l3_exact_ok ord r (qm_on_l3_update l3_exact_queue ord st u)"
    by (simp add: l3_exact_ok_def l3_exact_queue_def l3_exact_update_range)
  assume a: "l3_exact_ok ord r st" "in_i64 (tk_qty t)" "eligible ord r t"
    "qm_check_fill l3_exact_queue ord r t st = (f, st')"
  from a(3) eligible_pos have "0 < r" "0 < tk_qty t" by blast+
  with a show "0 \<le> f \<and> f \<le> r \<and> f \<le> tk_qty t" and "l3_exact_ok ord (r - f) st'"
    by (auto simp: l3_exact_ok_def l3_exact_queue_def l3_exact_fill_eq Let_def in_i64_def
        split: if_splits)
qed

end
