(* ===== verification/QueueFills.thy ===== *)
theory QueueFills
  imports QueueModel
begin

text \<open>
  What the queue models of \<open>queue_model.rs\<close> agree on. \<open>run_fills\<close> is the sequence of
  \<open>check_fill\<close> calls the exchange simulator makes for one resting order; \<open>spec_fills\<close> is the
  abstract FIFO queue with a quantity ahead. The locale \<open>fifo_queue\<close> extends \<open>queue_laws\<close> by
  the simulation step, and its interpretations make the conservative, the volume-clock and the
  L3-exact model (on a day without depth updates) equal to the abstract queue. The last part
  shows that the L3-exact model follows the venue's queue.
\<close>

section \<open>The fills of one resting order\<close>

fun run_fills :: "'st queue_model \<Rightarrow> order \<Rightarrow> tick list \<Rightarrow> i64 \<Rightarrow> 'st \<Rightarrow> i64 list" where
  "run_fills qm ord [] r st = []"
| "run_fills qm ord (t # ts) r st =
     (let (f, st') = qm_check_fill qm ord r t st in f # run_fills qm ord ts (r - f) st')"

fun spec_fills :: "order \<Rightarrow> tick list \<Rightarrow> i64 \<Rightarrow> int \<Rightarrow> i64 list" where
  "spec_fills ord [] r ahead = []"
| "spec_fills ord (t # ts) r ahead =
     (if eligible ord r t then
        let f = min r (max 0 (tk_qty t - ahead))
        in f # spec_fills ord ts (r - f) (max 0 (ahead - tk_qty t))
      else 0 # spec_fills ord ts r ahead)"

text \<open>The volume that trades against the order at its price.\<close>

definition hits :: "order \<Rightarrow> tick \<Rightarrow> bool" where
  "hits ord t \<longleftrightarrow> eligible ord 1 t"

definition hit_volume :: "order \<Rightarrow> tick list \<Rightarrow> int" where
  "hit_volume ord ts = sum_list (map tk_qty (filter (hits ord) ts))"

lemma eligible_hits: "eligible ord r t \<longleftrightarrow> 0 < r \<and> hits ord t"
  by (auto simp: eligible_def hits_def)

lemma hit_volume_nonneg: "0 \<le> hit_volume ord ts"
  unfolding hit_volume_def by (induction ts) (auto simp: hits_def eligible_def)

lemma hit_volume_Cons:
  "hit_volume ord (t # ts) = (if hits ord t then tk_qty t else 0) + hit_volume ord ts"
  by (simp add: hit_volume_def)

lemma spec_fills_done: "r \<le> 0 \<Longrightarrow> sum_list (spec_fills ord ts r a) = 0"
  by (induction ts arbitrary: a) (auto simp: eligible_hits)

lemma fill_split:
  fixes r q a v :: int
  assumes "0 \<le> r" and "0 \<le> a" and "0 \<le> v"
  shows "min r (max 0 (q - a)) + min (r - min r (max 0 (q - a))) (max 0 (v - max 0 (a - q)))
    = min r (max 0 (q + v - a))"
  using assms by (cases "q \<le> a"; cases "r \<le> q - a") (simp_all add: algebra_simps)

lemma spec_fills_total:
  "0 \<le> r \<Longrightarrow> 0 \<le> a \<Longrightarrow>
   sum_list (spec_fills ord ts r a) = min r (max 0 (hit_volume ord ts - a))"
proof (induction ts arbitrary: r a)
  case (Cons t ts)
  show ?case
  proof (cases "eligible ord r t")
    case True
    then have pos: "0 < r" "0 < tk_qty t" and "hits ord t"
      by (simp_all add: eligible_pos) (simp add: eligible_hits)
    let ?f = "min r (max 0 (tk_qty t - a))"
    have "sum_list (spec_fills ord ts (r - ?f) (max 0 (a - tk_qty t)))
        = min (r - ?f) (max 0 (hit_volume ord ts - max 0 (a - tk_qty t)))"
      by (rule Cons.IH) auto
    with True pos \<open>hits ord t\<close> show ?thesis
      using fill_split [OF Cons.prems hit_volume_nonneg [of ord ts], of "tk_qty t"]
      by (simp add: Let_def hit_volume_Cons)
  next
    case False
    then have "r = 0 \<or> \<not> hits ord t" using Cons.prems by (auto simp: eligible_hits)
    with False Cons show ?thesis
      by (auto simp: hit_volume_Cons spec_fills_done)
  qed
qed (simp add: hit_volume_def)

section \<open>Models that implement the abstract queue\<close>

text \<open>
  \<open>ahead\<close> abstracts a state to the quantity ahead; \<open>room\<close> is the volume the state can still
  count before its counters saturate.
\<close>

locale fifo_queue = queue_laws qm ok for qm :: "'st queue_model" and ok +
  fixes ahead :: "'st \<Rightarrow> int" and room :: "'st \<Rightarrow> int"
  assumes fill_step: "ok ord r st \<Longrightarrow> in_i64 r \<Longrightarrow> in_i64 (tk_qty t) \<Longrightarrow> eligible ord r t \<Longrightarrow>
      tk_qty t \<le> room st \<Longrightarrow> qm_check_fill qm ord r t st = (f, st') \<Longrightarrow>
      f = min r (max 0 (tk_qty t - ahead st)) \<and> ahead st' = max 0 (ahead st - tk_qty t) \<and>
      room st - tk_qty t \<le> room st'"
begin

lemma run_fills_spec:
  assumes "ok ord r st" and "in_i64 r" and "0 \<le> r" and "\<forall>t\<in>set ts. in_i64 (tk_qty t)"
    and "hit_volume ord ts \<le> room st"
  shows "run_fills qm ord ts r st = spec_fills ord ts r (ahead st)"
  using assms
proof (induction ts arbitrary: r st)
  case (Cons t ts)
  obtain f st' where cf: "qm_check_fill qm ord r t st = (f, st')" by force
  have fits: "in_i64 (tk_qty t)" using Cons.prems(4) by simp
  show ?case
  proof (cases "eligible ord r t")
    case True
    then have "hits ord t" by (simp add: eligible_hits)
    with Cons.prems(5) have vol: "tk_qty t + hit_volume ord ts \<le> room st"
      by (simp add: hit_volume_Cons)
    with hit_volume_nonneg [of ord ts] have "tk_qty t \<le> room st" by linarith
    from fill_step [OF Cons.prems(1,2) fits True this cf]
    have f: "f = min r (max 0 (tk_qty t - ahead st))" and a: "ahead st' = max 0 (ahead st - tk_qty t)"
      and room: "room st - tk_qty t \<le> room st'" by auto
    have r: "0 \<le> r - f" using f by simp
    have "r - f \<le> r" using fill_bounds(1) [OF Cons.prems(1,2) fits Cons.prems(3) cf] by simp
    with r Cons.prems(2) have "in_i64 (r - f)" by (simp add: in_i64_def)
    with r vol room Cons.prems(4) fill_bounds(3) [OF Cons.prems(1,2) fits Cons.prems(3) cf]
    have "run_fills qm ord ts (r - f) st' = spec_fills ord ts (r - f) (ahead st')"
      by (intro Cons.IH) auto
    with cf f a True show ?thesis by (simp add: Let_def)
  next
    case False
    then have [simp]: "f = 0" "st' = st" using cf by (simp_all add: fill_ineligible)
    have "hit_volume ord ts \<le> hit_volume ord (t # ts)"
      by (simp add: hit_volume_Cons) (simp add: hits_def eligible_def)
    with Cons.prems False cf Cons.IH [of r st] show ?thesis by simp
  qed
qed simp

end

interpretation conservative_fifo:
  fifo_queue conservative_queue conservative_ok "\<lambda>st. max 0 (cq_qty_ahead st)" "\<lambda>st. i64_max"
  by unfold_locales
    (auto simp: conservative_queue_def conservative_fill_eq conservative_ok_def dest!: eligible_pos)

interpretation volume_clock_fifo:
  fifo_queue volume_clock_queue volume_clock_ok
    "\<lambda>st. max 0 (vc_queue_pos st - vc_cum_volume st)" "\<lambda>st. i64_max - vc_cum_volume st"
proof
  fix ord r t f and st st' :: volume_clock_state
  assume a: "volume_clock_ok ord r st" "in_i64 r" "in_i64 (tk_qty t)" "eligible ord r t"
    "tk_qty t \<le> i64_max - vc_cum_volume st" "qm_check_fill volume_clock_queue ord r t st = (f, st')"
  from a(4) eligible_pos have pos: "0 < r" "0 < tk_qty t" by blast+
  from a(1) pos have claimed: "vc_claimed st = max 0 (vc_cum_volume st - vc_queue_pos st)"
    by (simp add: volume_clock_ok_def)
  from a(5) have cum: "min i64_max (vc_cum_volume st + tk_qty t) = vc_cum_volume st + tk_qty t"
    by simp
  have f: "f = min (max 0 (vc_cum_volume st + tk_qty t - vc_queue_pos st) - vc_claimed st) r"
    and st': "st' = st\<lparr>vc_cum_volume := vc_cum_volume st + tk_qty t, vc_claimed := vc_claimed st + f\<rparr>"
    using a by (auto simp: volume_clock_queue_def volume_clock_fill_eq Let_def cum)
  have "max 0 (vc_cum_volume st + tk_qty t - vc_queue_pos st) - vc_claimed st
      = max 0 (tk_qty t - max 0 (vc_queue_pos st - vc_cum_volume st))"
    using pos unfolding claimed by linarith
  with f have "f = min r (max 0 (tk_qty t - max 0 (vc_queue_pos st - vc_cum_volume st)))"
    by (simp add: min.commute)
  then show "f = min r (max 0 (tk_qty t - max 0 (vc_queue_pos st - vc_cum_volume st))) \<and>
    max 0 (vc_queue_pos st' - vc_cum_volume st') =
      max 0 (max 0 (vc_queue_pos st - vc_cum_volume st) - tk_qty t) \<and>
    i64_max - vc_cum_volume st - tk_qty t \<le> i64_max - vc_cum_volume st'"
    using pos by (simp add: st' claimed)
qed

interpretation l3_exact_fifo:
  fifo_queue l3_exact_queue l3_exact_ok "\<lambda>st. max 0 (lq_qty_ahead st)" "\<lambda>st. i64_max"
  by unfold_locales
    (auto simp: l3_exact_queue_def l3_exact_fill_eq l3_exact_ok_def Let_def dest!: eligible_pos
      split: if_splits)

section \<open>How much is filled\<close>

lemma l3_exact_register_ahead:
  assumes "depth_ok d"
  shows "lq_qty_ahead (l3_exact_register ord d) =
      sum_list (map snd (md_orders_ahead d (od_side ord) (od_price ord) (od_order_id ord)))"
    and "0 \<le> lq_qty_ahead (l3_exact_register ord d)"
  using assms
  by (simp_all add: depth_ok_def l3_exact_register_def Let_def sum_i64_exact qtys_positive_sum_nonneg)

lemma depth_ok_level: "depth_ok d \<Longrightarrow> 0 \<le> md_level_qty d s p"
  by (simp add: depth_ok_def)

lemma conservative_run:
  assumes "depth_ok d" and "in_i64 (od_qty ord)" and "0 \<le> od_qty ord"
    and "\<forall>t\<in>set ts. in_i64 (tk_qty t)" and "hit_volume ord ts \<le> i64_max"
  shows "run_fills conservative_queue ord ts (od_qty ord) (conservative_register ord d)
    = spec_fills ord ts (od_qty ord) (md_level_qty d (od_side ord) (od_price ord))"
  using conservative_fifo.run_fills_spec [OF conservative.register_ok [OF assms(1)] assms(2-4)] assms(5)
    depth_ok_level [OF assms(1)]
  by (simp add: conservative_queue_def conservative_register_def)

lemma volume_clock_run:
  assumes "depth_ok d" and "in_i64 (od_qty ord)" and "0 \<le> od_qty ord"
    and "\<forall>t\<in>set ts. in_i64 (tk_qty t)" and "hit_volume ord ts \<le> i64_max"
  shows "run_fills volume_clock_queue ord ts (od_qty ord) (volume_clock_register ord d)
    = spec_fills ord ts (od_qty ord) (md_level_qty d (od_side ord) (od_price ord))"
  using volume_clock_fifo.run_fills_spec [OF volume_clock.register_ok [OF assms(1)] assms(2-4)] assms(5)
    depth_ok_level [OF assms(1)]
  by (simp add: volume_clock_queue_def volume_clock_register_def)

text \<open>
  C16. With the conservative model, the total a resting order is filled by any sequence of
  trades is the volume that traded against it at its price beyond the level quantity visible
  at entry, capped by the order's quantity: the user stands last in the queue.
\<close>

theorem conservative_total_fill:
  assumes "depth_ok d" and "in_i64 (od_qty ord)" and "0 \<le> od_qty ord"
    and "\<forall>t\<in>set ts. in_i64 (tk_qty t)" and "hit_volume ord ts \<le> i64_max"
  shows "sum_list (run_fills conservative_queue ord ts (od_qty ord) (conservative_register ord d))
    = min (od_qty ord) (max 0 (hit_volume ord ts - md_level_qty d (od_side ord) (od_price ord)))"
  by (simp add: conservative_run [OF assms] spec_fills_total assms(3) depth_ok_level [OF assms(1)])

text \<open>
  C17. The volume-clock model and the conservative model fill an order by the same quantities at
  the same trades, whatever the trades are, as long as the traded volume fits 64 bits.
\<close>

theorem volume_clock_equals_conservative:
  assumes "depth_ok d" and "in_i64 (od_qty ord)" and "0 \<le> od_qty ord"
    and "\<forall>t\<in>set ts. in_i64 (tk_qty t)" and "hit_volume ord ts \<le> i64_max"
  shows "run_fills volume_clock_queue ord ts (od_qty ord) (volume_clock_register ord d)
    = run_fills conservative_queue ord ts (od_qty ord) (conservative_register ord d)"
  by (simp add: conservative_run [OF assms] volume_clock_run [OF assms])

text \<open>
  C19. With the L3-exact model and no depth update after entry, the total fill is the volume
  traded against the order beyond the quantities of the venue orders that stood before it at
  entry, capped by its quantity.
\<close>

theorem l3_exact_total_fill:
  assumes "depth_ok d" and "in_i64 (od_qty ord)" and "0 \<le> od_qty ord"
    and "\<forall>t\<in>set ts. in_i64 (tk_qty t)" and "hit_volume ord ts \<le> i64_max"
  shows "sum_list (run_fills l3_exact_queue ord ts (od_qty ord) (l3_exact_register ord d))
    = min (od_qty ord) (max 0 (hit_volume ord ts -
        sum_list (map snd (md_orders_ahead d (od_side ord) (od_price ord) (od_order_id ord)))))"
  using l3_exact_fifo.run_fills_spec [OF l3_exact.register_ok [OF assms(1)] assms(2-4)] assms(3,5)
    l3_exact_register_ahead [OF assms(1), of ord]
  by (simp add: l3_exact_queue_def spec_fills_total)

subsection \<open>A concrete order\<close>

definition sample_order :: order where
  "sample_order = \<lparr>od_order_id = 1, od_client_order_id = 0, od_ts_submit = 1000, od_seq = 0,
     od_price = 100, od_qty = 3, od_symbol_id = 1, od_side = Buy, od_order_type = Limit\<rparr>"

definition sample_trade :: "i64 \<Rightarrow> tick" where
  "sample_trade q = \<lparr>tk_ts_exchange = 2000, tk_ts_local = 2000, tk_seq = 1, tk_price = 100,
     tk_qty = q, tk_symbol_id = 1, tk_side = Sell, tk_flags = 1\<rparr>"

definition sample_book :: order_book_l2 where
  "sample_book = \<lparr>l2b_bids = [(100, 10)], l2b_asks = []\<rparr>"

definition sample_book_l3 :: order_book_l3 where
  "sample_book_l3 = \<lparr>l3b_bids = [(100, [(7, 4), (8, 6)])], l3b_asks = []\<rparr>"

lemmas sample_defs = sample_order_def sample_trade_def sample_book_def sample_book_l3_def

lemma sample_depth_ok: "depth_ok (l2_depth sample_book)"
  by (rule l2_view.view_depth_ok) (simp add: l2_nonneg_def sample_book_def bt_all_def in_i64_def)

lemma sample_depth_l3_ok: "depth_ok (l3_depth sample_book_l3)"
  by (rule l3_view.view_depth_ok)
    (simp add: l3_wf_def l3_fits_def sample_book_l3_def bt_all_def bt_wf_def queue_ok_def
      queue_fits_def in_i64_def)

lemma sample_order_ok: "in_i64 (od_qty sample_order)" "0 \<le> od_qty sample_order"
  by (simp_all add: sample_order_def in_i64_def)

lemma sample_hits: "hits sample_order (sample_trade q) \<longleftrightarrow> 0 < q"
  by (auto simp: hits_def eligible_def is_against_def sample_order_def sample_trade_def)

lemma sample_level: "md_level_qty (l2_depth sample_book) Buy 100 = 10"
  by (simp add: l2_depth_def l2_level_qty_def sample_book_def unwrap_or_def bt_get_def)

lemma sample_trades_ok:
  "\<forall>t\<in>set (map sample_trade [10, 1, 5]). in_i64 (tk_qty t)"
  "hit_volume sample_order (map sample_trade [10, 1, 5]) = 16"
  by (simp_all add: hit_volume_def sample_hits) (simp_all add: sample_trade_def in_i64_def)

theorem conservative_total_fill_witness:
  "sum_list (run_fills conservative_queue sample_order (map sample_trade [10, 1, 5]) 3
     (conservative_register sample_order (l2_depth sample_book))) = 3"
  using conservative_total_fill [OF sample_depth_ok sample_order_ok sample_trades_ok(1)]
  by (simp only: sample_trades_ok(2)) (simp add: sample_order_def sample_level)

theorem volume_clock_equals_conservative_witness:
  "run_fills volume_clock_queue sample_order (map sample_trade [10, 1, 5]) 3
     (volume_clock_register sample_order (l2_depth sample_book))
   = run_fills conservative_queue sample_order (map sample_trade [10, 1, 5]) 3
     (conservative_register sample_order (l2_depth sample_book))"
  using volume_clock_equals_conservative [OF sample_depth_ok sample_order_ok sample_trades_ok(1)]
  by (simp only: sample_trades_ok(2)) (simp add: sample_order_def)

theorem l3_exact_total_fill_witness:
  "sum_list (run_fills l3_exact_queue sample_order (map sample_trade [10, 1, 5]) 3
     (l3_exact_register sample_order (l3_depth sample_book_l3))) = 3"
  using l3_exact_total_fill [OF sample_depth_l3_ok sample_order_ok sample_trades_ok(1)]
  by (simp only: sample_trades_ok(2))
    (simp add: sample_order_def sample_book_l3_def l3_depth_def l3_orders_ahead_def side_map_def
      bt_get_def)

section \<open>The L3-exact model follows the venue's queue\<close>

text \<open>
  \<open>follows st q\<close>: the orders the state counts ahead are the head of the venue's queue \<open>q\<close>, and
  the quantity ahead is their total.
\<close>

definition follows :: "l3_exact_state \<Rightarrow> l3_queue \<Rightarrow> bool" where
  "follows st queue \<longleftrightarrow>
     prefix (lq_ahead_orders st) queue \<and> lq_qty_ahead st = sum_list (map snd (lq_ahead_orders st))"

lemma remove_first_id_None: "remove_first_id i a = None \<longleftrightarrow> i \<notin> fst ` set a"
  by (induction i a rule: remove_first_id.induct) auto

lemma remove_first_id_Some:
  "remove_first_id i a = Some (q, rest) \<Longrightarrow> distinct (map fst a) \<Longrightarrow>
   rest = retain_other i a \<and> sum_list (map snd a) = q + sum_list (map snd rest) \<and>
   sum_list (map snd (set_first_qty i n a)) = n + sum_list (map snd rest)"
proof (induction i a arbitrary: q rest rule: remove_first_id.induct)
  case (2 i j p a)
  show ?case
  proof (cases "j = i")
    case True
    with 2 have "i \<notin> fst ` set a" by auto
    then have "retain_other i a = a" by (auto simp: retain_other_def filter_id_conv)
    with True 2 show ?thesis by (auto simp: retain_other_def)
  next
    case False
    with 2 show ?thesis by (force simp: retain_other_def)
  qed
qed simp

lemma retain_other_append [simp]: "retain_other i (a @ b) = retain_other i a @ retain_other i b"
  by (simp add: retain_other_def)

lemma retain_other_absent: "i \<notin> fst ` set a \<Longrightarrow> retain_other i a = a"
  by (auto simp: retain_other_def filter_id_conv)

lemma set_first_qty_append:
  "set_first_qty i n (a @ b) =
     (if i \<in> fst ` set a then set_first_qty i n a @ b else a @ set_first_qty i n b)"
  by (induction i n a rule: set_first_qty.induct) auto

lemma set_first_qty_zero:
  "qtys_positive a \<Longrightarrow> distinct (map fst a) \<Longrightarrow>
   filter (\<lambda>e. snd e > 0) (set_first_qty i 0 a) = retain_other i a"
proof (induction i "0::int" a rule: set_first_qty.induct)
  case (2 i j q a)
  have "filter (\<lambda>e. 0 < snd e) a = a" using 2(2) by (auto simp: filter_id_conv qtys_positive_def)
  moreover have "retain_other i a = a" if "i = j"
    using 2(3) that by (auto intro: retain_other_absent)
  ultimately show ?case using 2 by (auto simp: retain_other_def)
qed (simp add: retain_other_def)

lemma prefix_sum_range:
  assumes "prefix a queue" and "qtys_positive queue" and "queue_fits queue"
  shows "0 \<le> sum_list (map snd a) \<and> in_i64 (sum_list (map snd a))"
proof -
  from assms(1) obtain b where q: "queue = a @ b" by (auto simp: prefix_def)
  with assms(2) have "0 \<le> sum_list (map snd a)" "0 \<le> sum_list (map snd b)"
    by (simp_all add: qtys_positive_sum_nonneg)
  with assms(3) show ?thesis by (simp add: q queue_fits_def in_i64_def)
qed

lemma remove_ahead_follows:
  assumes "follows st queue" and "distinct (map fst queue)" and "qtys_positive queue"
    and "queue_fits (retain_other i queue)"
  shows "follows (remove_ahead_order st i) (retain_other i queue)"
proof -
  from assms(1) obtain b where q: "queue = lq_ahead_orders st @ b"
    and total: "lq_qty_ahead st = sum_list (map snd (lq_ahead_orders st))"
    by (auto simp: follows_def prefix_def)
  from assms(2) have d: "distinct (map fst (lq_ahead_orders st))" by (simp add: q)
  show ?thesis
  proof (cases "remove_first_id i (lq_ahead_orders st)")
    case None
    then have "remove_ahead_order st i = st" by (simp add: remove_ahead_order_def)
    moreover from None have "retain_other i (lq_ahead_orders st) = lq_ahead_orders st"
      by (simp add: remove_first_id_None retain_other_absent)
    ultimately show ?thesis by (simp add: follows_def q total)
  next
    case (Some r)
    then obtain p rest where r: "remove_first_id i (lq_ahead_orders st) = Some (p, rest)"
      by (cases r) auto
    from remove_first_id_Some [OF r d] have rest: "rest = retain_other i (lq_ahead_orders st)"
      and sum: "lq_qty_ahead st - p = sum_list (map snd rest)" by (auto simp: total)
    have pre: "prefix rest (retain_other i queue)" by (simp add: q rest)
    from prefix_sum_range [OF this retain_other_positive [OF assms(3)] assms(4)] pre sum
    show ?thesis by (simp add: remove_ahead_order_def r follows_def saturating_sub_def)
  qed
qed

lemma modify_ahead_follows:
  assumes "follows st queue" and "distinct (map fst queue)" and "qtys_positive queue" and "0 \<le> n"
    and new: "queue' = (if n = 0 then retain_other i queue else set_first_qty i n queue)"
    and fits: "queue_fits queue'"
  shows "follows (modify_ahead_order st i n) queue'"
proof -
  from assms(1) obtain b where q: "queue = lq_ahead_orders st @ b"
    and total: "lq_qty_ahead st = sum_list (map snd (lq_ahead_orders st))"
    by (auto simp: follows_def prefix_def)
  from assms(2,3) have d: "distinct (map fst (lq_ahead_orders st))" "qtys_positive (lq_ahead_orders st)"
    by (simp_all add: q)
  have pos: "qtys_positive queue'" using assms(3,4) by (simp add: new)
  show ?thesis
  proof (cases "remove_first_id i (lq_ahead_orders st)")
    case None
    then have "modify_ahead_order st i n = st" by (simp add: modify_ahead_order_def)
    moreover from None have "prefix (lq_ahead_orders st) queue'"
      by (simp add: remove_first_id_None retain_other_absent new q set_first_qty_append)
    ultimately show ?thesis by (simp add: follows_def total)
  next
    case (Some r)
    then obtain p rest where r: "remove_first_id i (lq_ahead_orders st) = Some (p, rest)"
      by (cases r) auto
    have mem: "i \<in> fst ` set (lq_ahead_orders st)"
      using r remove_first_id_None [of i "lq_ahead_orders st"] by auto
    define a' where "a' = (if n = 0 then filter (\<lambda>e. snd e > 0) (set_first_qty i n (lq_ahead_orders st))
      else set_first_qty i n (lq_ahead_orders st))"
    from remove_first_id_Some [OF r d(1), of n] have rest: "rest = retain_other i (lq_ahead_orders st)"
      and sum: "lq_qty_ahead st - p = sum_list (map snd rest)"
      and sum': "sum_list (map snd (set_first_qty i n (lq_ahead_orders st))) = n + sum_list (map snd rest)"
      by (auto simp: total)
    have zero: "n = 0 \<Longrightarrow> a' = rest"
      using set_first_qty_zero [OF d(2,1)] by (simp add: a'_def rest)
    have pre: "prefix a' queue'"
      using mem zero by (auto simp: new q set_first_qty_append a'_def rest)
    have a_sum: "sum_list (map snd a') = sum_list (map snd rest) + n"
      using zero sum' by (cases "n = 0") (simp_all add: a'_def)
    have "0 \<le> sum_list (map snd rest)"
      using d(2) by (simp add: rest qtys_positive_sum_nonneg)
    with prefix_sum_range [OF pre pos fits] assms(4)
    have "in_i64 (sum_list (map snd rest))" "in_i64 (sum_list (map snd rest) + n)"
      by (simp_all add: a_sum in_i64_def)
    with pre a_sum sum show ?thesis
      by (simp add: modify_ahead_order_def r follows_def saturating_sub_def saturating_add_def
          Let_def a'_def)
  qed
qed

text \<open>
  C18. While the venue's order-by-order feed is applied to the book, the L3-exact state stays in
  step with it: the orders it counts ahead are exactly the head of the venue's queue at the
  order's price, and its quantity ahead is their total. Orders added later join behind,
  modified orders keep their place with the new quantity, and removed ones leave.
\<close>

theorem l3_exact_follows_book:
  assumes "l3_wf b" and "apply_l3 b u = Inr b'" and "l3_fits b'"
    and "l3_symbol_id u = od_symbol_id ord"
    and "distinct (map fst (l3_queue_at b (od_side ord) (od_price ord)))"
    and "follows st (l3_queue_at b (od_side ord) (od_price ord))"
  shows "follows (l3_exact_on_l3_update ord st u) (l3_queue_at b' (od_side ord) (od_price ord))"
proof (cases "l3_side u = od_side ord \<and> l3_price u = od_price ord")
  case True
  let ?q = "l3_queue_at b (od_side ord) (od_price ord)"
  let ?q' = "l3_queue_at b' (od_side ord) (od_price ord)"
  have q': "?q' = updated_queue u ?q"
    using True by (simp add: apply_l3_queue_lemma [OF assms(1,2)])
  have pos: "qtys_positive ?q" using assms(1) by (rule l3_queue_at_positive)
  have fits: "queue_fits ?q'" using assms(3) by (rule l3_queue_at_fits)
  from assms(2) show ?thesis
  proof (cases rule: apply_l3_cases)
    case add
    from add(1) have "l3_exact_on_l3_update ord st u = st" and "\<exists>e. ?q' = ?q @ [e]"
      by (simp_all add: l3_exact_on_l3_update_def q' updated_queue_def)
    with assms(6) show ?thesis by (auto simp: follows_def)
  next
    case modify
    from modify(1,2) have "follows (modify_ahead_order st (l3_order_id u) (l3_qty u)) ?q'"
      by (intro modify_ahead_follows [OF assms(6,5) pos _ _ fits])
        (simp_all add: q' updated_queue_def)
    with modify(1,2) True assms(4) show ?thesis by (simp add: l3_exact_on_l3_update_def)
  next
    case delete
    from delete(1) have "follows (remove_ahead_order st (l3_order_id u)) ?q'"
      using remove_ahead_follows [OF assms(6,5) pos] fits by (simp add: q' updated_queue_def)
    with delete(1) True assms(4) show ?thesis by (simp add: l3_exact_on_l3_update_def)
  qed
next
  case False
  then have "l3_exact_on_l3_update ord st u = st" by (auto simp: l3_exact_on_l3_update_def)
  with False assms(6) show ?thesis by (auto simp: apply_l3_queue_lemma [OF assms(1,2)])
qed

lemma l3_exact_register_follows:
  assumes "l3_wf b" and "l3_fits b"
  shows "follows (l3_exact_register ord (l3_depth b)) (l3_queue_at b (od_side ord) (od_price ord))"
proof -
  have "prefix (take_until_order i q) q" for i and q :: l3_queue
    by (induction i q rule: take_until_order.induct) auto
  with l3_view.view_depth_ok [of b] assms show ?thesis
    by (simp add: follows_def l3_exact_register_def Let_def depth_ok_def sum_i64_exact)
      (simp add: l3_depth_def l3_orders_ahead_queue_at)
qed

definition sample_modify :: l3_update where
  "sample_modify = \<lparr>l3_ts_exchange = 3000, l3_seq = 5, l3_symbol_id = 1, l3_order_id = 7,
     l3_price = 100, l3_qty = 2, l3_side = Buy, l3_action = 2\<rparr>"

lemma sample_book_l3_ok: "l3_wf sample_book_l3" "l3_fits sample_book_l3"
  by (simp_all add: l3_wf_def l3_fits_def sample_book_l3_def bt_all_def bt_wf_def queue_ok_def
      queue_fits_def in_i64_def)

theorem l3_exact_follows_book_witness:
  "\<exists>b'. apply_l3 sample_book_l3 sample_modify = Inr b' \<and>
     follows (l3_exact_on_l3_update sample_order
        (l3_exact_register sample_order (l3_depth sample_book_l3)) sample_modify)
       (l3_queue_at b' Buy 100) \<and> l3_queue_at b' Buy 100 = [(7, 2), (8, 6)]"
proof -
  let ?b = "\<lparr>l3b_bids = [(100, [(7, 2), (8, 6)])], l3b_asks = []\<rparr> :: order_book_l3"
  have b: "apply_l3 sample_book_l3 sample_modify = Inr ?b"
    by (simp add: apply_l3_def sample_modify_def sample_book_l3_def side_map_mut_def
        modify_level_def store_queue_def bt_get_def)
  have q: "l3_queue_at sample_book_l3 Buy 100 = [(7, 4), (8, 6)]"
    "l3_queue_at ?b Buy 100 = [(7, 2), (8, 6)]"
    by (simp_all add: l3_queue_at_def sample_book_l3_def side_map_def unwrap_or_def bt_get_def)
  have ord: "od_side sample_order = Buy" "od_price sample_order = 100"
    "l3_symbol_id sample_modify = od_symbol_id sample_order"
    by (simp_all add: sample_order_def sample_modify_def)
  have fits: "l3_fits ?b" by (simp add: l3_fits_def bt_all_def queue_fits_def in_i64_def)
  have "follows (l3_exact_on_l3_update sample_order
        (l3_exact_register sample_order (l3_depth sample_book_l3)) sample_modify)
       (l3_queue_at ?b (od_side sample_order) (od_price sample_order))"
    by (rule l3_exact_follows_book
        [OF sample_book_l3_ok(1) b fits ord(3) _ l3_exact_register_follows [OF sample_book_l3_ok]])
      (simp add: ord q)
  with b q show ?thesis by (simp add: ord)
qed

end
