(* ===== verification/ExchangeSim.thy ===== *)
theory ExchangeSim
  imports QueueModel
begin

text \<open>
  \<open>exchange_simulator.rs\<close>: the venue. It keeps the L2 book, in L3 mode also the L3 book, the
  live orders of the user with their state and fill counters, and an index of order
  identifiers by price and side. The record \<open>exchange\<close> is \<open>ExchangeSimulator\<close>, one function per
  method. A method with a result and a mutated \<open>self\<close> returns both, the error cases included,
  since \<open>apply_l3_update\<close> changes queue states before it can fail.
\<close>

record 'st live_order =
  lo_order :: order
  lo_state :: order_state
  lo_filled_qty :: i64
  lo_remaining_qty :: i64
  lo_queue_state :: 'st

type_synonym bucket_map = "(i64 \<times> side, u64 list) hash_map"

record 'st exchange =
  ex_book :: order_book_l2
  ex_book_l3 :: "order_book_l3 option"
  ex_queue_model :: "'st queue_model"
  ex_orders :: "(u64, 'st live_order) btree"
  ex_buckets :: bucket_map

definition exchange_new :: "'st queue_model \<Rightarrow> 'st exchange" where
  "exchange_new qm =
     \<lparr>ex_book = l2_new, ex_book_l3 = None, ex_queue_model = qm, ex_orders = [], ex_buckets = []\<rparr>"

definition exchange_new_l3 :: "'st queue_model \<Rightarrow> 'st exchange" where
  "exchange_new_l3 qm =
     \<lparr>ex_book = l2_new, ex_book_l3 = Some l3_new, ex_queue_model = qm, ex_orders = [], ex_buckets = []\<rparr>"

text \<open>Writing back the entry that \<open>orders.get_mut\<close> returned.\<close>

definition put_order :: "u64 \<Rightarrow> 'st live_order \<Rightarrow> 'st exchange \<Rightarrow> 'st exchange" where
  "put_order order_id live x = x\<lparr>ex_orders := bt_insert order_id live (ex_orders x)\<rparr>"

section \<open>Books\<close>

definition apply_l2_update :: "l2_update \<Rightarrow> 'st exchange \<Rightarrow> 'st exchange" where
  "apply_l2_update u x = x\<lparr>ex_book := apply_l2 (ex_book x) u\<rparr>"

definition mark_price :: "'st exchange \<Rightarrow> i64 option" where
  "mark_price x =
     (let (best_bid, best_ask) =
        (case ex_book_l3 x of
           Some book_l3 \<Rightarrow> (l3_best_bid book_l3, l3_best_ask book_l3)
         | None \<Rightarrow> (l2_best_bid (ex_book x), l2_best_ask (ex_book x)))
      in case (best_bid, best_ask) of
           (Some (bid, _), Some (ask, _)) \<Rightarrow> Some (saturating_add bid ask sdiv 2)
         | (Some (bid, _), None) \<Rightarrow> Some bid
         | (None, Some (ask, _)) \<Rightarrow> Some ask
         | (None, None) \<Rightarrow> None)"

definition l3_live_states :: "order_state set" where
  "l3_live_states = {PendingNew, Open, PartiallyFilled}"

definition on_l3_update_live :: "'st queue_model \<Rightarrow> l3_update \<Rightarrow> 'st live_order \<Rightarrow> 'st live_order" where
  "on_l3_update_live qm u live =
     (if lo_state live \<in> l3_live_states
      then live\<lparr>lo_queue_state := qm_on_l3_update qm (lo_order live) (lo_queue_state live) u\<rparr>
      else live)"

definition apply_l3_update :: "l3_update \<Rightarrow> 'st exchange \<Rightarrow> (string + unit) \<times> 'st exchange" where
  "apply_l3_update u x =
     (let x1 = x\<lparr>ex_orders := bt_map_values (on_l3_update_live (ex_queue_model x) u) (ex_orders x)\<rparr>
      in case ex_book_l3 x1 of
           None \<Rightarrow> (Inl ''exchange is not in L3 depth mode'', x1)
         | Some book_l3 \<Rightarrow>
             (case apply_l3 book_l3 u of
                Inl e \<Rightarrow> (Inl e, x1)
              | Inr book_l3' \<Rightarrow> (Inr (), x1\<lparr>ex_book_l3 := Some book_l3'\<rparr>)))"

section \<open>The order lifecycle\<close>

definition exchange_depth :: "'st exchange \<Rightarrow> market_depth" where
  "exchange_depth x =
     (case ex_book_l3 x of Some book_l3 \<Rightarrow> l3_depth book_l3 | None \<Rightarrow> l2_depth (ex_book x))"

definition bucket_key :: "order \<Rightarrow> i64 \<times> side" where
  "bucket_key ord = (od_price ord, od_side ord)"

definition submit_order :: "order \<Rightarrow> 'st exchange \<Rightarrow> u64 \<times> 'st exchange" where
  "submit_order ord x =
     (let order_id = od_order_id ord;
          queue_state = qm_register_order (ex_queue_model x) ord (exchange_depth x);
          bucket = unwrap_or (hm_get (ex_buckets x) (bucket_key ord)) []
      in (order_id,
          x\<lparr>ex_buckets := hm_insert (bucket_key ord) (bucket @ [order_id]) (ex_buckets x),
             ex_orders := bt_insert order_id
               \<lparr>lo_order = ord, lo_state = PendingNew, lo_filled_qty = 0,
                lo_remaining_qty = od_qty ord, lo_queue_state = queue_state\<rparr> (ex_orders x)\<rparr>))"

text \<open>The report on a live order, with the fill of this step and the reason as arguments.\<close>

definition report_of ::
  "'st live_order \<Rightarrow> order_state \<Rightarrow> i64 \<Rightarrow> i64 \<Rightarrow> i64 \<Rightarrow> i64 \<Rightarrow> string option \<Rightarrow> order_report" where
  "report_of live status fill_qty fill_price filled remaining reason =
     \<lparr>rp_order_id = od_order_id (lo_order live),
      rp_client_order_id = od_client_order_id (lo_order live),
      rp_last_fill_qty = fill_qty, rp_last_fill_price = fill_price,
      rp_filled_qty = filled, rp_remaining_qty = remaining, rp_reason = reason,
      rp_symbol_id = od_symbol_id (lo_order live), rp_status = status\<rparr>"

definition ack_new :: "u64 \<Rightarrow> 'st exchange \<Rightarrow> (string + order_report) \<times> 'st exchange" where
  "ack_new order_id x =
     (case bt_get (ex_orders x) order_id of
        None \<Rightarrow> (Inl ''unknown order_id'', x)
      | Some live \<Rightarrow>
          if lo_state live \<noteq> PendingNew then (Inl ''order is not PendingNew'', x)
          else let live' = live\<lparr>lo_state := Open\<rparr>
               in (Inr (report_of live' Open 0 0 0 (lo_remaining_qty live') None),
                   put_order order_id live' x))"

definition cancel_order :: "u64 \<Rightarrow> 'st exchange \<Rightarrow> (string + unit) \<times> 'st exchange" where
  "cancel_order order_id x =
     (case bt_get (ex_orders x) order_id of
        None \<Rightarrow> (Inl ''unknown order_id'', x)
      | Some live \<Rightarrow>
          if \<not> can_transition_to (lo_state live) PendingCancel
          then (Inl ''order cannot transition to PendingCancel'', x)
          else (Inr (), put_order order_id (live\<lparr>lo_state := PendingCancel\<rparr>) x))"

definition ack_cancel :: "u64 \<Rightarrow> 'st exchange \<Rightarrow> (string + order_report) \<times> 'st exchange" where
  "ack_cancel order_id x =
     (case bt_get (ex_orders x) order_id of
        None \<Rightarrow> (Inl ''unknown order_id'', x)
      | Some live \<Rightarrow>
          (case lo_state live of
             PendingCancel \<Rightarrow>
               let live' = live\<lparr>lo_state := Cancelled\<rparr>
               in (Inr (report_of live' Cancelled 0 0 (lo_filled_qty live') (lo_remaining_qty live') None),
                   put_order order_id live' x)
           | Filled \<Rightarrow> (Inl ''cancel rejected: already filled'', x)
           | _ \<Rightarrow> (Inl ''order is not PendingCancel'', x)))"

definition get_order_state :: "'st exchange \<Rightarrow> u64 \<Rightarrow> order_state option" where
  "get_order_state x order_id = map_option lo_state (bt_get (ex_orders x) order_id)"

definition get_order :: "'st exchange \<Rightarrow> u64 \<Rightarrow> order option" where
  "get_order x order_id = map_option lo_order (bt_get (ex_orders x) order_id)"

definition get_filled_qty :: "'st exchange \<Rightarrow> u64 \<Rightarrow> i64 option" where
  "get_filled_qty x order_id = map_option lo_filled_qty (bt_get (ex_orders x) order_id)"

definition get_remaining_qty :: "'st exchange \<Rightarrow> u64 \<Rightarrow> i64 option" where
  "get_remaining_qty x order_id = map_option lo_remaining_qty (bt_get (ex_orders x) order_id)"

section \<open>Market orders\<close>

definition or_else :: "'a option \<Rightarrow> 'a option \<Rightarrow> 'a option" where
  "or_else a b = (case a of None \<Rightarrow> b | Some v \<Rightarrow> Some v)"

definition best_opposite :: "'st exchange \<Rightarrow> side \<Rightarrow> (i64 \<times> i64) option" where
  "best_opposite x s =
     (case s of
        Buy \<Rightarrow> or_else (Option.bind (ex_book_l3 x) l3_best_ask) (l2_best_ask (ex_book x))
      | Sell \<Rightarrow> or_else (Option.bind (ex_book_l3 x) l3_best_bid) (l2_best_bid (ex_book x))
      | NoSide \<Rightarrow> None)"

definition fill_market_immediately ::
  "u64 \<Rightarrow> i64 option \<Rightarrow> 'st exchange \<Rightarrow> order_report option \<times> 'st exchange" where
  "fill_market_immediately order_id fallback_price x =
     (case bt_get (ex_orders x) order_id of
        None \<Rightarrow> (None, x)
      | Some live \<Rightarrow>
          let best = best_opposite x (od_side (lo_order live));
              effective = or_else best (map_option (\<lambda>p. (p, i64_max)) fallback_price)
          in case effective of
               Some (price, available_qty) \<Rightarrow>
                 let fill_qty = min (od_qty (lo_order live)) available_qty;
                     remaining = sub_i64 (od_qty (lo_order live)) fill_qty;
                     status = (if remaining = 0 then Filled else PartiallyFilled);
                     live' = live\<lparr>lo_filled_qty := fill_qty, lo_remaining_qty := remaining,
                               lo_state := status\<rparr>
                 in (Some (report_of live' status fill_qty price fill_qty remaining None),
                     put_order order_id live' x)
             | None \<Rightarrow>
                 let live' = live\<lparr>lo_state := Rejected\<rparr>
                 in (Some (report_of live' Rejected 0 0 0 (od_qty (lo_order live)) (Some ''book empty'')),
                     put_order order_id live' x))"

definition force_cancel_partial_fill :: "u64 \<Rightarrow> 'st exchange \<Rightarrow> order_report option \<times> 'st exchange" where
  "force_cancel_partial_fill order_id x =
     (case bt_get (ex_orders x) order_id of
        None \<Rightarrow> (None, x)
      | Some live \<Rightarrow>
          let live' = live\<lparr>lo_state := Cancelled\<rparr>
          in (Some (report_of live' Cancelled 0 0 (lo_filled_qty live') (lo_remaining_qty live')
                (Some ''market order partial fill: remaining qty cancelled'')),
              put_order order_id live' x))"

definition remove_order :: "u64 \<Rightarrow> 'st exchange \<Rightarrow> 'st exchange" where
  "remove_order order_id x =
     (case bt_get (ex_orders x) order_id of
        None \<Rightarrow> x
      | Some live \<Rightarrow>
          let x1 = x\<lparr>ex_orders := bt_remove order_id (ex_orders x)\<rparr>;
              key = bucket_key (lo_order live)
          in case hm_get (ex_buckets x1) key of
               None \<Rightarrow> x1
             | Some bucket \<Rightarrow> x1\<lparr>ex_buckets := hm_insert key (remove1 order_id bucket) (ex_buckets x1)\<rparr>)"

section \<open>Trades\<close>

definition fillable_states :: "order_state set" where
  "fillable_states = {Open, PartiallyFilled, PendingCancel}"

text \<open>One round of the loop of \<open>on_trade\<close> over the identifiers of the bucket.\<close>

definition trade_step ::
  "'st queue_model \<Rightarrow> tick \<Rightarrow> u64 \<Rightarrow> (u64, 'st live_order) btree \<times> order_report list
    \<Rightarrow> (u64, 'st live_order) btree \<times> order_report list" where
  "trade_step qm trade order_id acc =
     (let (orders, reports) = acc in
      case bt_get orders order_id of
        None \<Rightarrow> (orders, reports)
      | Some live \<Rightarrow>
          if lo_remaining_qty live \<le> 0 then (orders, reports)
          else if lo_state live \<notin> fillable_states then (orders, reports)
          else
            let (fill_qty, queue_state') =
                  qm_check_fill qm (lo_order live) (lo_remaining_qty live) trade (lo_queue_state live);
                live1 = live\<lparr>lo_queue_state := queue_state'\<rparr>
            in if fill_qty \<le> 0 then (bt_insert order_id live1 orders, reports)
               else
                 let filled = add_i64 (lo_filled_qty live1) fill_qty;
                     remaining = sub_i64 (lo_remaining_qty live1) fill_qty;
                     status = (if remaining = 0 then Filled else PartiallyFilled);
                     live2 = live1\<lparr>lo_filled_qty := filled, lo_remaining_qty := remaining,
                               lo_state := status\<rparr>
                 in (bt_insert order_id live2 orders,
                     reports @ [report_of live2 status fill_qty (tk_price trade) filled remaining None]))"

fun maker_side :: "side \<Rightarrow> side option" where
  "maker_side Buy = Some Sell"
| "maker_side Sell = Some Buy"
| "maker_side NoSide = None"

definition on_trade :: "tick \<Rightarrow> order_report list \<Rightarrow> 'st exchange \<Rightarrow> order_report list \<times> 'st exchange" where
  "on_trade trade reports x =
     (case maker_side (tk_side trade) of
        None \<Rightarrow> (reports, x)
      | Some maker \<Rightarrow>
          let order_ids = unwrap_or (hm_get (ex_buckets x) (tk_price trade, maker)) [];
              (orders', reports') =
                fold (trade_step (ex_queue_model x) trade) order_ids (ex_orders x, reports)
          in (reports', x\<lparr>ex_orders := orders'\<rparr>))"

end
