(* ===== verification/ExchangeInv.thy ===== *)
theory ExchangeInv
  imports ExchangeSim
begin

text \<open>
  What the exchange simulator keeps and does. First trades: the loop of \<open>on_trade\<close> over one
  bucket of the price index does to the orders what a scan of all orders would do. Then the
  invariant of every order and of the index, for any queue model that satisfies
  \<open>queue_laws\<close>, over all sequences of venue operations (\<open>ex_reach\<close>); and the order state
  machine: which transitions the operations make.
\<close>

section \<open>A trade, order by order\<close>

definition report_list :: "order_report option \<Rightarrow> order_report list" where
  "report_list r = (case r of None \<Rightarrow> [] | Some v \<Rightarrow> [v])"

text \<open>The effect of a trade on one live order, and the report it makes.\<close>

definition trade_live ::
  "'st queue_model \<Rightarrow> tick \<Rightarrow> 'st live_order \<Rightarrow> 'st live_order \<times> order_report option" where
  "trade_live qm trade live =
     (if lo_remaining_qty live \<le> 0 \<or> lo_state live \<notin> fillable_states then (live, None)
      else
        let (fill_qty, queue_state') =
              qm_check_fill qm (lo_order live) (lo_remaining_qty live) trade (lo_queue_state live);
            live1 = live\<lparr>lo_queue_state := queue_state'\<rparr>
        in if fill_qty \<le> 0 then (live1, None)
           else
             let filled = add_i64 (lo_filled_qty live) fill_qty;
                 remaining = sub_i64 (lo_remaining_qty live) fill_qty;
                 status = (if remaining = 0 then Filled else PartiallyFilled);
                 live2 = live1\<lparr>lo_filled_qty := filled, lo_remaining_qty := remaining,
                           lo_state := status\<rparr>
             in (live2, Some (report_of live2 status fill_qty (tk_price trade) filled remaining None)))"

definition trade_orders :: "'st queue_model \<Rightarrow> tick \<Rightarrow> (i64 \<times> side) \<Rightarrow>
    (u64, 'st live_order) btree \<Rightarrow> (u64, 'st live_order) btree" where
  "trade_orders qm trade key orders =
     bt_map_values
       (\<lambda>live. if bucket_key (lo_order live) = key then fst (trade_live qm trade live) else live) orders"

definition trade_reports :: "'st queue_model \<Rightarrow> tick \<Rightarrow> (u64, 'st live_order) btree \<Rightarrow> u64 \<Rightarrow> order_report list" where
  "trade_reports qm trade orders order_id =
     (case bt_get orders order_id of
        None \<Rightarrow> []
      | Some live \<Rightarrow> report_list (snd (trade_live qm trade live)))"

lemma bt_insert_get: "bt_wf t \<Longrightarrow> bt_get t k = Some v \<Longrightarrow> bt_insert k v t = t"
  by (induction k v t rule: bt_insert.induct) (force simp: bt_get_def bt_wf_Cons dest: map_of_SomeD)+

lemma trade_step_eq:
  assumes "bt_wf orders"
  shows "trade_step qm trade i (orders, reports) =
    ((case bt_get orders i of
        None \<Rightarrow> orders
      | Some live \<Rightarrow> bt_insert i (fst (trade_live qm trade live)) orders),
     reports @ trade_reports qm trade orders i)"
  using assms
  by (auto simp: trade_step_def trade_live_def trade_reports_def report_list_def Let_def
      bt_insert_get split: option.split prod.split)

lemma trade_fold:
  assumes "distinct ids" and "bt_wf orders"
  shows "let (orders', reports') = fold (trade_step qm trade) ids (orders, reports) in
    bt_wf orders' \<and>
    (\<forall>i. bt_get orders' i =
       (if i \<in> set ids then map_option (\<lambda>live. fst (trade_live qm trade live)) (bt_get orders i)
        else bt_get orders i)) \<and>
    reports' = reports @ concat (map (trade_reports qm trade orders) ids)"
  using assms
proof (induction ids arbitrary: orders reports)
  case (Cons i ids)
  define orders1 where "orders1 = (case bt_get orders i of
        None \<Rightarrow> orders
      | Some live \<Rightarrow> bt_insert i (fst (trade_live qm trade live)) orders)"
  have wf1: "bt_wf orders1" using Cons.prems by (auto simp: orders1_def split: option.split)
  have get1: "bt_get orders1 j =
      (if j = i then map_option (\<lambda>live. fst (trade_live qm trade live)) (bt_get orders i)
       else bt_get orders j)" for j
    using Cons.prems by (auto simp: orders1_def split: option.split)
  have same: "map (trade_reports qm trade orders1) ids = map (trade_reports qm trade orders) ids"
    using Cons.prems(1) by (auto simp: trade_reports_def get1)
  have step: "trade_step qm trade i (orders, reports)
      = (orders1, reports @ trade_reports qm trade orders i)"
    using Cons.prems by (simp add: trade_step_eq orders1_def)
  have "distinct ids" using Cons.prems by simp
  from Cons.IH [OF this wf1, of "reports @ trade_reports qm trade orders i"] Cons.prems(1)
  show ?case by (auto simp: step get1 same Let_def split: prod.splits)
qed simp

section \<open>The index\<close>

definition ex_bucket :: "'st exchange \<Rightarrow> (i64 \<times> side) \<Rightarrow> u64 list" where
  "ex_bucket x key = unwrap_or (hm_get (ex_buckets x) key) []"

definition index_inv :: "'st exchange \<Rightarrow> bool" where
  "index_inv x \<longleftrightarrow>
     bt_wf (ex_orders x) \<and> hm_wf (ex_buckets x) \<and>
     (\<forall>key. distinct (ex_bucket x key)) \<and>
     (\<forall>key i. i \<in> set (ex_bucket x key) \<longleftrightarrow>
        (\<exists>live. bt_get (ex_orders x) i = Some live \<and> bucket_key (lo_order live) = key))"

lemma index_inv_distinct: "index_inv x \<Longrightarrow> distinct (ex_bucket x key)"
  unfolding index_inv_def by blast

lemma index_inv_wf: "index_inv x \<Longrightarrow> bt_wf (ex_orders x) \<and> hm_wf (ex_buckets x)"
  unfolding index_inv_def by blast

lemma index_inv_mem: "index_inv x \<Longrightarrow> i \<in> set (ex_bucket x key) \<longleftrightarrow>
    (\<exists>live. bt_get (ex_orders x) i = Some live \<and> bucket_key (lo_order live) = key)"
  unfolding index_inv_def by blast

lemma index_inv_new: "index_inv (exchange_new qm)" "index_inv (exchange_new_l3 qm)"
  by (simp_all add: index_inv_def exchange_new_def exchange_new_l3_def ex_bucket_def unwrap_or_def)

lemma bt_ext: "bt_wf t \<Longrightarrow> bt_wf t' \<Longrightarrow> (\<And>k. bt_get t k = bt_get t' k) \<Longrightarrow> t = t'"
proof (induction t arbitrary: t')
  case Nil
  then show ?case using bt_empty_iff [of t'] by simp
next
  case (Cons e t)
  obtain e' s where t': "t' = e' # s"
  proof (cases t')
    case Nil
    with Cons.prems(3) [of "fst e"] show ?thesis by (simp add: bt_get_def)
  qed (use that in auto)
  have le: "\<And>k v. bt_get t' k = Some v \<Longrightarrow> fst e \<le> k" "\<And>k v. bt_get (e # t) k = Some v \<Longrightarrow> fst e' \<le> k"
    using Cons.prems bt_first_least [of "e # t" "fst e" "snd e"] bt_first_least [of t' "fst e'" "snd e'"]
    by (auto simp: t')
  from le(1) [of "fst e'" "snd e'"] le(2) [of "fst e" "snd e"] have "fst e = fst e'"
    by (simp add: t' bt_get_def)
  with Cons.prems(3) [of "fst e"] have e: "e = e'" by (simp add: t' bt_get_def prod_eq_iff)
  have "bt_get t k = bt_get s k" for k
  proof (cases "k = fst e")
    case True
    with Cons.prems(1,2) have "bt_get t k = None" "bt_get s k = None"
      by (auto simp: t' bt_get_def bt_wf_Cons map_of_eq_None_iff e)
    then show ?thesis by simp
  next
    case False
    with Cons.prems(3) [of k] show ?thesis by (simp add: t' bt_get_def e)
  qed
  with Cons e show ?case by (simp add: t' bt_wf_Cons)
qed

lemma on_trade_lemma:
  assumes "index_inv x" and "maker_side (tk_side trade) = Some maker"
  defines "key \<equiv> (tk_price trade, maker)"
  shows "on_trade trade reports x =
    (reports @ concat (map (trade_reports (ex_queue_model x) trade (ex_orders x)) (ex_bucket x key)),
     x\<lparr>ex_orders := trade_orders (ex_queue_model x) trade key (ex_orders x)\<rparr>)"
proof -
  let ?qm = "ex_queue_model x"
  obtain orders' reports' where f:
    "fold (trade_step ?qm trade) (ex_bucket x key) (ex_orders x, reports) = (orders', reports')"
    by force
  have d: "distinct (ex_bucket x key)" using assms(1) by (rule index_inv_distinct)
  have wf: "bt_wf (ex_orders x)" using index_inv_wf [OF assms(1)] by simp
  from trade_fold [OF d wf, of ?qm trade reports]
  have wf': "bt_wf orders'" and get': "\<And>i. bt_get orders' i =
      (if i \<in> set (ex_bucket x key) then map_option (\<lambda>live. fst (trade_live ?qm trade live)) (bt_get (ex_orders x) i)
        else bt_get (ex_orders x) i)"
    and reports': "reports' = reports @ concat (map (trade_reports ?qm trade (ex_orders x)) (ex_bucket x key))"
    by (auto simp: f Let_def)
  have idx: "i \<in> set (ex_bucket x key) \<longleftrightarrow>
      (\<exists>live. bt_get (ex_orders x) i = Some live \<and> bucket_key (lo_order live) = key)" for i
    using assms(1) by (rule index_inv_mem)
  have "orders' = trade_orders ?qm trade key (ex_orders x)"
  proof (rule bt_ext)
    show "bt_get orders' i = bt_get (trade_orders ?qm trade key (ex_orders x)) i" for i
      by (cases "bt_get (ex_orders x) i") (auto simp: get' idx trade_orders_def)
  qed (use wf wf' in \<open>simp_all add: trade_orders_def\<close>)
  with f reports' show ?thesis
    by (simp add: on_trade_def assms(2) ex_bucket_def key_def Let_def)
qed

text \<open>
  The price-side index is exact: a trade that looks up one bucket changes the live orders
  exactly as a scan of all orders would, touching those that rest at the trade's price on the
  side opposite to the aggressor and no others, and it appends their fill reports in the order
  in which the orders entered that price level.
\<close>

theorem on_trade_index_exact:
  assumes "index_inv x" and "maker_side (tk_side trade) = Some maker"
  shows "on_trade trade reports x =
    (reports @ concat (map (trade_reports (ex_queue_model x) trade (ex_orders x))
        (ex_bucket x (tk_price trade, maker))),
     x\<lparr>ex_orders := trade_orders (ex_queue_model x) trade (tk_price trade, maker) (ex_orders x)\<rparr>)"
  using assms by (rule on_trade_lemma)

theorem on_trade_index_exact_witness:
  "on_trade \<lparr>tk_ts_exchange = 1, tk_ts_local = 2, tk_seq = 0, tk_price = 100, tk_qty = 5,
      tk_symbol_id = 1, tk_side = Sell, tk_flags = 1\<rparr> [] (exchange_new noop_queue)
   = ([], exchange_new noop_queue)"
  by (subst on_trade_index_exact [OF index_inv_new(1)])
    (simp_all add: exchange_new_def ex_bucket_def unwrap_or_def trade_orders_def bt_map_values_def)

section \<open>The invariant of an order\<close>

definition order_inv :: "(order \<Rightarrow> i64 \<Rightarrow> 'st \<Rightarrow> bool) \<Rightarrow> 'st live_order \<Rightarrow> bool" where
  "order_inv ok live \<longleftrightarrow>
     in_i64 (od_qty (lo_order live)) \<and>
     0 \<le> lo_filled_qty live \<and> 0 \<le> lo_remaining_qty live \<and>
     lo_filled_qty live + lo_remaining_qty live = od_qty (lo_order live) \<and>
     (lo_state live \<in> {PendingNew, Open, Rejected} \<longrightarrow> lo_filled_qty live = 0) \<and>
     (lo_state live = PartiallyFilled \<longrightarrow> 0 < lo_filled_qty live \<and> 0 < lo_remaining_qty live) \<and>
     (lo_state live = Filled \<longrightarrow> lo_remaining_qty live = 0) \<and>
     lo_state live \<noteq> Created \<and>
     ok (lo_order live) (lo_remaining_qty live) (lo_queue_state live)"

text \<open>What one report says about the order before and after the step that made it.\<close>

definition fill_report :: "tick \<Rightarrow> 'st live_order \<Rightarrow> 'st live_order \<Rightarrow> order_report \<Rightarrow> bool" where
  "fill_report trade live live' r \<longleftrightarrow>
     eligible (lo_order live) (lo_remaining_qty live) trade \<and>
     0 < rp_last_fill_qty r \<and> rp_last_fill_qty r \<le> tk_qty trade \<and>
     rp_last_fill_price r = tk_price trade \<and>
     rp_order_id r = od_order_id (lo_order live) \<and>
     rp_filled_qty r = lo_filled_qty live' \<and> rp_remaining_qty r = lo_remaining_qty live' \<and>
     rp_status r = lo_state live' \<and>
     lo_filled_qty live' = lo_filled_qty live + rp_last_fill_qty r \<and>
     lo_remaining_qty live' = lo_remaining_qty live - rp_last_fill_qty r"

context queue_laws begin

lemma trade_live_inv:
  assumes inv: "order_inv ok live" and q: "in_i64 (tk_qty trade)"
    and t: "trade_live qm trade live = (live', r)"
  shows "order_inv ok live' \<and> lo_order live' = lo_order live \<and>
    (case r of
       None \<Rightarrow> lo_state live' = lo_state live \<and> lo_filled_qty live' = lo_filled_qty live
     | Some rep \<Rightarrow> fill_report trade live live' rep)"
proof (cases "lo_remaining_qty live \<le> 0 \<or> lo_state live \<notin> fillable_states")
  case True
  with t inv show ?thesis by (auto simp: trade_live_def)
next
  case False
  let ?rem = "lo_remaining_qty live"
  obtain f st' where cf: "qm_check_fill qm (lo_order live) ?rem trade (lo_queue_state live) = (f, st')"
    by force
  from inv have ok: "ok (lo_order live) ?rem (lo_queue_state live)" and range: "in_i64 ?rem" "0 \<le> ?rem"
    by (auto simp: order_inv_def in_i64_def)
  note b = fill_bounds [OF ok range(1) q range(2) cf]
  show ?thesis
  proof (cases "f \<le> 0")
    case True
    with b(1) have "f = 0" by simp
    with False t inv b(3) cf show ?thesis by (auto simp: trade_live_def order_inv_def Let_def)
  next
    case pos: False
    from inv b(1) have exact: "add_i64 (lo_filled_qty live) f = lo_filled_qty live + f"
      "sub_i64 ?rem f = ?rem - f"
      by (auto simp: order_inv_def in_i64_def intro!: add_i64_exact sub_i64_exact)
    let ?status = "if ?rem - f = 0 then Filled else PartiallyFilled"
    have live': "live' = live\<lparr>lo_queue_state := st', lo_filled_qty := lo_filled_qty live + f,
        lo_remaining_qty := ?rem - f, lo_state := ?status\<rparr>"
      and r: "r = Some (report_of live' ?status f (tk_price trade) (lo_filled_qty live + f) (?rem - f) None)"
      using False pos t cf by (auto simp: trade_live_def exact Let_def)
    have "order_inv ok live'"
      using inv b pos by (auto simp: live' order_inv_def)
    with b pos show ?thesis by (simp add: r live' fill_report_def report_of_def)
  qed
qed

end

section \<open>The invariant of the simulator\<close>

definition books_ok :: "'st exchange \<Rightarrow> bool" where
  "books_ok x \<longleftrightarrow> l2_wf (ex_book x) \<and> l2_nonneg (ex_book x) \<and>
     (case ex_book_l3 x of None \<Rightarrow> True | Some b \<Rightarrow> l3_wf b \<and> l3_fits b)"

definition ex_inv :: "'st queue_model \<Rightarrow> (order \<Rightarrow> i64 \<Rightarrow> 'st \<Rightarrow> bool) \<Rightarrow> 'st exchange \<Rightarrow> bool" where
  "ex_inv qm ok x \<longleftrightarrow>
     ex_queue_model x = qm \<and> index_inv x \<and> books_ok x \<and>
     (\<forall>i live. bt_get (ex_orders x) i = Some live \<longrightarrow>
        order_inv ok live \<and> od_order_id (lo_order live) = i)"

lemma ex_invD:
  assumes "ex_inv qm ok x"
  shows "ex_queue_model x = qm" "index_inv x" "books_ok x" "bt_wf (ex_orders x)"
    and "bt_get (ex_orders x) i = Some live \<Longrightarrow> order_inv ok live"
    and "bt_get (ex_orders x) i = Some live \<Longrightarrow> od_order_id (lo_order live) = i"
  using assms index_inv_wf [of x] by (simp_all add: ex_inv_def)

text \<open>
  The moves of one order. \<open>state_step\<close> allows, beyond the transitions of \<open>can_transition_to\<close>,
  the one the trade loop makes for an order whose cancel is in flight.
\<close>

definition state_step :: "order_state \<Rightarrow> order_state \<Rightarrow> bool" where
  "state_step s s' \<longleftrightarrow> s' = s \<or> can_transition_to s s' \<or> (s = PendingCancel \<and> s' = PartiallyFilled)"

definition live_step :: "(order \<Rightarrow> i64 \<Rightarrow> 'st \<Rightarrow> bool) \<Rightarrow> 'st live_order \<Rightarrow> 'st live_order \<Rightarrow> bool" where
  "live_step ok live live' \<longleftrightarrow>
     lo_order live' = lo_order live \<and> order_inv ok live' \<and>
     state_step (lo_state live) (lo_state live') \<and> lo_filled_qty live \<le> lo_filled_qty live'"

definition orders_step :: "(order \<Rightarrow> i64 \<Rightarrow> 'st \<Rightarrow> bool) \<Rightarrow> 'st exchange \<Rightarrow> 'st exchange \<Rightarrow> bool" where
  "orders_step ok x x' \<longleftrightarrow>
     (\<forall>i live live'. bt_get (ex_orders x) i = Some live \<longrightarrow> bt_get (ex_orders x') i = Some live' \<longrightarrow>
        live_step ok live live')"

lemma live_step_refl: "order_inv ok live \<Longrightarrow> live_step ok live live"
  by (simp add: live_step_def state_step_def)

lemma orders_step_same: "ex_inv qm ok x \<Longrightarrow> ex_orders x' = ex_orders x \<Longrightarrow> orders_step ok x x'"
  by (auto simp: orders_step_def intro: live_step_refl ex_invD(5))

lemma ex_inv_frame:
  "ex_inv qm ok x \<Longrightarrow> ex_orders x' = ex_orders x \<Longrightarrow> ex_buckets x' = ex_buckets x \<Longrightarrow>
   ex_queue_model x' = ex_queue_model x \<Longrightarrow> books_ok x' \<Longrightarrow> ex_inv qm ok x'"
  by (simp add: ex_inv_def index_inv_def ex_bucket_def)

lemma put_order_inv:
  assumes inv: "ex_inv qm ok x" and get: "bt_get (ex_orders x) i = Some live"
    and step: "live_step ok live live'"
  shows "ex_inv qm ok (put_order i live' x) \<and> orders_step ok x (put_order i live' x)"
proof -
  have wf: "bt_wf (ex_orders x)" using inv by (rule ex_invD)
  have key: "bucket_key (lo_order live') = bucket_key (lo_order live)" and "order_inv ok live'"
    using step by (simp_all add: live_step_def)
  have "index_inv x" using inv by (rule ex_invD)
  then have "index_inv (put_order i live' x)"
    using get key by (auto simp: index_inv_def put_order_def ex_bucket_def)
  then have "ex_inv qm ok (put_order i live' x)"
    using inv step get by (auto simp: ex_inv_def put_order_def books_ok_def live_step_def wf)
  moreover have "orders_step ok x (put_order i live' x)"
    using get step wf ex_invD(5) [OF inv]
    by (auto simp: orders_step_def put_order_def intro: live_step_refl)
  ultimately show ?thesis ..
qed

lemma map_orders_inv:
  assumes inv: "ex_inv qm ok x"
    and step: "\<And>live. order_inv ok live \<Longrightarrow> live_step ok live (f live)"
  defines "x' \<equiv> x\<lparr>ex_orders := bt_map_values f (ex_orders x)\<rparr>"
  shows "ex_inv qm ok x' \<and> orders_step ok x x'"
proof -
  have key: "order_inv ok live \<Longrightarrow> lo_order (f live) = lo_order live" for live
    using step [of live] by (simp add: live_step_def)
  have "index_inv x" using inv by (rule ex_invD)
  then have "index_inv x'"
    using ex_invD(5) [OF inv] key by (auto simp: index_inv_def ex_bucket_def x'_def)
  then have "ex_inv qm ok x'"
    using inv step by (auto simp: ex_inv_def x'_def books_ok_def live_step_def)
  moreover have "orders_step ok x x'"
    using ex_invD(5) [OF inv] step by (auto simp: orders_step_def x'_def)
  ultimately show ?thesis ..
qed

lemma exchange_depth_ok: "books_ok x \<Longrightarrow> depth_ok (exchange_depth x)"
  by (auto simp: books_ok_def exchange_depth_def intro: l2_view.view_depth_ok l3_view.view_depth_ok
      split: option.splits)

lemma l3_best_positive:
  assumes "l3_wf b" and "l3_fits b"
  shows "l3_best_bid b = Some (p, q) \<Longrightarrow> 0 < q" and "l3_best_ask b = Some (p, q) \<Longrightarrow> 0 < q"
proof -
  have pos: "0 < queue_qty queue" if "queue_ok queue" "queue_fits queue" for queue
    using that by (simp add: queue_ok_def queue_qty_exact qtys_positive_sum_pos)
  show "0 < q" if best: "l3_best_bid b = Some (p, q)"
  proof -
    from best obtain queue where "bt_last (l3b_bids b) = Some (p, queue)" "q = queue_qty queue"
      by (auto simp: l3_best_bid_def)
    with assms bt_last_greatest [of "l3b_bids b" p queue] have "bt_get (l3b_bids b) p = Some queue"
      by (simp add: l3_wf_def)
    with assms have "queue_ok queue" "queue_fits queue"
      by (auto simp: l3_wf_def l3_fits_def intro: bt_all_get)
    with \<open>q = queue_qty queue\<close> show ?thesis by (simp add: pos)
  qed
  show "0 < q" if best: "l3_best_ask b = Some (p, q)"
  proof -
    from best obtain queue where "bt_first (l3b_asks b) = Some (p, queue)" "q = queue_qty queue"
      by (auto simp: l3_best_ask_def)
    with assms bt_first_least [of "l3b_asks b" p queue] have "bt_get (l3b_asks b) p = Some queue"
      by (simp add: l3_wf_def)
    with assms have "queue_ok queue" "queue_fits queue"
      by (auto simp: l3_wf_def l3_fits_def intro: bt_all_get)
    with \<open>q = queue_qty queue\<close> show ?thesis by (simp add: pos)
  qed
qed

lemma l2_best_positive:
  assumes "l2_wf b" and "l2_nonneg b"
  shows "l2_best_bid b = Some (p, q) \<Longrightarrow> 0 < q" and "l2_best_ask b = Some (p, q) \<Longrightarrow> 0 < q"
  using l2_best_bid_spec [OF assms(1), of p q] l2_best_ask_spec [OF assms(1), of p q]
    l2_level_range [OF assms(2), of Buy p] l2_level_range [OF assms(2), of Sell p]
  by auto

lemma best_opposite_positive: "books_ok x \<Longrightarrow> best_opposite x s = Some (p, q) \<Longrightarrow> 0 < q"
  by (cases s; cases "ex_book_l3 x")
    (auto simp: books_ok_def best_opposite_def or_else_def dest: l2_best_positive l3_best_positive
      split: option.splits)

end
