(* ===== verification/ExchangeOps.thy ===== *)
theory ExchangeOps
  imports ExchangeInv QueueFills
begin

text \<open>
  The operations of the exchange simulator as steps: \<open>exchange_op\<close> names the calls the engine
  makes, \<open>op_ok\<close> the conditions under which it makes them (the \<open>debug_assert\<close>s of the code, a
  fresh order identifier, feed quantities that are not negative), and \<open>ex_reach\<close> the states
  reachable from a new simulator. The theorems hold for every queue model that satisfies
  \<open>queue_laws\<close>.
\<close>

section \<open>Steps of the venue\<close>

datatype exchange_op =
    L2Op l2_update
  | L3Op l3_update
  | SubmitOp order
  | AckNewOp u64
  | CancelOp u64
  | AckCancelOp u64
  | MarketOp u64 "i64 option"
  | ForceCancelOp u64
  | RemoveOp u64
  | TradeOp tick

fun exchange_step :: "exchange_op \<Rightarrow> 'st exchange \<Rightarrow> 'st exchange" where
  "exchange_step (L2Op u) x = apply_l2_update u x"
| "exchange_step (L3Op u) x = snd (apply_l3_update u x)"
| "exchange_step (SubmitOp ord) x = snd (submit_order ord x)"
| "exchange_step (AckNewOp i) x = snd (ack_new i x)"
| "exchange_step (CancelOp i) x = snd (cancel_order i x)"
| "exchange_step (AckCancelOp i) x = snd (ack_cancel i x)"
| "exchange_step (MarketOp i p) x = snd (fill_market_immediately i p x)"
| "exchange_step (ForceCancelOp i) x = snd (force_cancel_partial_fill i x)"
| "exchange_step (RemoveOp i) x = remove_order i x"
| "exchange_step (TradeOp t) x = snd (on_trade t [] x)"

definition l3_fits_after :: "l3_update \<Rightarrow> 'st exchange \<Rightarrow> bool" where
  "l3_fits_after u x \<longleftrightarrow>
     (case ex_book_l3 x of
        None \<Rightarrow> True
      | Some b \<Rightarrow> (case apply_l3 b u of Inl _ \<Rightarrow> True | Inr b' \<Rightarrow> l3_fits b'))"

fun op_ok :: "exchange_op \<Rightarrow> 'st exchange \<Rightarrow> bool" where
  "op_ok (L2Op u) x \<longleftrightarrow> 0 \<le> l2_qty u \<and> in_i64 (l2_qty u)"
| "op_ok (L3Op u) x \<longleftrightarrow> l3_fits_after u x"
| "op_ok (SubmitOp ord) x \<longleftrightarrow>
     bt_get (ex_orders x) (od_order_id ord) = None \<and> 0 \<le> od_qty ord \<and> in_i64 (od_qty ord)"
| "op_ok (MarketOp i p) x \<longleftrightarrow> get_order_state x i = Some PendingNew"
| "op_ok (ForceCancelOp i) x \<longleftrightarrow> get_order_state x i = Some PartiallyFilled"
| "op_ok (TradeOp t) x \<longleftrightarrow> in_i64 (tk_qty t)"
| "op_ok _ x \<longleftrightarrow> True"

inductive ex_reach :: "'st queue_model \<Rightarrow> 'st exchange \<Rightarrow> bool" for qm where
  new: "ex_reach qm (exchange_new qm)"
| new_l3: "ex_reach qm (exchange_new_l3 qm)"
| step: "ex_reach qm x \<Longrightarrow> op_ok op x \<Longrightarrow> ex_reach qm (exchange_step op x)"

section \<open>Each operation keeps the invariant and moves orders legally\<close>

definition good_step ::
  "'st queue_model \<Rightarrow> (order \<Rightarrow> i64 \<Rightarrow> 'st \<Rightarrow> bool) \<Rightarrow> 'st exchange \<Rightarrow> 'st exchange \<Rightarrow> bool" where
  "good_step qm ok x x' \<longleftrightarrow> ex_inv qm ok x' \<and> orders_step ok x x'"

lemma good_step_same: "ex_inv qm ok x \<Longrightarrow> good_step qm ok x x"
  by (simp add: good_step_def orders_step_same)

lemma put_step:
  "ex_inv qm ok x \<Longrightarrow> bt_get (ex_orders x) i = Some live \<Longrightarrow>
   (order_inv ok live \<Longrightarrow> live_step ok live live') \<Longrightarrow> good_step qm ok x (put_order i live' x)"
  unfolding good_step_def by (intro put_order_inv) (auto intro: ex_invD(5))

lemma ack_new_step: "ex_inv qm ok x \<Longrightarrow> good_step qm ok x (snd (ack_new i x))"
  by (auto simp: ack_new_def Let_def split: option.split
      intro!: good_step_same put_step) (auto simp: live_step_def state_step_def order_inv_def)

lemma cancel_order_step: "ex_inv qm ok x \<Longrightarrow> good_step qm ok x (snd (cancel_order i x))"
  by (auto simp: cancel_order_def Let_def split: option.split
      intro!: good_step_same put_step) (auto simp: live_step_def state_step_def order_inv_def)

lemma ack_cancel_step: "ex_inv qm ok x \<Longrightarrow> good_step qm ok x (snd (ack_cancel i x))"
  by (auto simp: ack_cancel_def Let_def split: option.split order_state.split
      intro!: good_step_same put_step) (auto simp: live_step_def state_step_def order_inv_def)

lemma force_cancel_step:
  "ex_inv qm ok x \<Longrightarrow> get_order_state x i = Some PartiallyFilled \<Longrightarrow>
   good_step qm ok x (snd (force_cancel_partial_fill i x))"
  by (auto simp: force_cancel_partial_fill_def get_order_state_def Let_def split: option.split
      intro!: good_step_same put_step) (auto simp: live_step_def state_step_def order_inv_def)

lemma apply_l2_step:
  assumes "ex_inv qm ok x" and "0 \<le> l2_qty u" and "in_i64 (l2_qty u)"
  shows "good_step qm ok x (apply_l2_update u x)"
proof -
  have "books_ok (apply_l2_update u x)"
    using assms(2,3) ex_invD(3) [OF assms(1)]
    by (simp add: books_ok_def apply_l2_update_def apply_l2_wf apply_l2_nonneg)
  then show ?thesis
    using assms(1)
    by (auto simp: good_step_def apply_l2_update_def intro!: orders_step_same intro: ex_inv_frame)
qed

lemma remove_order_step:
  assumes inv: "ex_inv qm ok x"
  shows "good_step qm ok x (remove_order i x)"
proof (cases "bt_get (ex_orders x) i")
  case None
  with inv show ?thesis by (simp add: remove_order_def good_step_same)
next
  case (Some live)
  let ?key = "bucket_key (lo_order live)"
  let ?x' = "remove_order i x"
  have idx: "index_inv x" and wf: "bt_wf (ex_orders x)" using inv by (rule ex_invD)+
  have "i \<in> set (ex_bucket x ?key)" using idx Some by (auto simp: index_inv_mem)
  then obtain bucket where bucket: "hm_get (ex_buckets x) ?key = Some bucket"
    by (cases "hm_get (ex_buckets x) ?key") (auto simp: ex_bucket_def unwrap_or_def)
  then have x': "?x' = x\<lparr>ex_orders := bt_remove i (ex_orders x),
      ex_buckets := hm_insert ?key (remove1 i bucket) (ex_buckets x)\<rparr>"
    by (simp add: remove_order_def Some Let_def)
  have d: "distinct (ex_bucket x key)" for key using idx by (rule index_inv_distinct)
  have b': "ex_bucket ?x' key = (if key = ?key then remove1 i (ex_bucket x key) else ex_bucket x key)" for key
    using bucket by (simp add: x' ex_bucket_def unwrap_or_def)
  have get': "bt_get (ex_orders ?x') j = (if j = i then None else bt_get (ex_orders x) j)" for j
    by (simp add: x')
  have "index_inv ?x'"
    unfolding index_inv_def
  proof (intro conjI allI)
    show "bt_wf (ex_orders ?x')" "hm_wf (ex_buckets ?x')"
      using index_inv_wf [OF idx] by (simp_all add: x')
    fix key j
    show "distinct (ex_bucket ?x' key)" by (simp add: b' d distinct_remove1)
    show "j \<in> set (ex_bucket ?x' key) \<longleftrightarrow>
        (\<exists>l. bt_get (ex_orders ?x') j = Some l \<and> bucket_key (lo_order l) = key)"
      using d [of ?key] Some
      by (cases "j = i"; cases "key = ?key") (auto simp: b' get' index_inv_mem [OF idx])
  qed
  moreover have "books_ok ?x'" using ex_invD(3) [OF inv] by (simp add: x' books_ok_def)
  moreover have "ex_queue_model ?x' = qm" using inv by (simp add: x' ex_inv_def)
  ultimately have "ex_inv qm ok ?x'" using inv by (simp add: ex_inv_def get')
  moreover have "orders_step ok x ?x'"
    using ex_invD(5) [OF inv] by (auto simp: orders_step_def get' intro: live_step_refl split: if_splits)
  ultimately show ?thesis unfolding good_step_def ..
qed

context queue_laws begin

lemma submit_order_step:
  assumes inv: "ex_inv qm ok x" and fresh: "bt_get (ex_orders x) (od_order_id ord) = None"
    and q: "0 \<le> od_qty ord" "in_i64 (od_qty ord)"
  shows "good_step qm ok x (snd (submit_order ord x))"
proof -
  let ?x' = "snd (submit_order ord x)"
  let ?i = "od_order_id ord"
  define live where "live = \<lparr>lo_order = ord, lo_state = PendingNew, lo_filled_qty = 0,
    lo_remaining_qty = od_qty ord, lo_queue_state = qm_register_order qm ord (exchange_depth x)\<rparr>"
  have idx: "index_inv x" and wf: "bt_wf (ex_orders x)" and qm: "ex_queue_model x = qm"
    and books: "books_ok x" using inv by (rule ex_invD)+
  have x': "?x' = x\<lparr>ex_buckets := hm_insert (bucket_key ord) (ex_bucket x (bucket_key ord) @ [?i]) (ex_buckets x),
      ex_orders := bt_insert ?i live (ex_orders x)\<rparr>"
    by (simp add: submit_order_def Let_def live_def qm ex_bucket_def)
  have live: "order_inv ok live"
    using q register_ok [OF exchange_depth_ok [OF books]] by (simp add: live_def order_inv_def)
  have ord: "lo_order live = ord" by (simp add: live_def)
  have absent: "?i \<notin> set (ex_bucket x key)" for key
    using fresh by (simp add: index_inv_mem [OF idx])
  have b': "ex_bucket ?x' key =
      (if key = bucket_key ord then ex_bucket x key @ [?i] else ex_bucket x key)" for key
    by (simp add: x' ex_bucket_def unwrap_or_def)
  have get': "bt_get (ex_orders ?x') j = (if j = ?i then Some live else bt_get (ex_orders x) j)" for j
    using wf by (simp add: x')
  have "index_inv ?x'"
    unfolding index_inv_def
  proof (intro conjI allI)
    show "bt_wf (ex_orders ?x')" "hm_wf (ex_buckets ?x')"
      using index_inv_wf [OF idx] by (simp_all add: x')
    fix key j
    show "distinct (ex_bucket ?x' key)"
      using absent index_inv_distinct [OF idx] by (simp add: b')
    show "j \<in> set (ex_bucket ?x' key) \<longleftrightarrow>
        (\<exists>l. bt_get (ex_orders ?x') j = Some l \<and> bucket_key (lo_order l) = key)"
      using fresh ord by (auto simp: b' get' index_inv_mem [OF idx])
  qed
  moreover have "books_ok ?x'" using books by (simp add: x' books_ok_def)
  moreover have "ex_queue_model ?x' = qm" using qm by (simp add: x')
  ultimately have "ex_inv qm ok ?x'"
    using inv live ord by (auto simp: ex_inv_def get')
  moreover have "orders_step ok x ?x'"
    using fresh ex_invD(5) [OF inv]
    by (auto simp: orders_step_def get' intro: live_step_refl split: if_splits)
  ultimately show ?thesis unfolding good_step_def ..
qed

lemma on_l3_update_live_step: "order_inv ok live \<Longrightarrow> live_step ok live (on_l3_update_live qm u live)"
  by (auto simp: on_l3_update_live_def live_step_def state_step_def order_inv_def l3_ok)

lemma apply_l3_update_step:
  assumes inv: "ex_inv qm ok x" and fits: "l3_fits_after u x"
  shows "good_step qm ok x (snd (apply_l3_update u x))"
proof -
  define x1 where "x1 = x\<lparr>ex_orders := bt_map_values (on_l3_update_live qm u) (ex_orders x)\<rparr>"
  have x1: "good_step qm ok x x1"
    unfolding x1_def good_step_def using inv on_l3_update_live_step by (rule map_orders_inv)
  have qm: "ex_queue_model x = qm" using inv by (rule ex_invD)
  have books: "books_ok x1" using x1 by (auto simp: good_step_def intro: ex_invD)
  show ?thesis
  proof (cases "\<exists>b b'. ex_book_l3 x = Some b \<and> apply_l3 b u = Inr b'")
    case True
    then obtain b b' where b: "ex_book_l3 x = Some b" "apply_l3 b u = Inr b'" by blast
    then have eq: "snd (apply_l3_update u x) = x1\<lparr>ex_book_l3 := Some b'\<rparr>"
      by (simp add: apply_l3_update_def Let_def x1_def qm)
    have "l3_wf b'" "l3_fits b'"
      using books fits b apply_l3_wf [of b u b'] by (simp_all add: books_ok_def l3_fits_after_def x1_def)
    with books have "books_ok (x1\<lparr>ex_book_l3 := Some b'\<rparr>)" by (simp add: books_ok_def)
    with x1 have "ex_inv qm ok (x1\<lparr>ex_book_l3 := Some b'\<rparr>)"
      by (auto simp: good_step_def intro: ex_inv_frame)
    with x1 show ?thesis by (simp add: eq orders_step_def good_step_def)
  next
    case False
    then have "snd (apply_l3_update u x) = x1"
      by (cases "apply_l3 (the (ex_book_l3 x)) u")
        (auto simp: apply_l3_update_def Let_def x1_def qm split: option.split)
    with x1 show ?thesis by simp
  qed
qed

lemma trade_live_step:
  assumes "order_inv ok live" and "in_i64 (tk_qty t)"
  shows "live_step ok live (fst (trade_live qm t live))"
proof -
  obtain live' r where t: "trade_live qm t live = (live', r)" by force
  from trade_live_inv [OF assms t] have inv: "order_inv ok live'" "lo_order live' = lo_order live"
    and rep: "case r of
       None \<Rightarrow> lo_state live' = lo_state live \<and> lo_filled_qty live' = lo_filled_qty live
     | Some rep \<Rightarrow> fill_report t live live' rep" by auto
  have "lo_filled_qty live \<le> lo_filled_qty live'"
    using rep by (auto simp: fill_report_def split: option.splits)
  moreover have "state_step (lo_state live) (lo_state live')"
    using t by (cases "lo_state live")
      (auto simp: trade_live_def fillable_states_def state_step_def Let_def split: prod.splits if_splits)
  ultimately show ?thesis using inv by (simp add: live_step_def t)
qed

lemma on_trade_step:
  assumes inv: "ex_inv qm ok x" and q: "in_i64 (tk_qty t)"
  shows "good_step qm ok x (snd (on_trade t reports x))"
proof (cases "maker_side (tk_side t)")
  case None
  with inv show ?thesis by (simp add: on_trade_def good_step_same)
next
  case (Some maker)
  have qm: "ex_queue_model x = qm" and idx: "index_inv x" using inv by (rule ex_invD)+
  show ?thesis
    unfolding on_trade_lemma [OF idx Some] snd_conv trade_orders_def qm good_step_def
    by (rule map_orders_inv [OF inv]) (auto intro: trade_live_step live_step_refl q)
qed

lemma fill_market_step:
  assumes inv: "ex_inv qm ok x" and pending: "get_order_state x i = Some PendingNew"
  shows "good_step qm ok x (snd (fill_market_immediately i p x))"
proof -
  from pending obtain live where get: "bt_get (ex_orders x) i = Some live"
    and st: "lo_state live = PendingNew" by (auto simp: get_order_state_def)
  have live: "order_inv ok live" using inv get by (rule ex_invD)
  let ?best = "or_else (best_opposite x (od_side (lo_order live))) (map_option (\<lambda>p. (p, i64_max)) p)"
  show ?thesis
  proof (cases ?best)
    case None
    then have "snd (fill_market_immediately i p x) = put_order i (live\<lparr>lo_state := Rejected\<rparr>) x"
      by (simp add: fill_market_immediately_def get Let_def)
    moreover have "live_step ok live (live\<lparr>lo_state := Rejected\<rparr>)"
      using live st by (auto simp: live_step_def state_step_def order_inv_def)
    ultimately show ?thesis using put_order_inv [OF inv get] by (simp add: good_step_def)
  next
    case (Some e)
    then obtain price avail where e: "?best = Some (price, avail)" by (cases e) auto
    then have avail: "0 < avail"
      using best_opposite_positive [OF ex_invD(3) [OF inv]]
      by (auto simp: or_else_def split: option.splits)
    define f where "f = min (od_qty (lo_order live)) avail"
    from live have qty: "0 \<le> od_qty (lo_order live)" "in_i64 (od_qty (lo_order live))"
      by (auto simp: order_inv_def)
    have f: "0 \<le> f" "f \<le> od_qty (lo_order live)" using qty avail by (simp_all add: f_def)
    have exact: "sub_i64 (od_qty (lo_order live)) f = od_qty (lo_order live) - f"
      using f qty by (auto simp: in_i64_def intro!: sub_i64_exact)
    define live' where "live' = live\<lparr>lo_filled_qty := f, lo_remaining_qty := od_qty (lo_order live) - f,
      lo_state := if od_qty (lo_order live) - f = 0 then Filled else PartiallyFilled\<rparr>"
    have "snd (fill_market_immediately i p x) = put_order i live' x"
      by (simp add: fill_market_immediately_def get e Let_def f_def [symmetric] exact live'_def)
    moreover have "0 < f" if "od_qty (lo_order live) - f \<noteq> 0"
      using that f avail by (auto simp: f_def min_def)
    then have "live_step ok live live'"
      using live st f by (auto simp: live_step_def state_step_def order_inv_def live'_def intro: ok_less)
    ultimately show ?thesis using put_order_inv [OF inv get] by (simp add: good_step_def)
  qed
qed

lemma exchange_step_good:
  "ex_inv qm ok x \<Longrightarrow> op_ok op x \<Longrightarrow> good_step qm ok x (exchange_step op x)"
  by (cases op)
    (simp_all add: apply_l2_step apply_l3_update_step submit_order_step ack_new_step
      cancel_order_step ack_cancel_step fill_market_step force_cancel_step remove_order_step
      on_trade_step)

lemma reach_inv: "ex_reach qm x \<Longrightarrow> ex_inv qm ok x"
proof (induction rule: ex_reach.induct)
  case new
  then show ?case using index_inv_new(1) [of qm]
    by (simp add: ex_inv_def books_ok_def) (simp add: exchange_new_def)
next
  case new_l3
  then show ?case using index_inv_new(2) [of qm]
    by (simp add: ex_inv_def books_ok_def)
      (simp add: exchange_new_l3_def l3_wf_def l3_fits_def l3_new_def)
next
  case (step x op)
  then show ?case using exchange_step_good [of x op] by (simp add: good_step_def)
qed

end

section \<open>Sequences of operations\<close>

fun run_ops :: "exchange_op list \<Rightarrow> 'st exchange \<Rightarrow> 'st exchange" where
  "run_ops [] x = x"
| "run_ops (op # ops) x = run_ops ops (exchange_step op x)"

fun ops_ok :: "exchange_op list \<Rightarrow> 'st exchange \<Rightarrow> bool" where
  "ops_ok [] x \<longleftrightarrow> True"
| "ops_ok (op # ops) x \<longleftrightarrow> op_ok op x \<and> ops_ok ops (exchange_step op x)"

lemma run_ops_reach: "ex_reach qm x \<Longrightarrow> ops_ok ops x \<Longrightarrow> ex_reach qm (run_ops ops x)"
  by (induction ops arbitrary: x) (auto intro: ex_reach.step)

lemmas run_ops_new = run_ops_reach [OF ex_reach.new]

text \<open>Two buy orders of 3 at price 100, both acknowledged.\<close>

definition sample_ops :: "exchange_op list" where
  "sample_ops = [SubmitOp sample_order, AckNewOp 1,
     SubmitOp (sample_order\<lparr>od_order_id := 2\<rparr>), AckNewOp 2]"

definition sample_exchange :: "conservative_state exchange" where
  "sample_exchange = run_ops sample_ops (exchange_new conservative_queue)"

lemma sample_exchange_eq:
  "ex_orders sample_exchange =
     [(1, \<lparr>lo_order = sample_order, lo_state = Open, lo_filled_qty = 0, lo_remaining_qty = 3,
           lo_queue_state = \<lparr>cq_qty_ahead = 0\<rparr>\<rparr>),
      (2, \<lparr>lo_order = sample_order\<lparr>od_order_id := 2\<rparr>, lo_state = Open, lo_filled_qty = 0,
           lo_remaining_qty = 3, lo_queue_state = \<lparr>cq_qty_ahead = 0\<rparr>\<rparr>)]"
  "ex_buckets sample_exchange = [((100, Buy), [1, 2])]"
  by code_simp+

lemma sample_exchange_reach: "ex_reach conservative_queue sample_exchange"
proof -
  have "ops_ok sample_ops (exchange_new conservative_queue)" by code_simp
  then show ?thesis unfolding sample_exchange_def by (rule run_ops_new)
qed

section \<open>Properties\<close>

text \<open>
  C5. Whatever the venue was asked to do, the quantities of every order add up: what is filled
  and what remains are not negative and sum to the order's quantity, an order that is not yet
  acknowledged, open or rejected has no fill, a partially filled one has both a fill and a
  remainder, and a filled one has no remainder. This holds for every queue model that obeys
  the queue laws.
\<close>

theorem exchange_accounting:
  assumes "queue_laws qm ok" and "ex_reach qm x" and "get_order x i = Some ord"
    and "get_order_state x i = Some s" and "get_filled_qty x i = Some f"
    and "get_remaining_qty x i = Some r"
  shows "0 \<le> f \<and> 0 \<le> r \<and> f + r = od_qty ord \<and> od_order_id ord = i \<and>
    (s \<in> {PendingNew, Open, Rejected} \<longrightarrow> f = 0) \<and>
    (s = PartiallyFilled \<longrightarrow> 0 < f \<and> 0 < r) \<and> (s = Filled \<longrightarrow> r = 0)"
proof -
  from assms(3) obtain live where live: "bt_get (ex_orders x) i = Some live" "lo_order live = ord"
    by (auto simp: get_order_def)
  have "ex_inv qm ok x" using assms(1,2) by (rule queue_laws.reach_inv)
  from ex_invD(5,6) [OF this live(1)] assms(4-6) live show ?thesis
    by (auto simp: order_inv_def get_order_state_def get_filled_qty_def get_remaining_qty_def)
qed

theorem exchange_accounting_witness:
  "\<exists>x f r. x = exchange_step (TradeOp (sample_trade 2)) sample_exchange \<and>
     get_order_state x 1 = Some PartiallyFilled \<and> get_filled_qty x 1 = Some f \<and> get_remaining_qty x 1 = Some r \<and>
     f + r = od_qty sample_order \<and> 0 < f \<and> 0 < r"
proof -
  let ?x = "exchange_step (TradeOp (sample_trade 2)) sample_exchange"
  have reach: "ex_reach conservative_queue ?x"
    by (rule ex_reach.step [OF sample_exchange_reach]) (simp add: sample_trade_def in_i64_def)
  have "get_order ?x 1 = Some sample_order" "get_order_state ?x 1 = Some PartiallyFilled"
    "get_filled_qty ?x 1 \<noteq> None \<and> get_remaining_qty ?x 1 \<noteq> None"
    by code_simp+
  then obtain f r where o: "get_order ?x 1 = Some sample_order" "get_order_state ?x 1 = Some PartiallyFilled"
    "get_filled_qty ?x 1 = Some f" "get_remaining_qty ?x 1 = Some r" by auto
  from exchange_accounting [OF conservative.queue_laws_axioms reach o] o show ?thesis by auto
qed

text \<open>
  C13. The index of orders by price and side lists exactly the live orders, each once, under its
  own price and side, after any sequence of venue operations.
\<close>

theorem exchange_index_exact:
  assumes "queue_laws qm ok" and "ex_reach qm x"
  shows "distinct (ex_bucket x (p, s)) \<and>
    (i \<in> set (ex_bucket x (p, s)) \<longleftrightarrow>
       (\<exists>ord. get_order x i = Some ord \<and> od_price ord = p \<and> od_side ord = s))"
proof -
  have "ex_inv qm ok x" using assms by (rule queue_laws.reach_inv)
  then have idx: "index_inv x" by (rule ex_invD)
  show ?thesis
    using index_inv_distinct [OF idx] index_inv_mem [OF idx, of i "(p, s)"]
    by (auto simp: get_order_def bucket_key_def)
qed

theorem exchange_index_exact_witness:
  "distinct (ex_bucket sample_exchange (100, Buy))"
  using exchange_index_exact [OF conservative.queue_laws_axioms sample_exchange_reach] by blast

text \<open>
  C11. Every operation moves every order along the documented state machine, never changes the
  order itself and never takes back a fill. The only move outside \<open>can_transition_to\<close> is the
  partial fill of an order whose cancel is in flight.
\<close>

theorem exchange_transitions:
  assumes "queue_laws qm ok" and "ex_reach qm x" and "op_ok op x"
    and "get_order_state x i = Some s" and "get_order_state (exchange_step op x) i = Some s'"
  shows "(s' = s \<or> can_transition_to s s' \<or> (s = PendingCancel \<and> s' = PartiallyFilled)) \<and>
    get_order (exchange_step op x) i = get_order x i \<and>
    the (get_filled_qty x i) \<le> the (get_filled_qty (exchange_step op x) i)"
proof -
  have "ex_inv qm ok x" using assms(1,2) by (rule queue_laws.reach_inv)
  with assms(1,3) have good: "good_step qm ok x (exchange_step op x)"
    by (blast intro: queue_laws.exchange_step_good)
  from assms(4,5) obtain live live' where live: "bt_get (ex_orders x) i = Some live" "lo_state live = s"
    and live': "bt_get (ex_orders (exchange_step op x)) i = Some live'" "lo_state live' = s'"
    by (auto simp: get_order_state_def)
  with good have "live_step ok live live'" unfolding good_step_def orders_step_def by blast
  with live live' show ?thesis
    by (simp add: live_step_def state_step_def get_order_def get_filled_qty_def)
qed

theorem exchange_transitions_witness:
  "get_order_state (exchange_step (CancelOp 1) sample_exchange) 1 = Some PendingCancel \<and>
   get_order (exchange_step (CancelOp 1) sample_exchange) 1 = get_order sample_exchange 1"
proof -
  have s: "get_order_state sample_exchange 1 = Some Open"
    "get_order_state (exchange_step (CancelOp 1) sample_exchange) 1 = Some PendingCancel"
    by code_simp+
  with exchange_transitions [OF conservative.queue_laws_axioms sample_exchange_reach _ s]
  show ?thesis by simp
qed

lemma trade_report_lemma:
  assumes "queue_laws qm ok" and inv: "ex_inv qm ok x" and q: "in_i64 (tk_qty t)"
    and r: "r \<in> set (fst (on_trade t [] x))"
  shows "\<exists>live live'. bt_get (ex_orders x) (rp_order_id r) = Some live \<and>
    bt_get (ex_orders (snd (on_trade t [] x))) (rp_order_id r) = Some live' \<and>
    trade_live qm t live = (live', Some r) \<and> fill_report t live live' r"
proof -
  have idx: "index_inv x" and qm: "ex_queue_model x = qm" using inv by (rule ex_invD)+
  obtain maker where m: "maker_side (tk_side t) = Some maker"
    using r by (cases "maker_side (tk_side t)") (simp_all add: on_trade_def)
  note eq = on_trade_lemma [OF idx m, of "[]", unfolded qm]
  from r obtain i where i: "i \<in> set (ex_bucket x (tk_price t, maker))"
    and rep: "r \<in> set (trade_reports qm t (ex_orders x) i)" by (auto simp: eq)
  from i obtain live where live: "bt_get (ex_orders x) i = Some live"
    "bucket_key (lo_order live) = (tk_price t, maker)" by (auto simp: index_inv_mem [OF idx])
  with rep obtain live' where t: "trade_live qm t live = (live', Some r)"
    by (cases "trade_live qm t live") (auto simp: trade_reports_def report_list_def split: option.splits)
  have fr: "fill_report t live live' r"
    using queue_laws.trade_live_inv [OF assms(1) ex_invD(5) [OF inv live(1)] q t] by simp
  moreover have "rp_order_id r = i"
    using fr ex_invD(6) [OF inv live(1)] by (simp add: fill_report_def)
  ultimately show ?thesis using live t by (auto simp: eq trade_orders_def)
qed

text \<open>
  C12. Every report of a trade is truthful: it names an order that rests at the trade's price
  on the opposite side in the same symbol, its fill is positive and not above the traded
  quantity, its price is the trade's, the order's filled and remaining quantities moved by
  exactly this fill, and the totals and the status in the report are the order's new ones.
\<close>

theorem trade_reports_truthful:
  assumes "queue_laws qm ok" and "ex_reach qm x" and "in_i64 (tk_qty t)"
    and "on_trade t [] x = (reports, x')" and "r \<in> set reports"
  shows "\<exists>ord. get_order x (rp_order_id r) = Some ord \<and>
    tk_symbol_id t = od_symbol_id ord \<and> tk_price t = od_price ord \<and> is_against (od_side ord) (tk_side t) \<and>
    0 < rp_last_fill_qty r \<and> rp_last_fill_qty r \<le> tk_qty t \<and> rp_last_fill_price r = tk_price t \<and>
    get_filled_qty x' (rp_order_id r) = Some (rp_filled_qty r) \<and>
    get_remaining_qty x' (rp_order_id r) = Some (rp_remaining_qty r) \<and>
    get_order_state x' (rp_order_id r) = Some (rp_status r) \<and>
    get_filled_qty x (rp_order_id r) = Some (rp_filled_qty r - rp_last_fill_qty r) \<and>
    get_remaining_qty x (rp_order_id r) = Some (rp_remaining_qty r + rp_last_fill_qty r)"
proof -
  have "ex_inv qm ok x" using assms(1,2) by (rule queue_laws.reach_inv)
  with assms trade_report_lemma [of qm ok x t r] show ?thesis
    by (auto simp: fill_report_def eligible_def get_order_def get_filled_qty_def
        get_remaining_qty_def get_order_state_def)
qed

theorem trade_reports_truthful_witness:
  "\<exists>r x'. on_trade (sample_trade 2) [] sample_exchange = ([r, r\<lparr>rp_order_id := 2\<rparr>], x') \<and>
     rp_last_fill_qty r = 2 \<and> rp_last_fill_qty r \<le> tk_qty (sample_trade 2)"
proof -
  obtain reports x' where t: "on_trade (sample_trade 2) [] sample_exchange = (reports, x')" by force
  let ?r = "report_of \<lparr>lo_order = sample_order, lo_state = PartiallyFilled, lo_filled_qty = 2,
    lo_remaining_qty = 1, lo_queue_state = \<lparr>cq_qty_ahead = 0\<rparr>\<rparr> PartiallyFilled 2 100 2 1 None"
  have "fst (on_trade (sample_trade 2) [] sample_exchange) = [?r, ?r\<lparr>rp_order_id := 2\<rparr>]" by code_simp
  with t have reports: "reports = [?r, ?r\<lparr>rp_order_id := 2\<rparr>]" by simp
  have "in_i64 (tk_qty (sample_trade 2))" by (simp add: sample_trade_def in_i64_def)
  moreover have "?r \<in> set reports" by (simp add: reports)
  ultimately have "rp_last_fill_qty ?r \<le> tk_qty (sample_trade 2)"
    using trade_reports_truthful [OF conservative.queue_laws_axioms sample_exchange_reach _ t, of ?r]
    by blast
  with t reports show ?thesis by (auto simp: report_of_def)
qed

text \<open>
  What a market order meets, by the levels of the books alone: the depth shown on the other side is that
  of the L3 book as long as that has levels there, of the L2 book otherwise, and the best price of a
  depth is the lowest one for a buyer and the highest one for a seller.
\<close>

fun opposite :: "side \<Rightarrow> side" where
  "opposite Buy = Sell"
| "opposite Sell = Buy"
| "opposite NoSide = NoSide"

definition shown_depth :: "'st exchange \<Rightarrow> side \<Rightarrow> i64 \<Rightarrow> i64" where
  "shown_depth x s =
     (case ex_book_l3 x of
        Some b \<Rightarrow> if \<exists>p. l3_level_qty b s p \<noteq> 0 then l3_level_qty b s else l2_level_qty (ex_book x) s
      | None \<Rightarrow> l2_level_qty (ex_book x) s)"

definition best_price :: "side \<Rightarrow> (i64 \<Rightarrow> i64) \<Rightarrow> i64 \<Rightarrow> bool" where
  "best_price s depth p \<longleftrightarrow>
     depth p \<noteq> 0 \<and> (\<forall>p'. depth p' \<noteq> 0 \<longrightarrow> (if s = Buy then p \<le> p' else p' \<le> p))"

text \<open>A quote of a side: its best price and quantity, or nothing when the side shows nothing.\<close>

definition quotes :: "side \<Rightarrow> (i64 \<Rightarrow> i64) \<Rightarrow> (i64 \<times> i64) option \<Rightarrow> bool" where
  "quotes s depth q \<longleftrightarrow>
     (case q of None \<Rightarrow> \<forall>p. depth p = 0 | Some (p, n) \<Rightarrow> best_price s depth p \<and> n = depth p)"

lemma l2_quotes:
  assumes "l2_wf b"
  shows "quotes Buy (l2_level_qty b Sell) (l2_best_ask b)" and "quotes Sell (l2_level_qty b Buy) (l2_best_bid b)"
  using l2_best_ask_spec [OF assms] l2_best_bid_spec [OF assms]
  by (auto simp: quotes_def best_price_def l2_best_ask_def l2_best_bid_def l2_level_qty_def unwrap_or_def
      bt_get_def split: option.split)

lemma l3_to_l2_wf:
  assumes "l3_wf b" and "l3_fits b"
  shows "l2_wf (l3_to_l2 b)"
proof -
  have pos: "queue_qty q \<noteq> 0" if "queue_ok q" "queue_fits q" for q
    using that qtys_positive_sum_pos [of q] by (simp add: queue_ok_def queue_qty_exact)
  have "bt_all (\<lambda>q. queue_qty q \<noteq> 0) t" if "bt_all queue_ok t" "bt_all queue_fits t" for t :: "(i64, l3_queue) btree"
    using that pos by (simp add: bt_all_def)
  with assms show ?thesis
    by (simp add: l2_wf_def l3_to_l2_def l3_wf_def l3_fits_def bt_all_map_values)
qed

lemma best_opposite_quotes:
  assumes "books_ok x"
  shows "quotes s (shown_depth x (opposite s)) (best_opposite x s)"
proof -
  have l2: "l2_wf (ex_book x)" using assms by (simp add: books_ok_def)
  show ?thesis
  proof (cases "ex_book_l3 x")
    case None
    then show ?thesis
      using l2_quotes [OF l2]
      by (cases s) (simp_all add: best_opposite_def or_else_def shown_depth_def quotes_def l2_level_qty_def)
  next
    case (Some b)
    have "l2_wf (l3_to_l2 b)" using assms Some by (intro l3_to_l2_wf) (simp_all add: books_ok_def)
    moreover have "l2_level_qty (l3_to_l2 b) s' = l3_level_qty b s'" for s' by (rule ext) (rule l3_to_l2_views)
    ultimately have l3: "quotes Buy (l3_level_qty b Sell) (l3_best_ask b)"
      "quotes Sell (l3_level_qty b Buy) (l3_best_bid b)"
      using l2_quotes [of "l3_to_l2 b"] by (simp_all add: l3_to_l2_views)
    have shown: "(\<exists>p. d p \<noteq> 0) \<longleftrightarrow> q \<noteq> None" if "quotes s' d q" for s' d q
      using that by (cases q) (auto simp: quotes_def best_price_def)
    show ?thesis
      using l2_quotes [OF l2] l3 shown [OF l3(1)] shown [OF l3(2)]
      by (cases s; cases "l3_best_ask b"; cases "l3_best_bid b")
        (simp_all add: best_opposite_def or_else_def shown_depth_def Some quotes_def l3_level_qty_def
          l2_level_qty_def side_map_def)
  qed
qed

text \<open>
  C29. A market order that is pending fills at once against the other side of the book: a buyer at the
  lowest ask, a seller at the highest bid, for the smaller of its quantity and the quantity of that
  level, the L3 book before the L2 book. When the other side is empty it fills in full at the fallback
  price, and without one it is rejected without a fill. It ends Filled when nothing is left and
  PartiallyFilled otherwise, and the report repeats the order's new counters.
\<close>

theorem market_fill_spec:
  assumes "queue_laws qm ok" and "ex_reach qm x" and "get_order x i = Some ord"
    and "get_order_state x i = Some PendingNew"
    and "fill_market_immediately i fallback x = (rep, x')"
    and "depth = shown_depth x (opposite (od_side ord))"
  shows "\<exists>r. rep = Some r \<and> rp_order_id r = i \<and>
    get_order_state x' i = Some (rp_status r) \<and>
    get_filled_qty x' i = Some (rp_filled_qty r) \<and> rp_filled_qty r = rp_last_fill_qty r \<and>
    rp_filled_qty r + rp_remaining_qty r = od_qty ord \<and>
    (if \<exists>p. depth p \<noteq> 0
     then best_price (od_side ord) depth (rp_last_fill_price r) \<and>
       rp_last_fill_qty r = min (od_qty ord) (depth (rp_last_fill_price r)) \<and>
       rp_status r = (if rp_remaining_qty r = 0 then Filled else PartiallyFilled)
     else case fallback of
       None \<Rightarrow> rp_status r = Rejected \<and> rp_last_fill_qty r = 0
     | Some price \<Rightarrow>
         rp_last_fill_price r = price \<and> rp_last_fill_qty r = od_qty ord \<and> rp_status r = Filled)"
proof -
  have inv: "ex_inv qm ok x" using assms(1,2) by (rule queue_laws.reach_inv)
  from assms(3) obtain live where live: "bt_get (ex_orders x) i = Some live" "lo_order live = ord"
    by (auto simp: get_order_def)
  from assms(4) live have state: "lo_state live = PendingNew" by (simp add: get_order_state_def)
  have id: "od_order_id ord = i" using ex_invD(6) [OF inv live(1)] live(2) by simp
  have oi: "order_inv ok live" using inv live(1) by (rule ex_invD)
  have wf: "bt_wf (ex_orders x)" using inv by (rule ex_invD)
  from oi live(2) have q: "0 \<le> od_qty ord" "in_i64 (od_qty ord)" by (auto simp: order_inv_def)
  let ?best = "or_else (best_opposite x (od_side ord)) (map_option (\<lambda>p. (p, i64_max)) fallback)"
  have quoted: "quotes (od_side ord) depth (best_opposite x (od_side ord))"
    unfolding assms(6) by (rule best_opposite_quotes [OF ex_invD(3) [OF inv]])
  show ?thesis
  proof (cases ?best)
    case None
    then have "\<forall>p. depth p = 0" "fallback = None"
      using quoted by (auto simp: or_else_def quotes_def split: option.splits)
    with None assms(5) live state oi show ?thesis
      by (auto simp: fill_market_immediately_def Let_def report_of_def id put_order_def wf
          get_order_state_def get_filled_qty_def order_inv_def)
  next
    case (Some e)
    then obtain price avail where e: "?best = Some (price, avail)" by (cases e) auto
    then have "0 < avail"
      using best_opposite_positive [OF ex_invD(3) [OF inv]]
      by (auto simp: or_else_def split: option.splits)
    with q have "in_i64 (od_qty ord - min (od_qty ord) avail)" by (auto simp: in_i64_def min_def)
    then have exact: "sub_i64 (od_qty ord) (min (od_qty ord) avail) = od_qty ord - min (od_qty ord) avail"
      by (rule sub_i64_exact)
    have zero: "od_qty ord - min (od_qty ord) avail = 0 \<longleftrightarrow> od_qty ord \<le> avail" by auto
    from assms(5) live e have "rep = Some (report_of live (if od_qty ord \<le> avail then Filled else PartiallyFilled)
        (min (od_qty ord) avail) price (min (od_qty ord) avail) (od_qty ord - min (od_qty ord) avail) None)"
      and "x' = put_order i (live\<lparr>lo_filled_qty := min (od_qty ord) avail,
        lo_remaining_qty := od_qty ord - min (od_qty ord) avail,
        lo_state := if od_qty ord \<le> avail then Filled else PartiallyFilled\<rparr>) x"
      by (simp_all only: fill_market_immediately_def Let_def option.case prod.case exact zero
          report_of_def prod.inject live_order.simps)
        auto
    moreover have "if \<exists>p. depth p \<noteq> 0 then best_price (od_side ord) depth price \<and> avail = depth price
        else fallback = Some price \<and> avail = i64_max"
      using quoted e by (auto simp: or_else_def quotes_def best_price_def split: option.splits)
    ultimately show ?thesis
      using id live(2) wf q zero
      by (auto simp: report_of_def put_order_def get_order_state_def get_filled_qty_def in_i64_def min_def)
  qed
qed

definition sample_market_ops :: "exchange_op list" where
  "sample_market_ops =
     [L2Op \<lparr>l2_ts_exchange = 0, l2_seq = 0, l2_price = 107, l2_qty = 9, l2_symbol_id = 1, l2_side = Sell\<rparr>,
      L2Op \<lparr>l2_ts_exchange = 0, l2_seq = 1, l2_price = 105, l2_qty = 2, l2_symbol_id = 1, l2_side = Sell\<rparr>,
      SubmitOp (sample_order\<lparr>od_order_type := Market\<rparr>)]"

theorem market_fill_spec_witness:
  "\<exists>r x'. fill_market_immediately 1 None (run_ops sample_market_ops (exchange_new conservative_queue))
      = (Some r, x') \<and> rp_last_fill_price r = 105 \<and> rp_last_fill_qty r = 2"
proof -
  let ?x = "run_ops sample_market_ops (exchange_new conservative_queue)"
  let ?o = "sample_order\<lparr>od_order_type := Market\<rparr>"
  have "ops_ok sample_market_ops (exchange_new conservative_queue)" by code_simp
  then have reach: "ex_reach conservative_queue ?x" by (rule run_ops_new)
  obtain rep x' where fill: "fill_market_immediately 1 None ?x = (rep, x')" by force
  have o: "get_order ?x 1 = Some ?o" "get_order_state ?x 1 = Some PendingNew"
    "ex_book_l3 ?x = None" "l2b_asks (ex_book ?x) = [(105, 2), (107, 9)]" "od_side ?o = Buy" "od_qty ?o = 3"
    by code_simp+
  have depth: "shown_depth ?x (opposite Buy) = (\<lambda>p. if p = 105 then 2 else if p = 107 then 9 else 0)"
    by (auto simp: shown_depth_def o l2_level_qty_def bt_get_def unwrap_or_def)
  let ?d = "\<lambda>p. if p = 105 then 2 else if p = 107 then 9 else 0 :: i64"
  have best: "best_price Buy ?d p \<longleftrightarrow> p = 105" for p
  proof
    assume "best_price Buy ?d p"
    then have "p \<le> 105" "p = 105 \<or> p = 107" by (auto simp: best_price_def split: if_splits)
    then show "p = 105" by auto
  qed (simp add: best_price_def)
  have some: "\<exists>p. ?d p \<noteq> 0" by (rule exI [where x = 105]) simp
  note spec = market_fill_spec [OF conservative.queue_laws_axioms reach o(1,2) fill refl,
      unfolded o(5,6) depth, unfolded if_P [OF some]]
  then obtain r where "rep = Some r" and "best_price Buy ?d (rp_last_fill_price r)"
    and "rp_last_fill_qty r = min 3 (?d (rp_last_fill_price r))"
    by (elim exE conjE) (rule that)
  with fill best show ?thesis by auto
qed

text \<open>
  Nothing checks the sign of a quantity: a market order for a negative quantity is filled at once, with a
  negative fill, which the engine then does not book because it only books positive ones.
\<close>

lemma negative_market_order:
  assumes "bt_get (ex_orders x) i = Some live" and "od_qty (lo_order live) < 0"
    and "best_opposite x (od_side (lo_order live)) = Some (price, available)" and "0 \<le> available"
  shows "\<exists>r. fst (fill_market_immediately i fallback x) = Some r \<and> rp_status r = Filled \<and>
    rp_last_fill_qty r = od_qty (lo_order live)"
  using assms by (simp add: fill_market_immediately_def or_else_def report_of_def sub_i64_def wrap_i64_def Let_def min_def)

text \<open>
  A cancel in flight is lost when the order fills partially before the cancel arrives: the
  trade puts the order back to PartiallyFilled, and the acknowledgement of the cancel then fails
  and leaves the order live.
\<close>

theorem partial_fill_loses_cancel:
  assumes "queue_laws qm ok" and "ex_reach qm x" and "in_i64 (tk_qty t)"
    and "get_order_state x i = Some PendingCancel"
    and "on_trade t [] x = (reports, x')" and "r \<in> set reports" and "rp_order_id r = i"
    and "0 < rp_remaining_qty r"
  shows "get_order_state x' i = Some PartiallyFilled \<and>
    ack_cancel i x' = (Inl ''order is not PendingCancel'', x')"
proof -
  have inv: "ex_inv qm ok x" using assms(1,2) by (rule queue_laws.reach_inv)
  from trade_report_lemma [OF assms(1) inv assms(3), of r] assms(5-7)
  obtain live live' where live': "bt_get (ex_orders x') i = Some live'" "trade_live qm t live = (live', Some r)"
    and fr: "fill_report t live live' r" by auto
  from fr assms(8) have "0 < lo_remaining_qty live'" "lo_filled_qty live' \<noteq> lo_filled_qty live"
    by (auto simp: fill_report_def)
  with live'(2) have "lo_state live' = PartiallyFilled"
    by (auto simp: trade_live_def Let_def split: prod.splits if_splits)
  with live'(1) show ?thesis by (simp add: get_order_state_def ack_cancel_def)
qed

theorem partial_fill_loses_cancel_witness:
  "\<exists>reports x'. on_trade (sample_trade 2) [] (exchange_step (CancelOp 1) sample_exchange) = (reports, x') \<and>
     get_order_state x' 1 = Some PartiallyFilled \<and>
     ack_cancel 1 x' = (Inl ''order is not PendingCancel'', x')"
proof -
  let ?x = "exchange_step (CancelOp 1) sample_exchange"
  have reach: "ex_reach conservative_queue ?x"
    by (rule ex_reach.step [OF sample_exchange_reach]) simp
  obtain reports x' where t: "on_trade (sample_trade 2) [] ?x = (reports, x')" by force
  have s: "get_order_state ?x 1 = Some PendingCancel" by code_simp
  have "fst (on_trade (sample_trade 2) [] ?x) \<noteq> [] \<and> rp_order_id (hd (fst (on_trade (sample_trade 2) [] ?x))) = 1
      \<and> 0 < rp_remaining_qty (hd (fst (on_trade (sample_trade 2) [] ?x)))" by code_simp
  with t have r: "hd reports \<in> set reports" "rp_order_id (hd reports) = 1" "0 < rp_remaining_qty (hd reports)"
    by simp_all
  have "in_i64 (tk_qty (sample_trade 2))" by (simp add: sample_trade_def in_i64_def)
  from partial_fill_loses_cancel [OF conservative.queue_laws_axioms reach this s t r] t
  show ?thesis by blast
qed

text \<open>
  The volume of one trade is offered to every order of the user at that price in full: with
  two buy orders of 3 resting at 100 and nothing ahead, a trade of 2 fills 2 of each, 4 in
  total.
\<close>

theorem trade_volume_reused:
  "\<exists>x. ex_reach conservative_queue x \<and>
     tk_qty (sample_trade 2) = 2 \<and>
     sum_list (map rp_last_fill_qty (fst (on_trade (sample_trade 2) [] x))) = 4"
proof (intro exI conjI)
  show "ex_reach conservative_queue sample_exchange" by (rule sample_exchange_reach)
  show "sum_list (map rp_last_fill_qty (fst (on_trade (sample_trade 2) [] sample_exchange))) = 4"
    by code_simp
qed (simp add: sample_trade_def)

text \<open>
  When both sides of the book quote and the quotes do not cross, the mark price lies
  between the best bid and the best ask.
\<close>

theorem mark_price_between:
  assumes "ex_book_l3 x = None" and "l2_best_bid (ex_book x) = Some (bid, bq)"
    and "l2_best_ask (ex_book x) = Some (ask, aq)" and "bid \<le> ask"
    and "in_i64 (bid + ask)"
  shows "\<exists>m. mark_price x = Some m \<and> bid \<le> m \<and> m \<le> ask"
proof -
  have "mark_price x = Some ((bid + ask) sdiv 2)"
    using assms by (simp add: mark_price_def saturating_add_exact)
  moreover have "bid \<le> (bid + ask) sdiv 2" "(bid + ask) sdiv 2 \<le> ask"
    using assms(4) by (auto intro: sdiv_ge_lower sdiv_le_upper)
  ultimately show ?thesis by blast
qed

theorem mark_price_between_witness:
  "\<exists>m. mark_price (exchange_new conservative_queue
      \<lparr>ex_book := \<lparr>l2b_bids = [(100, 1)], l2b_asks = [(103, 1)]\<rparr>\<rparr>) = Some m \<and> 100 \<le> m \<and> m \<le> 103"
  by (rule mark_price_between)
    (simp_all add: exchange_new_def l2_best_bid_def l2_best_ask_def bt_last_def in_i64_def)

end
