(* ===== verification/Account.thy ===== *)
theory Account
  imports BTree Types
begin

text \<open>
  \<open>account.rs\<close>: positions per symbol with average-cost accounting, and funding payments.
  \<open>position_fill\<close> is the body of \<open>Account::on_fill\<close> after the lookup of the position;
  \<open>on_fill\<close> and \<open>apply_funding\<close> are the methods, which return the PnL they realise and the
  account. The lemmas give the quantity after a fill in every branch, bounds of the average
  price, the PnL of a round trip and the symmetry of funding.
\<close>

record position =
  po_qty :: i64
  po_avg_price :: i64
  po_last_open_ts :: ts_exchange_ns
  po_funding_pnl :: i64

definition position_default :: position where
  "position_default = \<lparr>po_qty = 0, po_avg_price = 0, po_last_open_ts = 0, po_funding_pnl = 0\<rparr>"

record account =
  ac_positions :: "(u32, position) btree"
  ac_total_funding_pnl :: i64

definition account_new :: account where
  "account_new = \<lparr>ac_positions = [], ac_total_funding_pnl = 0\<rparr>"

definition clamp_i128_to_i64 :: "i128 \<Rightarrow> i64" where
  "clamp_i128_to_i64 v = clamp_i64 v"

definition acc_position :: "account \<Rightarrow> u32 \<Rightarrow> position option" where
  "acc_position a symbol_id = bt_get (ac_positions a) symbol_id"

definition position_qty :: "account \<Rightarrow> u32 \<Rightarrow> i64" where
  "position_qty a symbol_id = (case bt_get (ac_positions a) symbol_id of None \<Rightarrow> 0 | Some p \<Rightarrow> po_qty p)"

definition total_funding_pnl :: "account \<Rightarrow> i64" where
  "total_funding_pnl a = ac_total_funding_pnl a"

section \<open>Fills\<close>

text \<open>The match on the order's side at the start of \<open>on_fill\<close>.\<close>

definition signed_qty :: "side \<Rightarrow> i64 \<Rightarrow> i64" where
  "signed_qty s qty = (case s of Buy \<Rightarrow> qty | Sell \<Rightarrow> neg_i64 qty | NoSide \<Rightarrow> 0)"

definition weighted_price :: "i64 \<Rightarrow> i64 \<Rightarrow> i64 \<Rightarrow> i64 \<Rightarrow> i64" where
  "weighted_price qty avg_price delta_qty fill_price =
     (let abs_old = abs_i64 qty;
          abs_delta = abs_i64 delta_qty;
          new_abs = add_i128 abs_old abs_delta
      in if new_abs > 0 then
           clamp_i128_to_i64
             (add_i128 (mul_i128 avg_price abs_old) (mul_i128 fill_price abs_delta) sdiv new_abs)
         else 0)"

definition realized_pnl :: "i64 \<Rightarrow> i64 \<Rightarrow> i64 \<Rightarrow> i64 \<Rightarrow> i64" where
  "realized_pnl qty avg_price delta_qty fill_price =
     (let abs_old = abs_i64 qty;
          abs_delta = abs_i64 delta_qty;
          close_abs = min abs_old abs_delta;
          pnl_per_unit = (if qty > 0 then sub_i64 fill_price avg_price else sub_i64 avg_price fill_price)
      in clamp_i128_to_i64 (saturating_mul_i128 pnl_per_unit close_abs sdiv SCALE))"

definition position_fill :: "ts_local_ns \<Rightarrow> i64 \<Rightarrow> i64 \<Rightarrow> position \<Rightarrow> i64 \<times> position" where
  "position_fill ts_submit delta_qty fill_price p =
     (if po_qty p = 0 \<or> sgn (po_qty p) = sgn delta_qty then
        let p1 = (if po_qty p = 0 then p\<lparr>po_last_open_ts := ts_submit\<rparr> else p);
            new_qty = saturating_add (po_qty p1) delta_qty
        in (0, p1\<lparr>po_avg_price := weighted_price (po_qty p1) (po_avg_price p1) delta_qty fill_price,
                po_qty := new_qty\<rparr>)
      else
        let pnl_delta = realized_pnl (po_qty p) (po_avg_price p) delta_qty fill_price;
            new_qty = saturating_add (po_qty p) delta_qty
        in (pnl_delta,
            if new_qty = 0 then p\<lparr>po_qty := 0, po_avg_price := 0\<rparr>
            else if sgn new_qty = sgn (po_qty p) then p\<lparr>po_qty := new_qty\<rparr>
            else p\<lparr>po_qty := new_qty, po_avg_price := fill_price, po_last_open_ts := ts_submit\<rparr>))"

text \<open>\<open>positions.entry(symbol_id).or_default()\<close>.\<close>

definition acc_entry :: "account \<Rightarrow> u32 \<Rightarrow> position" where
  "acc_entry a symbol_id =
     (case bt_get (ac_positions a) symbol_id of None \<Rightarrow> position_default | Some p \<Rightarrow> p)"

definition on_fill :: "order \<Rightarrow> i64 \<Rightarrow> i64 \<Rightarrow> account \<Rightarrow> i64 \<times> account" where
  "on_fill ord fill_qty fill_price a =
     (let delta_qty = signed_qty (od_side ord) fill_qty
      in if delta_qty = 0 then (0, a)
         else
           let p = acc_entry a (od_symbol_id ord);
               (pnl_delta, p') = position_fill (od_ts_submit ord) delta_qty fill_price p
           in (pnl_delta, a\<lparr>ac_positions := bt_insert (od_symbol_id ord) p' (ac_positions a)\<rparr>))"

section \<open>Funding\<close>

definition funding_pnl :: "i64 \<Rightarrow> i64 \<Rightarrow> i64 \<Rightarrow> i64" where
  "funding_pnl qty mark_price rate =
     (let notional = saturating_mul_i128 qty mark_price sdiv SCALE;
          payment = saturating_mul_i128 notional rate sdiv SCALE;
          pnl = wrap_i128 (- payment)
      in clamp_i64 pnl)"

definition apply_funding :: "funding_event \<Rightarrow> i64 \<Rightarrow> account \<Rightarrow> i64 \<times> account" where
  "apply_funding ev mark_price a =
     (case bt_get (ac_positions a) (fu_symbol_id ev) of
        None \<Rightarrow> (0, a)
      | Some p \<Rightarrow>
          if po_qty p = 0 \<or> fu_rate ev = 0 \<or> mark_price = 0 then (0, a)
          else
            let pnl = funding_pnl (po_qty p) mark_price (fu_rate ev);
                p' = p\<lparr>po_funding_pnl := saturating_add (po_funding_pnl p) pnl\<rparr>
            in (pnl,
                a\<lparr>ac_positions := bt_insert (fu_symbol_id ev) p' (ac_positions a),
                  ac_total_funding_pnl := saturating_add (ac_total_funding_pnl a) pnl\<rparr>))"

section \<open>Well-formed accounts\<close>

text \<open>
  \<open>pos_ok\<close>: the fields are 64-bit values and the quantity is not the least one, whose absolute
  value does not fit.
\<close>

definition pos_ok :: "position \<Rightarrow> bool" where
  "pos_ok p \<longleftrightarrow> in_i64 (po_qty p) \<and> po_qty p \<noteq> i64_min \<and> in_i64 (po_avg_price p)"

definition acc_wf :: "account \<Rightarrow> bool" where
  "acc_wf a \<longleftrightarrow> bt_wf (ac_positions a) \<and> bt_all pos_ok (ac_positions a)"

lemma acc_wf_new: "acc_wf account_new"
  by (simp add: acc_wf_def account_new_def)

lemma pos_ok_default: "pos_ok position_default"
  by (simp add: pos_ok_def position_default_def)

lemma position_fill_qty:
  "po_qty (snd (position_fill ts d price p)) = saturating_add (po_qty p) d"
  by (simp add: position_fill_def Let_def)

lemma in_i64_weighted [simp]: "in_i64 (weighted_price q a d f)"
  by (simp add: weighted_price_def clamp_i128_to_i64_def Let_def)

lemma in_i64_realized [simp]: "in_i64 (realized_pnl q a d f)"
  by (simp add: realized_pnl_def clamp_i128_to_i64_def Let_def)

lemma position_fill_ok:
  assumes "pos_ok p" and "in_i64 price" and "saturating_add (po_qty p) d \<noteq> i64_min"
  shows "pos_ok (snd (position_fill ts d price p))"
  using assms by (auto simp: pos_ok_def position_fill_def Let_def)

lemma position_fill_pnl_range: "in_i64 (fst (position_fill ts d price p))"
  by (simp add: position_fill_def Let_def)

lemma on_fill_eq:
  "signed_qty (od_side ord) q \<noteq> 0 \<Longrightarrow>
   on_fill ord q price a =
     (let r = position_fill (od_ts_submit ord) (signed_qty (od_side ord) q) price (acc_entry a (od_symbol_id ord))
      in (fst r, a\<lparr>ac_positions := bt_insert (od_symbol_id ord) (snd r) (ac_positions a)\<rparr>))"
  by (simp add: on_fill_def Let_def case_prod_beta)

lemma on_fill_zero: "signed_qty (od_side ord) q = 0 \<Longrightarrow> on_fill ord q price a = (0, a)"
  by (simp add: on_fill_def)

lemma acc_entry_ok: "acc_wf a \<Longrightarrow> pos_ok (acc_entry a s)"
  by (auto simp: acc_wf_def acc_entry_def pos_ok_default split: option.split dest: bt_all_get)

lemma acc_entry_qty: "po_qty (acc_entry a s) = position_qty a s"
  by (simp add: position_qty_def acc_entry_def position_default_def split: option.split)

lemma acc_wf_qty: "acc_wf a \<Longrightarrow> in_i64 (position_qty a s) \<and> position_qty a s \<noteq> i64_min"
  using acc_entry_ok [of a s] by (simp add: pos_ok_def acc_entry_qty)

lemma acc_entry_insert:
  "bt_wf (ac_positions a) \<Longrightarrow>
   acc_entry (a\<lparr>ac_positions := bt_insert s p (ac_positions a)\<rparr>) s' = (if s' = s then p else acc_entry a s')"
  by (simp add: acc_entry_def)

lemma position_qty_insert:
  "bt_wf (ac_positions a) \<Longrightarrow>
   position_qty (a\<lparr>ac_positions := bt_insert s p (ac_positions a)\<rparr>) s' =
     (if s' = s then po_qty p else position_qty a s')"
  by (simp add: position_qty_def)

lemma on_fill_wf:
  assumes "acc_wf a" and "in_i64 price"
    and "saturating_add (position_qty a (od_symbol_id ord)) (signed_qty (od_side ord) q) \<noteq> i64_min"
  shows "acc_wf (snd (on_fill ord q price a))"
proof (cases "signed_qty (od_side ord) q = 0")
  case False
  have "pos_ok (snd (position_fill (od_ts_submit ord) (signed_qty (od_side ord) q) price
      (acc_entry a (od_symbol_id ord))))"
    using assms by (intro position_fill_ok acc_entry_ok) (simp_all add: acc_entry_qty)
  with assms(1) False show ?thesis
    by (simp add: on_fill_eq Let_def acc_wf_def bt_all_insert)
qed (simp add: on_fill_zero assms(1))

lemma on_fill_qty_lemma:
  assumes "bt_wf (ac_positions a)" and "in_i64 (position_qty a s)"
  shows "position_qty (snd (on_fill ord q price a)) s =
    (if s = od_symbol_id ord then saturating_add (position_qty a s) (signed_qty (od_side ord) q)
     else position_qty a s)"
  using assms
  by (cases "signed_qty (od_side ord) q = 0")
    (auto simp: on_fill_zero on_fill_eq Let_def position_qty_insert position_fill_qty acc_entry_qty
      saturating_add_exact)

lemma acc_total_fill [simp]:
  "ac_total_funding_pnl (snd (on_fill ord q price a)) = ac_total_funding_pnl a"
  by (cases "signed_qty (od_side ord) q = 0") (simp_all add: on_fill_zero on_fill_eq Let_def)

lemma apply_funding_wf: "acc_wf a \<Longrightarrow> acc_wf (snd (apply_funding ev mark a))"
  by (auto simp: apply_funding_def acc_wf_def Let_def pos_ok_def split: option.split
      dest: bt_all_get intro!: bt_all_insert)

section \<open>Exact values\<close>

text \<open>
  In the range where no 64-bit step overflows, the machine arithmetic is the arithmetic of the
  specification: a weighted mean truncated towards zero, and price difference times closed
  quantity divided by the scale.
\<close>

lemma add_i128_abs:
  assumes "in_i64 a" and "in_i64 b"
  shows "add_i128 \<bar>a\<bar> \<bar>b\<bar> = \<bar>a\<bar> + \<bar>b\<bar>"
proof -
  have "in_i128 (\<bar>a\<bar> + \<bar>b\<bar>)"
    using in_i64_abs_le [OF assms(1)] in_i64_abs_le [OF assms(2)] by (simp add: in_i128_def)
  then show ?thesis by (simp add: add_i128_def)
qed

lemma mult_abs_in_i64_le:
  assumes "in_i64 a" and "in_i64 b" and "b \<noteq> i64_min"
  shows "\<bar>a * b\<bar> \<le> 85070591730234615856620279821087277056"
proof -
  have "\<bar>a * b\<bar> = \<bar>a\<bar> * \<bar>b\<bar>" by (simp add: abs_mult)
  also have "\<dots> \<le> 9223372036854775808 * 9223372036854775807"
    using assms by (intro mult_mono in_i64_abs_le) (auto simp: in_i64_def)
  finally show ?thesis by simp
qed

lemma in_i128_add:
  "\<bar>x\<bar> \<le> 85070591730234615856620279821087277056 \<Longrightarrow>
   \<bar>y\<bar> \<le> 85070591730234615856620279821087277056 \<Longrightarrow> in_i128 (x + y)"
  by (simp add: in_i128_def abs_le_iff)

lemma weighted_price_exact:
  assumes "in_i64 q" "q \<noteq> i64_min" "in_i64 d" "d \<noteq> i64_min" "in_i64 a" "in_i64 f"
    and "0 < \<bar>q\<bar> + \<bar>d\<bar>"
  shows "weighted_price q a d f = clamp_i64 ((a * \<bar>q\<bar> + f * \<bar>d\<bar>) sdiv (\<bar>q\<bar> + \<bar>d\<bar>))"
proof -
  have abs: "abs_i64 q = \<bar>q\<bar>" "abs_i64 d = \<bar>d\<bar>" using assms by (simp_all add: abs_i64_exact)
  have in64: "in_i64 \<bar>q\<bar>" "in_i64 \<bar>d\<bar>" using assms by (auto simp: in_i64_def)
  have m: "mul_i128 a \<bar>q\<bar> = a * \<bar>q\<bar>" "mul_i128 f \<bar>d\<bar> = f * \<bar>d\<bar>"
    using assms in64 by (simp_all add: mul_i128_exact)
  have "\<bar>a * \<bar>q\<bar>\<bar> \<le> 85070591730234615856620279821087277056"
    "\<bar>f * \<bar>d\<bar>\<bar> \<le> 85070591730234615856620279821087277056"
    using assms in64 by (intro mult_abs_in_i64_le; auto)+
  then have "in_i128 (a * \<bar>q\<bar> + f * \<bar>d\<bar>)" by (rule in_i128_add)
  then have "add_i128 (a * \<bar>q\<bar>) (f * \<bar>d\<bar>) = a * \<bar>q\<bar> + f * \<bar>d\<bar>" by (simp add: add_i128_def)
  with assms(7) show ?thesis
    by (simp add: weighted_price_def Let_def abs m add_i128_abs assms(1,3) clamp_i128_to_i64_def)
qed

lemma weighted_price_between:
  assumes "in_i64 q" "q \<noteq> i64_min" "in_i64 d" "d \<noteq> i64_min" "in_i64 a" "in_i64 f"
    and "0 < \<bar>q\<bar> + \<bar>d\<bar>"
  shows "min a f \<le> weighted_price q a d f \<and> weighted_price q a d f \<le> max a f"
proof -
  let ?w = "(a * \<bar>q\<bar> + f * \<bar>d\<bar>) sdiv (\<bar>q\<bar> + \<bar>d\<bar>)"
  have "min a f * (\<bar>q\<bar> + \<bar>d\<bar>) \<le> a * \<bar>q\<bar> + f * \<bar>d\<bar>"
    unfolding distrib_left by (intro add_mono mult_right_mono) auto
  then have lo: "min a f \<le> ?w" using assms(7) by (intro sdiv_ge_lower)
  have "a * \<bar>q\<bar> + f * \<bar>d\<bar> \<le> max a f * (\<bar>q\<bar> + \<bar>d\<bar>)"
    unfolding distrib_left by (intro add_mono mult_right_mono) auto
  then have hi: "?w \<le> max a f" using assms(7) by (intro sdiv_le_upper)
  have "in_i64 (min a f)" "in_i64 (max a f)" using assms(5,6) by (auto simp: min_def max_def)
  then have "in_i64 ?w" using lo hi by (rule in_i64_between)
  with lo hi show ?thesis by (simp add: weighted_price_exact [OF assms])
qed

lemma sdiv_mult_cancel: "0 < b \<Longrightarrow> (a * b) sdiv b = a" for a b :: int
  by (intro antisym sdiv_le_upper sdiv_ge_lower) simp_all

lemma weighted_price_open:
  assumes "in_i64 d" "d \<noteq> i64_min" "d \<noteq> 0" "in_i64 a" "in_i64 f"
  shows "weighted_price 0 a d f = f"
proof -
  have "0 < \<bar>d\<bar>" using assms(3) by simp
  with weighted_price_exact [of 0 d a f] assms show ?thesis
    by (simp add: sdiv_mult_cancel del: abs_mult)
qed

lemma realized_pnl_exact:
  assumes "in_i64 q" "q \<noteq> i64_min" "in_i64 d" "d \<noteq> i64_min" "in_i64 (f - a)" "in_i64 (a - f)"
  shows "realized_pnl q a d f =
    clamp_i64 (((if q > 0 then f - a else a - f) * min \<bar>q\<bar> \<bar>d\<bar>) sdiv SCALE)"
proof -
  have "in_i64 (min \<bar>q\<bar> \<bar>d\<bar>)" using assms(1-4) by (auto simp: in_i64_def)
  with assms show ?thesis
    by (simp add: realized_pnl_def Let_def abs_i64_exact sub_i64_exact saturating_mul_i128_exact
        clamp_i128_to_i64_def)
qed

section \<open>Properties\<close>

text \<open>
  A fill moves the position of the order's symbol by the filled quantity, with the order's
  sign and saturating at the ends of the range, and leaves every other symbol's position: this
  holds whether the fill opens, adds to, reduces, closes or flips the position.
\<close>

theorem on_fill_moves_position:
  assumes "acc_wf a"
  shows "position_qty (snd (on_fill ord q price a)) s =
    (if s = od_symbol_id ord then saturating_add (position_qty a s) (signed_qty (od_side ord) q)
     else position_qty a s)"
  using assms acc_wf_qty [OF assms, of s] by (intro on_fill_qty_lemma) (simp_all add: acc_wf_def)

definition sample_fill_order :: "side \<Rightarrow> order" where
  "sample_fill_order s = \<lparr>od_order_id = 1, od_client_order_id = 0, od_ts_submit = 1000, od_seq = 0,
     od_price = 0, od_qty = 300000000, od_symbol_id = 7, od_side = s, od_order_type = Limit\<rparr>"

theorem on_fill_moves_position_witness:
  "position_qty (snd (on_fill (sample_fill_order Sell) 300000000 100 account_new)) 7 = - 300000000"
  by (subst on_fill_moves_position [OF acc_wf_new])
    (simp add: sample_fill_order_def signed_qty_def neg_i64_exact in_i64_def saturating_add_def
      clamp_i64_def position_qty_def account_new_def)

text \<open>
  A fill in the direction of the position, or on a flat one, realises nothing, and the new
  average price lies between the old average price and the fill price; opening from flat sets
  it to the fill price.
\<close>

theorem on_fill_average_between:
  assumes "acc_wf a" and "in_i64 price" and "in_i64 (signed_qty (od_side ord) q)"
    and "signed_qty (od_side ord) q \<notin> {0, i64_min}"
    and "acc_entry a (od_symbol_id ord) = p"
    and "po_qty p = 0 \<or> sgn (po_qty p) = sgn (signed_qty (od_side ord) q)"
    and "on_fill ord q price a = (pnl, a')" and "acc_entry a' (od_symbol_id ord) = p'"
  shows "pnl = 0 \<and> min (po_avg_price p) price \<le> po_avg_price p' \<and>
    po_avg_price p' \<le> max (po_avg_price p) price \<and> (po_qty p = 0 \<longrightarrow> po_avg_price p' = price)"
proof -
  let ?d = "signed_qty (od_side ord) q"
  have wf: "bt_wf (ac_positions a)" using assms(1) by (simp add: acc_wf_def)
  have p: "pos_ok p" using acc_entry_ok [OF assms(1)] assms(5) by blast
  have nz: "?d \<noteq> 0" "?d \<noteq> i64_min" using assms(4) by simp_all
  from assms(6-8) have pnl: "pnl = 0"
    and avg: "po_avg_price p' = weighted_price (po_qty p) (po_avg_price p) ?d price"
    by (auto simp: on_fill_eq [OF nz(1)] assms(5) position_fill_def Let_def acc_entry_insert wf)
  have pos: "0 < \<bar>po_qty p\<bar> + \<bar>?d\<bar>" using nz by simp
  have range: "in_i64 (po_qty p)" "po_qty p \<noteq> i64_min" "in_i64 (po_avg_price p)"
    using p by (simp_all add: pos_ok_def)
  have "weighted_price 0 (po_avg_price p) ?d price = price"
    using assms(3) nz(2,1) range(3) assms(2) by (rule weighted_price_open)
  with pnl avg weighted_price_between [OF range(1,2) assms(3) nz(2) range(3) assms(2) pos]
  show ?thesis by simp
qed

theorem on_fill_average_between_witness:
  "\<exists>a' p'. on_fill (sample_fill_order Buy) 300000000 100 account_new = (0, a') \<and>
     acc_entry a' 7 = p' \<and> po_avg_price p' = 100"
proof -
  let ?o = "sample_fill_order Buy"
  obtain pnl a' where fill: "on_fill ?o 300000000 100 account_new = (pnl, a')" by force
  have o: "od_symbol_id ?o = 7" "signed_qty (od_side ?o) 300000000 = 300000000"
    "acc_entry account_new 7 = position_default" "po_qty position_default = 0"
    by (simp_all add: sample_fill_order_def signed_qty_def acc_entry_def account_new_def
        position_default_def)
  have "in_i64 300000000" "in_i64 100" by (simp_all add: in_i64_def)
  with on_fill_average_between [OF acc_wf_new _ _ _ _ _ fill refl] o fill show ?thesis by force
qed

text \<open>
  C27. A fill against the position realises the price difference times the closed quantity, in
  the direction of the position and scaled, as long as the price difference fits 64 bits; what
  is left of the position keeps its average price, a closed one is reset, and a flipped one
  continues at the fill price.
\<close>

theorem on_fill_realizes:
  assumes "acc_wf a" and "in_i64 (signed_qty (od_side ord) q)"
    and "signed_qty (od_side ord) q \<noteq> i64_min"
    and "acc_entry a (od_symbol_id ord) = p"
    and "sgn (po_qty p) = - sgn (signed_qty (od_side ord) q)" and "po_qty p \<noteq> 0"
    and "in_i64 (price - po_avg_price p)" and "in_i64 (po_avg_price p - price)"
    and "on_fill ord q price a = (pnl, a')" and "acc_entry a' (od_symbol_id ord) = p'"
  shows "pnl = clamp_i64 ((sgn (po_qty p) * (price - po_avg_price p) *
      min \<bar>po_qty p\<bar> \<bar>signed_qty (od_side ord) q\<bar>) sdiv SCALE) \<and>
    po_avg_price p' =
      (if \<bar>signed_qty (od_side ord) q\<bar> < \<bar>po_qty p\<bar> then po_avg_price p
       else if \<bar>signed_qty (od_side ord) q\<bar> = \<bar>po_qty p\<bar> then 0 else price)"
proof -
  let ?d = "signed_qty (od_side ord) q"
  have wf: "bt_wf (ac_positions a)" using assms(1) by (simp add: acc_wf_def)
  have range: "in_i64 (po_qty p)" "po_qty p \<noteq> i64_min"
    using acc_entry_ok [OF assms(1)] assms(4) unfolding pos_ok_def by blast+
  have nz: "?d \<noteq> 0" using assms(5,6) by (auto simp: sgn_if split: if_splits)
  have opp: "\<not> (po_qty p = 0 \<or> sgn (po_qty p) = sgn ?d)" using assms(5,6) nz by (auto simp: sgn_if)
  have signs: "(0 < po_qty p \<and> ?d < 0) \<or> (po_qty p < 0 \<and> 0 < ?d)"
    using assms(5,6) by (auto simp: sgn_if split: if_splits)
  then have "in_i64 (po_qty p + ?d)" using range(1) assms(2) by (auto simp: in_i64_def)
  then have sum: "saturating_add (po_qty p) ?d = po_qty p + ?d" by (rule saturating_add_exact)
  from assms(9,10) opp have "pnl = realized_pnl (po_qty p) (po_avg_price p) ?d price"
    and p': "po_avg_price p' = (if po_qty p + ?d = 0 then 0
      else if sgn (po_qty p + ?d) = sgn (po_qty p) then po_avg_price p else price)"
    by (auto simp: on_fill_eq [OF nz] assms(4) position_fill_def Let_def acc_entry_insert wf sum)
  moreover have "(if po_qty p > 0 then price - po_avg_price p else po_avg_price p - price)
      = sgn (po_qty p) * (price - po_avg_price p)"
    using assms(6) by (simp add: sgn_if)
  moreover have "po_avg_price p' =
      (if \<bar>?d\<bar> < \<bar>po_qty p\<bar> then po_avg_price p
       else if \<bar>?d\<bar> = \<bar>po_qty p\<bar> then 0 else price)"
    using signs by (cases "0 < po_qty p") (auto simp: p' sgn_if)
  ultimately show ?thesis by (simp add: realized_pnl_exact [OF range assms(2,3,7,8)])
qed

definition sample_long :: account where
  "sample_long = snd (on_fill (sample_fill_order Buy) 300000000 100 account_new)"

lemma sample_long_entry:
  "acc_entry sample_long 7 =
     \<lparr>po_qty = 300000000, po_avg_price = 100, po_last_open_ts = 1000, po_funding_pnl = 0\<rparr>"
  by code_simp

lemma sample_long_wf: "acc_wf sample_long"
  unfolding sample_long_def
  by (rule on_fill_wf [OF acc_wf_new])
    (simp_all add: in_i64_def sample_fill_order_def signed_qty_def position_qty_def account_new_def
      saturating_add_def clamp_i64_def)

theorem on_fill_realizes_witness:
  "fst (on_fill (sample_fill_order Sell) 200000000 150 sample_long) = 100"
proof -
  obtain pnl a' where fill: "on_fill (sample_fill_order Sell) 200000000 150 sample_long = (pnl, a')"
    by force
  have o: "od_symbol_id (sample_fill_order Sell) = 7"
    "signed_qty (od_side (sample_fill_order Sell)) 200000000 = - 200000000"
    by (simp_all add: sample_fill_order_def signed_qty_def neg_i64_def wrap_i64_def)
  from on_fill_realizes [OF sample_long_wf _ _ _ _ _ _ _ fill refl, unfolded o sample_long_entry]
  have "pnl = 100" by (simp add: in_i64_def clamp_i64_def sdiv_pos_eq)
  with fill show ?thesis by simp
qed

text \<open>
  Opening a position from flat and closing it with the opposite order of the same quantity
  realises the price difference times the quantity in the direction of the opening side and
  leaves the symbol flat, for long and for short positions alike.
\<close>

theorem open_close_roundtrip:
  assumes "acc_wf a" and "acc_entry a (od_symbol_id o1) = p0" and "po_qty p0 = 0"
    and "od_symbol_id o2 = od_symbol_id o1"
    and "(od_side o1, od_side o2) \<in> {(Buy, Sell), (Sell, Buy)}"
    and "0 < q" and "in_i64 q" and "in_i64 p1" and "in_i64 p2"
    and "in_i64 (p2 - p1)" and "in_i64 (p1 - p2)"
  shows "fst (on_fill o2 q p2 (snd (on_fill o1 q p1 a))) =
      clamp_i64 ((as_i8 (od_side o1) * (p2 - p1) * q) sdiv SCALE) \<and>
    position_qty (snd (on_fill o2 q p2 (snd (on_fill o1 q p1 a)))) (od_symbol_id o1) = 0"
proof -
  let ?s = "od_symbol_id o1" and ?d = "as_i8 (od_side o1) * q"
  have wf: "bt_wf (ac_positions a)" using assms(1) by (simp add: acc_wf_def)
  have d: "signed_qty (od_side o1) q = ?d" "signed_qty (od_side o2) q = - ?d"
    using assms(5-7) by (auto simp: signed_qty_def neg_i64_exact in_i64_def)
  have dr: "in_i64 ?d" "?d \<noteq> i64_min" "?d \<noteq> 0" "in_i64 (- ?d)" "- ?d \<noteq> i64_min" "\<bar>?d\<bar> = q"
    using assms(5-7) by (auto simp: in_i64_def)
  define a1 where "a1 = snd (on_fill o1 q p1 a)"
  have avg0: "in_i64 (po_avg_price p0)"
    using acc_entry_ok [OF assms(1)] assms(2) unfolding pos_ok_def by blast
  have "weighted_price 0 (po_avg_price p0) ?d p1 = p1"
    using dr(1-3) avg0 assms(8) by (rule weighted_price_open)
  then have e1: "po_qty (acc_entry a1 ?s) = ?d" "po_avg_price (acc_entry a1 ?s) = p1"
    using dr assms(2,3)
    by (simp_all add: a1_def on_fill_eq d Let_def acc_entry_insert wf position_fill_def
        saturating_add_exact)
  have wf1: "bt_wf (ac_positions a1)"
    using wf dr(3) by (simp add: a1_def on_fill_eq d Let_def)
  have "sgn ?d \<noteq> sgn (- ?d)" using dr(3) by (simp add: sgn_if)
  then have "fst (on_fill o2 q p2 a1) = realized_pnl ?d p1 (- ?d) p2"
    and q2: "position_qty (snd (on_fill o2 q p2 a1)) ?s = 0"
    using dr e1 by (simp_all add: on_fill_eq d Let_def assms(4) position_fill_def
        saturating_add_exact position_qty_insert wf1)
  moreover have "realized_pnl ?d p1 (- ?d) p2 = clamp_i64 ((as_i8 (od_side o1) * (p2 - p1) * q) sdiv SCALE)"
    unfolding realized_pnl_exact [OF dr(1,2,4,5) assms(10,11)]
    using assms(5,6) by (auto simp: algebra_simps)
  ultimately show ?thesis by (simp add: a1_def)
qed

theorem open_close_roundtrip_witness:
  "fst (on_fill (sample_fill_order Buy) 300000000 90
     (snd (on_fill (sample_fill_order Sell) 300000000 100 account_new))) = 30"
  using open_close_roundtrip [OF acc_wf_new refl, of "sample_fill_order Sell" "sample_fill_order Buy"
      300000000 100 90]
  by (simp add: sample_fill_order_def acc_entry_def account_new_def position_default_def in_i64_def
      clamp_i64_def sdiv_pos_eq)

lemma clamp_i128_uminus:
  assumes "clamp_i128 x \<notin> {i128_min, i128_max}"
  shows "clamp_i128 (- x) = - clamp_i128 x"
  using assms by (auto simp: clamp_i128_def min_def max_def split: if_splits)

lemma funding_pnl_range:
  assumes "funding_pnl q m r \<notin> {i64_min, i64_max}"
  shows "saturating_mul_i128 (saturating_mul_i128 q m sdiv SCALE) r \<notin> {i128_min, i128_max}"
    and "funding_pnl q m r = - (saturating_mul_i128 (saturating_mul_i128 q m sdiv SCALE) r sdiv SCALE)"
proof -
  let ?p = "saturating_mul_i128 (saturating_mul_i128 q m sdiv SCALE) r"
  have "in_i128 ?p" by (simp add: saturating_mul_i128_def)
  then have "- 1701411834604692317316873037158841058 \<le> ?p sdiv SCALE"
    "?p sdiv SCALE \<le> 1701411834604692317316873037158841058"
    by (auto simp: in_i128_def intro!: sdiv_ge_lower sdiv_le_upper)
  then have w: "wrap_i128 (- (?p sdiv SCALE)) = - (?p sdiv SCALE)"
    by (intro wrap_i128_id) (simp add: in_i128_def)
  then have f: "funding_pnl q m r = clamp_i64 (- (?p sdiv SCALE))"
    by (simp add: funding_pnl_def Let_def)
  with assms show "funding_pnl q m r = - (?p sdiv SCALE)"
    by (auto simp: clamp_i64_def min_def max_def split: if_splits)
  show "?p \<notin> {i128_min, i128_max}"
  proof
    assume "?p \<in> {i128_min, i128_max}"
    then have "clamp_i64 (- (?p sdiv SCALE)) \<in> {i64_min, i64_max}"
      by (auto simp: clamp_i64_def sdiv_pos_eq sdiv_neg_eq)
    with assms f show False by simp
  qed
qed

lemma funding_pnl_uminus:
  assumes "in_i64 q" and "in_i64 m" and "in_i64 (- q)" and "funding_pnl q m r \<notin> {i64_min, i64_max}"
  shows "funding_pnl (- q) m r = - funding_pnl q m r"
proof -
  note r = funding_pnl_range [OF assms(4)]
  let ?n = "saturating_mul_i128 q m sdiv SCALE"
  let ?p = "saturating_mul_i128 ?n r"
  have n: "saturating_mul_i128 (- q) m sdiv SCALE = - ?n"
    using assms by (simp add: saturating_mul_i128_exact)
  have p: "saturating_mul_i128 (- ?n) r = - ?p"
    using clamp_i128_uminus [of "?n * r"] r(1) by (simp add: saturating_mul_i128_def)
  have "funding_pnl q m r \<noteq> i64_min" "funding_pnl q m r \<noteq> i64_max" using assms(4) by auto
  moreover have "in_i64 (funding_pnl q m r)" by (simp add: funding_pnl_def Let_def)
  ultimately have "in_i64 (?p sdiv SCALE)" "in_i64 (- (?p sdiv SCALE))"
    by (auto simp: r(2) in_i64_def)
  then show ?thesis
    using in_i64_between [of _ _ "?p sdiv SCALE"]
    by (simp add: funding_pnl_def Let_def n p) (simp add: r(2) in_i64_def wrap_i128_def clamp_i64_def)
qed

text \<open>
  Funding is a transfer: for opposite positions in the same symbol at the same mark price,
  what one side pays the other receives, as long as the amount does not saturate, and an
  account's funding total moves by exactly the amount returned.
\<close>

theorem funding_zero_sum:
  assumes "acc_wf a" and "acc_wf b" and "position_qty b s = - position_qty a s"
    and "in_i64 mark" and "fu_symbol_id ev = s"
    and "apply_funding ev mark a = (pnl_a, a')" and "apply_funding ev mark b = (pnl_b, b')"
    and "pnl_a \<notin> {i64_min, i64_max}"
  shows "pnl_a + pnl_b = 0 \<and>
    ((pnl_a = 0 \<and> a' = a) \<or> total_funding_pnl a' = saturating_add (total_funding_pnl a) pnl_a)"
proof -
  have range: "in_i64 (position_qty a s)" "in_i64 (- position_qty a s)"
    using acc_wf_qty [OF assms(1), of s] acc_wf_qty [OF assms(2), of s] assms(3) by auto
  show ?thesis
  proof (cases "position_qty a s = 0 \<or> fu_rate ev = 0 \<or> mark = 0")
    case True
    then have "apply_funding ev mark a = (0, a)" "apply_funding ev mark b = (0, b)"
      using assms(3,5) by (auto simp: apply_funding_def position_qty_def split: option.splits)
    with assms(6,7) show ?thesis by simp
  next
    case False
    then have "pnl_a = funding_pnl (position_qty a s) mark (fu_rate ev)"
      "pnl_b = funding_pnl (- position_qty a s) mark (fu_rate ev)"
      "total_funding_pnl a' = saturating_add (total_funding_pnl a) pnl_a"
      using assms(3,5-7)
      by (auto simp: apply_funding_def position_qty_def total_funding_pnl_def Let_def split: option.splits)
    with funding_pnl_uminus [OF range(1) assms(4) range(2)] assms(8) show ?thesis by simp
  qed
qed

definition sample_short :: account where
  "sample_short = snd (on_fill (sample_fill_order Sell) 300000000 100 account_new)"

definition sample_funding :: funding_event where
  "sample_funding = \<lparr>fu_ts_exchange = 3000, fu_rate = 10000, fu_symbol_id = 7\<rparr>"

lemma sample_short_wf: "acc_wf sample_short"
  unfolding sample_short_def
  by (rule on_fill_wf [OF acc_wf_new])
    (simp_all add: in_i64_def sample_fill_order_def signed_qty_def position_qty_def account_new_def
      saturating_add_def clamp_i64_def neg_i64_def wrap_i64_def)

theorem funding_zero_sum_witness:
  "\<exists>a' b' pnl_b. apply_funding sample_funding 10000000000 sample_long = (- 3000000, a') \<and>
     apply_funding sample_funding 10000000000 sample_short = (pnl_b, b') \<and> - 3000000 + pnl_b = 0"
proof -
  obtain pnl_a a' where a: "apply_funding sample_funding 10000000000 sample_long = (pnl_a, a')" by force
  obtain pnl_b b' where b: "apply_funding sample_funding 10000000000 sample_short = (pnl_b, b')" by force
  have "fst (apply_funding sample_funding 10000000000 sample_long) = - 3000000" by code_simp
  with a have pnl: "pnl_a = - 3000000" by simp
  have q: "position_qty sample_short 7 = - position_qty sample_long 7" by code_simp
  from funding_zero_sum [OF sample_long_wf sample_short_wf q _ _ a b]
  have "pnl_a + pnl_b = 0" by (simp add: pnl in_i64_def sample_funding_def)
  with a b pnl show ?thesis by auto
qed

end
