(* ===== verification/F64.thy ===== *)
theory F64
  imports Complex_Main "HOL-Library.Log_Nat" Prelude
begin

text \<open>
  The IEEE-754 binary64 numbers of the code: NaN, the infinities, and finite values as a sign
  and a rational magnitude. An operation computes the exact rational result and rounds it to
  the nearest representable value, ties to even, as the standard prescribes; \<open>sqrt\<close> is
  correctly rounded. The casts are those of Rust's \<open>as\<close>: integers round to nearest, floats
  truncate towards zero and saturate, and NaN becomes 0. All definitions compute.
\<close>

datatype f64 = F64_NaN | F64_Inf bool | F64_Fin bool rat

abbreviation f64_zero :: f64 where "f64_zero \<equiv> F64_Fin False 0"
abbreviation f64_infinity :: f64 where "f64_infinity \<equiv> F64_Inf False"

section \<open>Rounding\<close>

definition pow2 :: "int \<Rightarrow> rat" where
  "pow2 k = (if 0 \<le> k then of_int (2 ^ nat k) else 1 / of_int (2 ^ nat (- k)))"

definition bit_len :: "int \<Rightarrow> int" where
  "bit_len n = int (floorlog 2 (nat n))"

text \<open>The exponent of the leading bit of a positive rational.\<close>

definition ilog2 :: "rat \<Rightarrow> int" where
  "ilog2 x =
     (let (n, d) = quotient_of x;
          k = bit_len n - bit_len d
      in if pow2 k \<le> x then k else k - 1)"

definition round_half_even :: "rat \<Rightarrow> int" where
  "round_half_even x =
     (let f = \<lfloor>x\<rfloor>; r = x - of_int f
      in if r < 1 / 2 then f else if 1 / 2 < r then f + 1 else if even f then f else f + 1)"

definition ulp_exp :: "rat \<Rightarrow> int" where
  "ulp_exp m = max (ilog2 m - 52) (- 1074)"

definition round_mag :: "rat \<Rightarrow> rat" where
  "round_mag m =
     (if m = 0 then 0
      else of_int (round_half_even (m / pow2 (ulp_exp m))) * pow2 (ulp_exp m))"

definition f64_round :: "bool \<Rightarrow> rat \<Rightarrow> f64" where
  "f64_round s m =
     (let v = round_mag m in if pow2 1024 \<le> v then F64_Inf s else F64_Fin s v)"

text \<open>The value of a finite float, and the float of a rational result with the sign of an exact 0.\<close>

definition f64_val :: "bool \<Rightarrow> rat \<Rightarrow> rat" where
  "f64_val s m = (if s then - m else m)"

definition f64_of_rat :: "bool \<Rightarrow> rat \<Rightarrow> f64" where
  "f64_of_rat zero_sign v = (if v = 0 then F64_Fin zero_sign 0 else f64_round (v < 0) \<bar>v\<bar>)"

section \<open>Operations\<close>

definition f64_of_int :: "int \<Rightarrow> f64" where
  "f64_of_int n = f64_of_rat False (of_int n)"

fun f64_neg :: "f64 \<Rightarrow> f64" where
  "f64_neg F64_NaN = F64_NaN"
| "f64_neg (F64_Inf s) = F64_Inf (\<not> s)"
| "f64_neg (F64_Fin s m) = F64_Fin (\<not> s) m"

fun f64_add :: "f64 \<Rightarrow> f64 \<Rightarrow> f64" where
  "f64_add F64_NaN y = F64_NaN"
| "f64_add x F64_NaN = F64_NaN"
| "f64_add (F64_Inf s) (F64_Inf t) = (if s = t then F64_Inf s else F64_NaN)"
| "f64_add (F64_Inf s) y = F64_Inf s"
| "f64_add x (F64_Inf t) = F64_Inf t"
| "f64_add (F64_Fin s m) (F64_Fin t n) = f64_of_rat (s \<and> t) (f64_val s m + f64_val t n)"

definition f64_sub :: "f64 \<Rightarrow> f64 \<Rightarrow> f64" where
  "f64_sub x y = f64_add x (f64_neg y)"

fun f64_mul :: "f64 \<Rightarrow> f64 \<Rightarrow> f64" where
  "f64_mul F64_NaN y = F64_NaN"
| "f64_mul x F64_NaN = F64_NaN"
| "f64_mul (F64_Inf s) (F64_Inf t) = F64_Inf (s \<noteq> t)"
| "f64_mul (F64_Inf s) (F64_Fin t n) = (if n = 0 then F64_NaN else F64_Inf (s \<noteq> t))"
| "f64_mul (F64_Fin s m) (F64_Inf t) = (if m = 0 then F64_NaN else F64_Inf (s \<noteq> t))"
| "f64_mul (F64_Fin s m) (F64_Fin t n) = f64_round (s \<noteq> t) (m * n)"

fun f64_div :: "f64 \<Rightarrow> f64 \<Rightarrow> f64" where
  "f64_div F64_NaN y = F64_NaN"
| "f64_div x F64_NaN = F64_NaN"
| "f64_div (F64_Inf s) (F64_Inf t) = F64_NaN"
| "f64_div (F64_Inf s) (F64_Fin t n) = F64_Inf (s \<noteq> t)"
| "f64_div (F64_Fin s m) (F64_Inf t) = F64_Fin (s \<noteq> t) 0"
| "f64_div (F64_Fin s m) (F64_Fin t n) =
     (if n = 0 then (if m = 0 then F64_NaN else F64_Inf (s \<noteq> t)) else f64_round (s \<noteq> t) (m / n))"

text \<open>Comparisons: false whenever an operand is NaN; the two zeros are equal.\<close>

fun f64_lt :: "f64 \<Rightarrow> f64 \<Rightarrow> bool" where
  "f64_lt F64_NaN y = False"
| "f64_lt x F64_NaN = False"
| "f64_lt (F64_Inf s) (F64_Inf t) = (s \<and> \<not> t)"
| "f64_lt (F64_Inf s) (F64_Fin t n) = s"
| "f64_lt (F64_Fin s m) (F64_Inf t) = (\<not> t)"
| "f64_lt (F64_Fin s m) (F64_Fin t n) = (f64_val s m < f64_val t n)"

fun f64_eq :: "f64 \<Rightarrow> f64 \<Rightarrow> bool" where
  "f64_eq (F64_Inf s) (F64_Inf t) = (s = t)"
| "f64_eq (F64_Fin s m) (F64_Fin t n) = (f64_val s m = f64_val t n)"
| "f64_eq x y = False"

definition f64_gt :: "f64 \<Rightarrow> f64 \<Rightarrow> bool" where
  "f64_gt x y = f64_lt y x"

text \<open>\<open>f64::min\<close> and \<open>f64::max\<close> ignore a NaN operand.\<close>

definition f64_min :: "f64 \<Rightarrow> f64 \<Rightarrow> f64" where
  "f64_min x y = (if x = F64_NaN then y else if y = F64_NaN then x else if f64_lt y x then y else x)"

definition f64_max :: "f64 \<Rightarrow> f64 \<Rightarrow> f64" where
  "f64_max x y = (if x = F64_NaN then y else if y = F64_NaN then x else if f64_lt x y then y else x)"

definition f64_is_finite :: "f64 \<Rightarrow> bool" where
  "f64_is_finite x = (case x of F64_Fin _ _ \<Rightarrow> True | _ \<Rightarrow> False)"

subsection \<open>Square root\<close>

text \<open>The integer square root by bisection on the number of bits.\<close>

fun isqrt_bits :: "nat \<Rightarrow> int \<Rightarrow> int \<Rightarrow> int" where
  "isqrt_bits 0 acc n = acc"
| "isqrt_bits (Suc k) acc n =
     (let c = acc + 2 ^ k in isqrt_bits k (if c * c \<le> n then c else acc) n)"

definition isqrt :: "int \<Rightarrow> int" where
  "isqrt n = isqrt_bits (Suc (nat (bit_len n) div 2)) 0 n"

text \<open>
  The root of a positive magnitude: scale so that the integer root has 53 bits or more, take
  the floor, and let one more sticky bit decide the rounding.
\<close>

definition sqrt_mag :: "rat \<Rightarrow> rat" where
  "sqrt_mag m =
     (if m = 0 then 0
      else
        let k = 54 - ilog2 m div 2;
            x = m * pow2 (2 * k);
            r = isqrt \<lfloor>x\<rfloor>;
            sticky = (if of_int r * of_int r = x then 0 else 1 / 2)
        in round_mag ((of_int r + sticky) / pow2 k))"

fun f64_sqrt :: "f64 \<Rightarrow> f64" where
  "f64_sqrt F64_NaN = F64_NaN"
| "f64_sqrt (F64_Inf s) = (if s then F64_NaN else F64_Inf False)"
| "f64_sqrt (F64_Fin s m) = (if m = 0 then F64_Fin s 0 else if s then F64_NaN else F64_Fin False (sqrt_mag m))"

subsection \<open>Casts\<close>

definition f64_trunc :: "bool \<Rightarrow> rat \<Rightarrow> int" where
  "f64_trunc s m = (if s then - \<lfloor>m\<rfloor> else \<lfloor>m\<rfloor>)"

fun f64_as_i64 :: "f64 \<Rightarrow> i64" where
  "f64_as_i64 F64_NaN = 0"
| "f64_as_i64 (F64_Inf s) = (if s then i64_min else i64_max)"
| "f64_as_i64 (F64_Fin s m) = clamp_i64 (f64_trunc s m)"

text \<open>\<open>f64::round\<close> and \<open>trunc\<close>: halves away from zero, and towards zero.\<close>

fun f64_round_int :: "f64 \<Rightarrow> f64" where
  "f64_round_int (F64_Fin s m) = F64_Fin s (of_int \<lfloor>m + 1 / 2\<rfloor>)"
| "f64_round_int x = x"

section \<open>Facts\<close>

lemma pow2_pos [simp]: "0 < pow2 k"
  by (simp add: pow2_def)

lemma pow2_nonzero [simp]: "pow2 k \<noteq> 0"
  using pow2_pos [of k] by (metis less_irrefl)

lemma round_half_even_nonneg: "0 \<le> x \<Longrightarrow> 0 \<le> round_half_even x"
  by (auto simp: round_half_even_def Let_def)

lemma round_half_even_ge_floor: "\<lfloor>x\<rfloor> \<le> round_half_even x"
  by (simp add: round_half_even_def Let_def)

lemma round_half_even_le_int: "x \<le> of_int n \<Longrightarrow> round_half_even x \<le> n"
proof -
  assume le: "x \<le> of_int n"
  show ?thesis
  proof (cases "\<lfloor>x\<rfloor> = n")
    case True
    with le have "x - of_int \<lfloor>x\<rfloor> = 0" by (metis diff_self eq_iff of_int_floor_le)
    with True show ?thesis by (simp add: round_half_even_def Let_def)
  next
    case False
    from le have "\<lfloor>x\<rfloor> \<le> n" by (simp add: floor_le_iff)
    with False show ?thesis by (simp add: round_half_even_def Let_def)
  qed
qed

lemma round_half_even_int [simp]: "round_half_even (of_int n) = n"
  by (simp add: round_half_even_def)

lemma round_mag_nonneg: "0 \<le> m \<Longrightarrow> 0 \<le> round_mag m"
  using pow2_pos [of "ulp_exp m"] by (simp add: round_mag_def round_half_even_nonneg less_imp_le)

lemma f64_val_neg: "f64_val (\<not> s) m = - f64_val s m"
  by (simp add: f64_val_def)

lemma pow2_powi: "pow2 k = 2 powi k"
  by (simp add: pow2_def power_int_def field_simps)

lemma pow2_add: "pow2 (a + b) = pow2 a * pow2 b"
  by (simp add: pow2_powi power_int_add)

lemma pow2_mono: "a \<le> b \<Longrightarrow> pow2 a \<le> pow2 b"
  by (simp add: pow2_powi power_int_increasing)

lemma pow2_nat: "pow2 (int n) = of_int (2 ^ n)"
  by (simp add: pow2_def)

lemma pow2_0 [simp]: "pow2 0 = 1"
  by (simp add: pow2_def)

lemma bit_len_bounds:
  assumes "0 < n"
  shows "pow2 (bit_len n - 1) \<le> of_int n" and "of_int n < pow2 (bit_len n)"
proof -
  define b where "b = floorlog 2 (nat n)"
  have b: "0 < b" using assms floorlog_eq_zero_iff [of 2 "nat n"] by (simp add: b_def)
  from assms have n: "2 ^ (b - 1) \<le> nat n" "nat n < 2 ^ b"
    using floorlog_bounds [of "nat n" 2] by (simp_all add: b_def)
  have bl: "bit_len n = int b" by (simp add: bit_len_def b_def)
  from n assms have ints: "2 ^ (b - 1) \<le> n" "n < 2 ^ b"
    by (simp_all add: le_nat_iff nat_less_iff)
  have "bit_len n - 1 = int (b - 1)" using b bl by simp
  then have "pow2 (bit_len n - 1) = of_int (2 ^ (b - 1))" by (simp only: pow2_nat)
  with ints(1) show "pow2 (bit_len n - 1) \<le> of_int n" by (simp only: of_int_le_iff)
  have "pow2 (bit_len n) = of_int (2 ^ b)" by (simp only: bl pow2_nat)
  with ints(2) show "of_int n < pow2 (bit_len n)" by (simp only: of_int_less_iff)
qed

lemma ilog2_bounds:
  assumes "0 < m"
  shows "pow2 (ilog2 m) \<le> m" and "m < pow2 (ilog2 m + 1)"
proof -
  obtain n d where q: "quotient_of m = (n, d)" by force
  then have d: "0 < d" and m: "m = of_int n / of_int d"
    using quotient_of_denom_pos quotient_of_div by auto
  with assms have n: "0 < n" by (simp add: zero_less_divide_iff)
  define k where "k = bit_len n - bit_len d"
  have "pow2 (k - 1) * of_int d \<le> pow2 (k - 1) * pow2 (bit_len d)"
    using bit_len_bounds(2) [OF d] by (intro mult_left_mono) (simp_all add: less_imp_le)
  also have "\<dots> = pow2 (bit_len n - 1)" by (simp add: k_def flip: pow2_add)
  also have "\<dots> \<le> of_int n" using n by (rule bit_len_bounds)
  finally have lo: "pow2 (k - 1) \<le> m" using d by (simp add: m field_simps)
  have "of_int n < pow2 (bit_len n)" using n by (rule bit_len_bounds)
  also have "\<dots> = pow2 (k + 1) * pow2 (bit_len d - 1)" by (simp add: k_def flip: pow2_add)
  also have "\<dots> \<le> pow2 (k + 1) * of_int d"
    using bit_len_bounds(1) [OF d] by (intro mult_left_mono) (simp_all add: less_imp_le)
  finally have hi: "m < pow2 (k + 1)" using d by (simp add: m field_simps)
  from lo hi show "pow2 (ilog2 m) \<le> m" "m < pow2 (ilog2 m + 1)"
    by (auto simp: ilog2_def q Let_def k_def [symmetric] not_le)
qed

lemma ilog2_less: "0 < m \<Longrightarrow> m < pow2 k \<Longrightarrow> ilog2 m < k"
  using ilog2_bounds(1) [of m] pow2_mono [of k "ilog2 m"] by (cases "k \<le> ilog2 m") auto

lemma round_mag_pos:
  assumes "1 \<le> m"
  shows "0 < round_mag m"
proof -
  have m: "0 < m" using assms by simp
  have "ilog2 m \<ge> 0"
  proof (rule ccontr)
    assume "\<not> 0 \<le> ilog2 m"
    then have "pow2 (ilog2 m + 1) \<le> pow2 0" by (intro pow2_mono) simp
    with ilog2_bounds(2) [OF m] assms show False by simp
  qed
  then have e: "ulp_exp m = ilog2 m - 52" by (simp add: ulp_exp_def)
  have "1 \<le> pow2 52" using pow2_mono [of 0 52] by simp
  also have "pow2 52 = pow2 (ilog2 m) / pow2 (ulp_exp m)"
    by (simp add: e eq_divide_eq flip: pow2_add)
  also have "\<dots> \<le> m / pow2 (ulp_exp m)"
    using ilog2_bounds(1) [OF m] by (intro divide_right_mono) (simp_all add: less_imp_le)
  finally have "1 \<le> \<lfloor>m / pow2 (ulp_exp m)\<rfloor>" by (simp add: le_floor_iff)
  then have "1 \<le> round_half_even (m / pow2 (ulp_exp m))"
    by (rule order_trans [OF _ round_half_even_ge_floor])
  with m show ?thesis by (simp add: round_mag_def)
qed

lemma round_mag_le_one:
  assumes "0 \<le> m" and "m \<le> 1"
  shows "round_mag m \<le> 1"
proof (cases "m = 0")
  case False
  with assms have m: "0 < m" by simp
  have "pow2 0 < pow2 1" by (simp add: pow2_def)
  with assms(2) have "ilog2 m < 1" using m by (intro ilog2_less) auto
  then have "ulp_exp m \<le> 0" by (simp add: ulp_exp_def)
  then obtain j where j: "ulp_exp m = - int j" by (cases "ulp_exp m" rule: int_cases2) auto
  have "m / pow2 (ulp_exp m) \<le> 1 / pow2 (ulp_exp m)"
    using assms(2) by (intro divide_right_mono) (simp_all add: less_imp_le)
  also have "1 / pow2 (ulp_exp m) = of_int (2 ^ j)"
    by (simp add: j pow2_powi power_int_minus field_simps)
  finally have "round_half_even (m / pow2 (ulp_exp m)) \<le> 2 ^ j" by (rule round_half_even_le_int)
  then have "of_int (round_half_even (m / pow2 (ulp_exp m))) * pow2 (ulp_exp m)
      \<le> of_int (2 ^ j) * pow2 (ulp_exp m)"
    by (intro mult_right_mono) (simp_all only: of_int_le_iff less_imp_le pow2_pos)
  also have "\<dots> = 1" by (simp add: j pow2_powi power_int_minus)
  finally show ?thesis by (simp add: round_mag_def False)
qed (simp add: round_mag_def)

text \<open>Rounding leaves what 53 bits and the exponent range can hold.\<close>

lemma f64_round_exact:
  assumes "0 \<le> n" and "n < 9007199254740992" and "- 1074 \<le> e" and "e \<le> 971"
  shows "f64_round s (of_int n * pow2 e) = F64_Fin s (of_int n * pow2 e)"
proof -
  let ?m = "of_int n * pow2 e :: rat"
  have "pow2 53 = of_int 9007199254740992" by (simp add: pow2_def)
  then have "(of_int n :: rat) < pow2 53" using assms(2) by (simp only: of_int_less_iff)
  then have lt: "?m < pow2 (53 + e)" by (simp add: pow2_add)
  also have "pow2 (53 + e) \<le> pow2 1024" using assms(4) by (intro pow2_mono) simp
  finally have fin: "\<not> pow2 1024 \<le> ?m" by simp
  have "round_mag ?m = ?m"
  proof (cases "n = 0")
    case False
    with assms(1) have "0 < ?m" by simp
    with lt have "ilog2 ?m < 53 + e" by (intro ilog2_less)
    then have "ulp_exp ?m \<le> e" using assms(3) by (simp add: ulp_exp_def)
    then obtain j where j: "e = ulp_exp ?m + int j" by (metis zle_iff_zadd)
    have "?m / pow2 (ulp_exp ?m) = of_int n * (pow2 e / pow2 (ulp_exp ?m))" by simp
    also have "pow2 e / pow2 (ulp_exp ?m) = pow2 (int j)"
      by (subst j) (simp add: pow2_add)
    also have "of_int n * pow2 (int j) = of_int (n * 2 ^ j)" by (simp add: pow2_nat)
    finally have q: "?m / pow2 (ulp_exp ?m) = of_int (n * 2 ^ j)" .
    then have "of_int (round_half_even (?m / pow2 (ulp_exp ?m))) = ?m / pow2 (ulp_exp ?m)"
      by (simp only: round_half_even_int)
    then show ?thesis by (simp add: round_mag_def False)
  qed (simp add: round_mag_def)
  with fin show ?thesis by (simp add: f64_round_def Let_def)
qed

lemma f64_round_int:
  "0 \<le> n \<Longrightarrow> n < 9007199254740992 \<Longrightarrow> f64_round s (of_int n) = F64_Fin s (of_int n)"
  using f64_round_exact [of n 0 s] by simp

lemma f64_of_int_small: "0 \<le> n \<Longrightarrow> n < 9007199254740992 \<Longrightarrow> f64_of_int n = F64_Fin False (of_int n)"
  by (simp add: f64_of_int_def f64_of_rat_def f64_round_int)

end
