(* ===== verification/Stats.thy ===== *)
theory Stats
  imports Account F64
begin

text \<open>
  \<open>stats.rs\<close>: the trade log with its retention modes, the statistics it keeps incrementally,
  and the batch functions over fills and PnL series. The position arithmetic that \<open>stats.rs\<close>
  repeats from \<open>account.rs\<close> line by line uses the same functions \<open>weighted_price\<close> and
  \<open>realized_pnl\<close>. Ratios are binary64 values of theory \<open>F64\<close>. Rayon's parallel \<open>reduce\<close> is
  the argument \<open>par_reduce\<close> of the functions that use it.
\<close>

section \<open>Records\<close>

record trade_fill =
  tf_ts_exchange :: ts_exchange_ns
  tf_order_id :: u64
  tf_price :: i64
  tf_qty :: i64
  tf_fee :: i64
  tf_symbol_id :: u32
  tf_side :: side
  tf_is_taker :: bool

record pnl_event =
  pe_ts_exchange :: ts_exchange_ns
  pe_pnl :: i64

datatype trade_log_mode = LogAll | RingBuffer usize | SummaryOnly | LogNone

record pos_state =
  ps_qty :: i64
  ps_avg_price :: i64
  ps_last_open_ts :: ts_exchange_ns

definition pos_state_default :: pos_state where
  "pos_state_default = \<lparr>ps_qty = 0, ps_avg_price = 0, ps_last_open_ts = 0\<rparr>"

record incremental_stats =
  is_total_trades :: u64
  is_total_pnl :: i64
  is_gross_profit :: i64
  is_gross_loss :: i64
  is_win_count :: u64
  is_total_fees_paid :: i64
  is_total_holding_period :: i64
  is_closed_trades :: u64
  is_pnl_count :: u64
  is_pnl_mean :: f64
  is_pnl_m2 :: f64
  is_downside_sq_sum :: f64
  is_equity :: i64
  is_peak_equity :: i64
  is_peak_ts :: ts_exchange_ns
  is_max_drawdown_pct :: f64
  is_max_drawdown_duration :: i64
  is_pos_state :: "(u32, pos_state) btree"

definition incremental_default :: incremental_stats where
  "incremental_default =
     \<lparr>is_total_trades = 0, is_total_pnl = 0, is_gross_profit = 0, is_gross_loss = 0, is_win_count = 0,
      is_total_fees_paid = 0, is_total_holding_period = 0, is_closed_trades = 0, is_pnl_count = 0,
      is_pnl_mean = f64_zero, is_pnl_m2 = f64_zero, is_downside_sq_sum = f64_zero, is_equity = 0,
      is_peak_equity = 0, is_peak_ts = 0, is_max_drawdown_pct = f64_zero,
      is_max_drawdown_duration = 0, is_pos_state = []\<rparr>"

section \<open>Incremental statistics\<close>

text \<open>A fill that opens or adds, and one that reduces, closes or flips.\<close>

definition pos_open :: "ts_exchange_ns \<Rightarrow> i64 \<Rightarrow> i64 \<Rightarrow> pos_state \<Rightarrow> pos_state" where
  "pos_open ts delta_qty price s =
     (let s1 = (if ps_qty s = 0 then s\<lparr>ps_last_open_ts := ts\<rparr> else s)
      in s1\<lparr>ps_avg_price := weighted_price (ps_qty s1) (ps_avg_price s1) delta_qty price,
            ps_qty := saturating_add (ps_qty s1) delta_qty\<rparr>)"

definition pos_close :: "ts_exchange_ns \<Rightarrow> i64 \<Rightarrow> i64 \<Rightarrow> pos_state \<Rightarrow> pos_state" where
  "pos_close ts delta_qty price s =
     (let new_qty = saturating_add (ps_qty s) delta_qty
      in if new_qty = 0 then s\<lparr>ps_qty := 0, ps_avg_price := 0\<rparr>
         else if sgn new_qty = sgn (ps_qty s) then s\<lparr>ps_qty := new_qty\<rparr>
         else s\<lparr>ps_qty := new_qty, ps_avg_price := price, ps_last_open_ts := ts\<rparr>)"

definition pos_entry :: "(u32, pos_state) btree \<Rightarrow> u32 \<Rightarrow> pos_state" where
  "pos_entry m symbol_id = (case bt_get m symbol_id of None \<Rightarrow> pos_state_default | Some s \<Rightarrow> s)"

definition inc_on_fill :: "trade_fill \<Rightarrow> incremental_stats \<Rightarrow> incremental_stats" where
  "inc_on_fill fill st =
     (let st1 = st\<lparr>is_total_trades := u64_wrapping_succ (is_total_trades st),
                 is_total_fees_paid := saturating_add (is_total_fees_paid st) (tf_fee fill)\<rparr>
      in if tf_qty fill \<le> 0 then st1
         else
           let delta_qty = signed_qty (tf_side fill) (tf_qty fill)
           in if delta_qty = 0 then st1
              else
                let s = pos_entry (is_pos_state st1) (tf_symbol_id fill)
                in if ps_qty s = 0 \<or> sgn (ps_qty s) = sgn delta_qty then
                     st1\<lparr>is_pos_state := bt_insert (tf_symbol_id fill)
                       (pos_open (tf_ts_exchange fill) delta_qty (tf_price fill) s) (is_pos_state st1)\<rparr>
                   else
                     let pnl_delta = realized_pnl (ps_qty s) (ps_avg_price s) delta_qty (tf_price fill);
                         st2 = (if pnl_delta \<noteq> 0 then
                             st1\<lparr>is_total_holding_period := saturating_add (is_total_holding_period st1)
                                   (saturating_sub (tf_ts_exchange fill) (ps_last_open_ts s)),
                                 is_closed_trades := u64_wrapping_succ (is_closed_trades st1)\<rparr>
                           else st1)
                     in st2\<lparr>is_pos_state := bt_insert (tf_symbol_id fill)
                          (pos_close (tf_ts_exchange fill) delta_qty (tf_price fill) s) (is_pos_state st2)\<rparr>)"

text \<open>The three parts of \<open>on_pnl\<close>: the sums, the moments of the PnL series, the drawdown.\<close>

definition inc_sums :: "i64 \<Rightarrow> bool \<Rightarrow> incremental_stats \<Rightarrow> incremental_stats" where
  "inc_sums pnl is_trade st =
     (let st1 = st\<lparr>is_total_pnl := saturating_add (is_total_pnl st) pnl\<rparr>
      in if \<not> is_trade then st1
         else if pnl > 0 then
           st1\<lparr>is_gross_profit := saturating_add (is_gross_profit st1) pnl,
               is_win_count := u64_wrapping_succ (is_win_count st1)\<rparr>
         else if pnl < 0 then st1\<lparr>is_gross_loss := saturating_add (is_gross_loss st1) pnl\<rparr>
         else st1)"

definition inc_moments :: "i64 \<Rightarrow> incremental_stats \<Rightarrow> incremental_stats" where
  "inc_moments pnl st =
     (let count = u64_wrapping_succ (is_pnl_count st);
          pnl_f = f64_of_int pnl;
          delta = f64_sub pnl_f (is_pnl_mean st);
          mean = f64_add (is_pnl_mean st) (f64_div delta (f64_of_int (int count)));
          delta2 = f64_sub pnl_f mean
      in st\<lparr>is_pnl_count := count, is_pnl_mean := mean,
            is_pnl_m2 := f64_add (is_pnl_m2 st) (f64_mul delta delta2),
            is_downside_sq_sum :=
              (if pnl < 0 then f64_add (is_downside_sq_sum st) (f64_mul pnl_f pnl_f)
               else is_downside_sq_sum st)\<rparr>)"

definition inc_drawdown :: "ts_exchange_ns \<Rightarrow> i64 \<Rightarrow> incremental_stats \<Rightarrow> incremental_stats" where
  "inc_drawdown ts pnl st =
     (let st1 = st\<lparr>is_equity := saturating_add (is_equity st) pnl\<rparr>
      in if is_pnl_count st1 = 1 then st1\<lparr>is_peak_equity := is_equity st1, is_peak_ts := ts\<rparr>
         else if is_equity st1 > is_peak_equity st1 then
           st1\<lparr>is_peak_equity := is_equity st1, is_peak_ts := ts\<rparr>
         else if is_peak_equity st1 \<le> 0 then st1
         else
           let dd = f64_div (f64_of_int (sub_i64 (is_peak_equity st1) (is_equity st1)))
                      (f64_of_int (is_peak_equity st1));
               dd_pct = f64_min (f64_mul dd (f64_of_int 100)) (f64_of_int 100)
           in if f64_gt dd_pct (is_max_drawdown_pct st1) then
                st1\<lparr>is_max_drawdown_pct := dd_pct,
                    is_max_drawdown_duration := saturating_sub ts (is_peak_ts st1)\<rparr>
              else st1)"

definition inc_on_pnl :: "ts_exchange_ns \<Rightarrow> i64 \<Rightarrow> bool \<Rightarrow> incremental_stats \<Rightarrow> incremental_stats" where
  "inc_on_pnl ts pnl is_trade st =
     inc_drawdown ts pnl (inc_moments pnl (inc_sums pnl is_trade st))"

definition inc_sharpe_ratio :: "incremental_stats \<Rightarrow> f64" where
  "inc_sharpe_ratio st =
     (if is_pnl_count st < 2 then f64_zero
      else
        let var = f64_div (is_pnl_m2 st) (f64_sub (f64_of_int (int (is_pnl_count st))) (f64_of_int 1));
            std = f64_sqrt var
        in if f64_eq std f64_zero then f64_zero else f64_div (is_pnl_mean st) std)"

definition inc_sortino_ratio :: "incremental_stats \<Rightarrow> f64" where
  "inc_sortino_ratio st =
     (if is_pnl_count st < 2 then f64_zero
      else
        let downside_var = f64_div (is_downside_sq_sum st) (f64_of_int (int (is_pnl_count st)));
            downside_std = f64_sqrt downside_var
        in if f64_eq downside_std f64_zero then f64_zero else f64_div (is_pnl_mean st) downside_std)"

definition inc_avg_holding_period :: "incremental_stats \<Rightarrow> i64" where
  "inc_avg_holding_period st =
     (if is_closed_trades st > 0
      then wrap_i64 (is_total_holding_period st sdiv wrap_i64 (int (is_closed_trades st)))
      else 0)"

section \<open>The trade log\<close>

record trade_log =
  tl_mode :: trade_log_mode
  tl_fills :: "trade_fill list"
  tl_fills_ring :: "trade_fill list"
  tl_pnl_history :: "(ts_exchange_ns \<times> i64) list"
  tl_incremental :: incremental_stats

definition trade_log_new :: "trade_log_mode \<Rightarrow> trade_log" where
  "trade_log_new mode =
     \<lparr>tl_mode = mode, tl_fills = [], tl_fills_ring = [], tl_pnl_history = [],
      tl_incremental = incremental_default\<rparr>"

definition update_incremental_fill :: "trade_fill \<Rightarrow> trade_log \<Rightarrow> trade_log" where
  "update_incremental_fill fill lg = lg\<lparr>tl_incremental := inc_on_fill fill (tl_incremental lg)\<rparr>"

definition push_fill :: "trade_fill \<Rightarrow> trade_log \<Rightarrow> trade_log" where
  "push_fill fill lg =
     (case tl_mode lg of
        LogAll \<Rightarrow> update_incremental_fill fill (lg\<lparr>tl_fills := tl_fills lg @ [fill]\<rparr>)
      | RingBuffer cap \<Rightarrow>
          let ring = (if length (tl_fills_ring lg) \<ge> cap then tl (tl_fills_ring lg) else tl_fills_ring lg)
          in update_incremental_fill fill (lg\<lparr>tl_fills_ring := ring @ [fill]\<rparr>)
      | SummaryOnly \<Rightarrow> update_incremental_fill fill lg
      | LogNone \<Rightarrow> lg)"

definition update_incremental_pnl :: "ts_exchange_ns \<Rightarrow> i64 \<Rightarrow> bool \<Rightarrow> trade_log \<Rightarrow> trade_log" where
  "update_incremental_pnl ts pnl is_trade lg =
     (if tl_mode lg = LogNone then lg
      else lg\<lparr>tl_incremental := inc_on_pnl ts pnl is_trade (tl_incremental lg)\<rparr>)"

definition push_pnl_event :: "pnl_event \<Rightarrow> trade_log \<Rightarrow> trade_log" where
  "push_pnl_event ev lg =
     (let log1 = (if tl_mode lg \<noteq> LogNone
                  then lg\<lparr>tl_pnl_history := tl_pnl_history lg @ [(pe_ts_exchange ev, pe_pnl ev)]\<rparr>
                  else lg)
      in update_incremental_pnl (pe_ts_exchange ev) (pe_pnl ev) False log1)"

definition push_pnl_delta :: "ts_exchange_ns \<Rightarrow> i64 \<Rightarrow> trade_log \<Rightarrow> trade_log" where
  "push_pnl_delta ts pnl lg =
     (let log1 = (if tl_mode lg \<noteq> LogNone
                  then lg\<lparr>tl_pnl_history := tl_pnl_history lg @ [(ts, pnl)]\<rparr> else lg)
      in update_incremental_pnl ts pnl True log1)"

definition fills_vec :: "trade_log \<Rightarrow> trade_fill list" where
  "fills_vec lg =
     (case tl_mode lg of
        LogAll \<Rightarrow> tl_fills lg
      | RingBuffer _ \<Rightarrow> tl_fills_ring lg
      | _ \<Rightarrow> [])"

definition log_len :: "trade_log \<Rightarrow> usize" where
  "log_len lg =
     (case tl_mode lg of
        LogAll \<Rightarrow> length (tl_fills lg)
      | RingBuffer _ \<Rightarrow> length (tl_fills_ring lg)
      | SummaryOnly \<Rightarrow> is_total_trades (tl_incremental lg)
      | LogNone \<Rightarrow> 0)"

definition log_is_empty :: "trade_log \<Rightarrow> bool" where
  "log_is_empty lg \<longleftrightarrow> log_len lg = 0"

definition full_pnl_history :: "trade_log \<Rightarrow> (ts_exchange_ns \<times> i64) list" where
  "full_pnl_history lg = (if tl_mode lg = LogNone then [] else tl_pnl_history lg)"

section \<open>PnL per fill\<close>

record pnl_delta =
  pd_ts_exchange :: ts_exchange_ns
  pd_pnl :: i64
  pd_holding_period :: i64

text \<open>One round of the loop of \<open>pnl_deltas_from_fills\<close>.\<close>

definition pnl_delta_step :: "trade_fill \<Rightarrow> (u32, pos_state) btree \<Rightarrow> pnl_delta \<times> (u32, pos_state) btree" where
  "pnl_delta_step f states =
     (let zero = \<lparr>pd_ts_exchange = tf_ts_exchange f, pd_pnl = 0, pd_holding_period = 0\<rparr>
      in if tf_qty f \<le> 0 then (zero, states)
         else
           let delta_qty = signed_qty (tf_side f) (tf_qty f)
           in if delta_qty = 0 then (zero, states)
              else
                let s = pos_entry states (tf_symbol_id f)
                in if ps_qty s = 0 \<or> sgn (ps_qty s) = sgn delta_qty then
                     (zero, bt_insert (tf_symbol_id f)
                        (pos_open (tf_ts_exchange f) delta_qty (tf_price f) s) states)
                   else
                     let pnl = realized_pnl (ps_qty s) (ps_avg_price s) delta_qty (tf_price f)
                     in (\<lparr>pd_ts_exchange = tf_ts_exchange f, pd_pnl = pnl,
                          pd_holding_period =
                            (if pnl \<noteq> 0 then saturating_sub (tf_ts_exchange f) (ps_last_open_ts s) else 0)\<rparr>,
                         bt_insert (tf_symbol_id f)
                           (pos_close (tf_ts_exchange f) delta_qty (tf_price f) s) states))"

fun pnl_deltas_loop :: "trade_fill list \<Rightarrow> (u32, pos_state) btree \<Rightarrow> pnl_delta list" where
  "pnl_deltas_loop [] states = []"
| "pnl_deltas_loop (f # fills) states =
     (let (d, states') = pnl_delta_step f states in d # pnl_deltas_loop fills states')"

definition pnl_deltas_from_fills :: "trade_fill list \<Rightarrow> pnl_delta list" where
  "pnl_deltas_from_fills fills = pnl_deltas_loop fills []"

section \<open>Equity curve and drawdown\<close>

fun equity_loop :: "i64 \<Rightarrow> (ts_exchange_ns \<times> i64) list \<Rightarrow> (ts_exchange_ns \<times> i64) list" where
  "equity_loop equity [] = []"
| "equity_loop equity ((ts, d) # deltas) =
     (let equity' = saturating_add equity d in (ts, equity') # equity_loop equity' deltas)"

definition equity_curve_from_pnl_deltas :: "(ts_exchange_ns \<times> i64) list \<Rightarrow> (ts_exchange_ns \<times> i64) list" where
  "equity_curve_from_pnl_deltas deltas = equity_loop 0 deltas"

text \<open>
  The unrolled version takes four entries per round while four are left, and then the rest one
  by one.
\<close>

fun equity_simd_loop :: "i64 \<Rightarrow> (ts_exchange_ns \<times> i64) list \<Rightarrow> (ts_exchange_ns \<times> i64) list" where
  "equity_simd_loop equity ((ts0, d0) # (ts1, d1) # (ts2, d2) # (ts3, d3) # deltas) =
     (let e0 = saturating_add equity d0;
          e1 = saturating_add e0 d1;
          e2 = saturating_add e1 d2;
          e3 = saturating_add e2 d3
      in (ts0, e0) # (ts1, e1) # (ts2, e2) # (ts3, e3) # equity_simd_loop e3 deltas)"
| "equity_simd_loop equity deltas = equity_loop equity deltas"

definition equity_curve_from_pnl_deltas_simd :: "(ts_exchange_ns \<times> i64) list \<Rightarrow> (ts_exchange_ns \<times> i64) list" where
  "equity_curve_from_pnl_deltas_simd deltas = equity_simd_loop 0 deltas"

record drawdown_state =
  dd_peak_ts :: ts_exchange_ns
  dd_peak_eq :: i64
  dd_max :: f64
  dd_dur :: i64

definition drawdown_step :: "ts_exchange_ns \<times> i64 \<Rightarrow> drawdown_state \<Rightarrow> drawdown_state" where
  "drawdown_step p st =
     (let (ts, eq) = p in
      if eq > dd_peak_eq st then st\<lparr>dd_peak_eq := eq, dd_peak_ts := ts\<rparr>
      else if dd_peak_eq st \<le> 0 then st
      else
        let dd = f64_div (f64_of_int (sub_i64 (dd_peak_eq st) eq)) (f64_of_int (dd_peak_eq st))
        in if f64_gt dd (dd_max st)
           then st\<lparr>dd_max := f64_min dd (f64_of_int 1), dd_dur := saturating_sub ts (dd_peak_ts st)\<rparr>
           else st)"

definition max_drawdown_pct_and_duration :: "(ts_exchange_ns \<times> i64) list \<Rightarrow> f64 \<times> i64" where
  "max_drawdown_pct_and_duration equity_curve =
     (case equity_curve of
        [] \<Rightarrow> (f64_zero, 0)
      | (peak_ts, peak_eq) # rest \<Rightarrow>
          let st = fold drawdown_step rest
                \<lparr>dd_peak_ts = peak_ts, dd_peak_eq = peak_eq, dd_max = f64_zero, dd_dur = 0\<rparr>
          in (f64_mul (dd_max st) (f64_of_int 100), dd_dur st))"

section \<open>Ratios over a PnL series\<close>

definition f64_sum :: "f64 list \<Rightarrow> f64" where
  "f64_sum xs = foldl f64_add f64_zero xs"

definition sharpe_ratio_from_pnl_series :: "i64 list \<Rightarrow> f64" where
  "sharpe_ratio_from_pnl_series pnl =
     (let n = f64_of_int (int (length pnl)) in
      if length pnl < 2 then f64_zero
      else
        let mean = f64_div (f64_sum (map f64_of_int pnl)) n;
            var = f64_div (f64_sum (map (\<lambda>x. let d = f64_sub (f64_of_int x) mean in f64_mul d d) pnl))
                    (f64_sub n (f64_of_int 1));
            std = f64_sqrt var
        in if f64_eq std f64_zero then f64_zero else f64_div mean std)"

definition sortino_ratio_from_pnl_series :: "i64 list \<Rightarrow> f64" where
  "sortino_ratio_from_pnl_series pnl =
     (let n = f64_of_int (int (length pnl)) in
      if length pnl < 2 then f64_zero
      else
        let mean = f64_div (f64_sum (map f64_of_int pnl)) n;
            downside_var = f64_div
              (f64_sum (map (\<lambda>x. let d = f64_sub (f64_of_int x) f64_zero
                                in if f64_lt d f64_zero then f64_mul d d else f64_zero) pnl)) n;
            downside_std = f64_sqrt downside_var
        in if f64_eq downside_std f64_zero then f64_zero else f64_div mean downside_std)"

type_synonym par_reduce =
  "f64 \<times> f64 \<Rightarrow> (f64 \<times> f64 \<Rightarrow> f64 \<times> f64 \<Rightarrow> f64 \<times> f64) \<Rightarrow> (f64 \<times> f64) list \<Rightarrow> f64 \<times> f64"

definition add_pair :: "f64 \<times> f64 \<Rightarrow> f64 \<times> f64 \<Rightarrow> f64 \<times> f64" where
  "add_pair acc v = (f64_add (fst acc) (fst v), f64_add (snd acc) (snd v))"

definition sharpe_ratio_from_pnl_series_parallel :: "par_reduce \<Rightarrow> i64 list \<Rightarrow> f64" where
  "sharpe_ratio_from_pnl_series_parallel par_reduce pnl =
     (let n = f64_of_int (int (length pnl)) in
      if length pnl < 2 then f64_zero
      else
        let (sum, sum_sq) = par_reduce (f64_zero, f64_zero) add_pair
              (map (\<lambda>x. let v = f64_of_int x in (v, f64_mul v v)) pnl);
            mean = f64_div sum n;
            numerator = f64_sub sum_sq (f64_mul (f64_mul n mean) mean);
            var = f64_div (f64_max numerator f64_zero) (f64_sub n (f64_of_int 1));
            std = f64_sqrt var
        in if f64_eq std f64_zero then f64_zero else f64_div mean std)"

definition sortino_ratio_from_pnl_series_parallel :: "par_reduce \<Rightarrow> i64 list \<Rightarrow> f64" where
  "sortino_ratio_from_pnl_series_parallel par_reduce pnl =
     (let n = f64_of_int (int (length pnl)) in
      if length pnl < 2 then f64_zero
      else
        let (sum, downside_sq_sum) = par_reduce (f64_zero, f64_zero) add_pair
              (map (\<lambda>x. let v = f64_of_int x
                        in (v, if f64_lt v f64_zero then f64_mul v v else f64_zero)) pnl);
            mean = f64_div sum n;
            downside_var = f64_div downside_sq_sum n;
            downside_std = f64_sqrt downside_var
        in if f64_eq downside_std f64_zero then f64_zero else f64_div mean downside_std)"

section \<open>The summary\<close>

record backtest_stats =
  bs_total_trades :: u64
  bs_win_rate :: f64
  bs_profit_factor :: f64
  bs_sharpe_ratio :: f64
  bs_sortino_ratio :: f64
  bs_max_drawdown :: f64
  bs_max_drawdown_duration :: i64
  bs_calmar_ratio :: f64
  bs_total_pnl :: i64
  bs_avg_trade_pnl :: i64
  bs_avg_holding_period :: i64
  bs_total_fees_paid :: i64
  bs_killed :: bool

definition backtest_stats_default :: backtest_stats where
  "backtest_stats_default =
     \<lparr>bs_total_trades = 0, bs_win_rate = f64_zero, bs_profit_factor = f64_zero,
      bs_sharpe_ratio = f64_zero, bs_sortino_ratio = f64_zero, bs_max_drawdown = f64_zero,
      bs_max_drawdown_duration = 0, bs_calmar_ratio = f64_zero, bs_total_pnl = 0,
      bs_avg_trade_pnl = 0, bs_avg_holding_period = 0, bs_total_fees_paid = 0, bs_killed = False\<rparr>"

definition inc_win_rate :: "incremental_stats \<Rightarrow> f64" where
  "inc_win_rate inc =
     (if is_closed_trades inc > 0
      then f64_div (f64_of_int (int (is_win_count inc))) (f64_of_int (int (is_closed_trades inc)))
      else f64_zero)"

definition inc_profit_factor :: "incremental_stats \<Rightarrow> f64" where
  "inc_profit_factor inc =
     (if is_gross_loss inc < 0
      then f64_div (f64_of_int (is_gross_profit inc)) (f64_of_int (neg_i64 (is_gross_loss inc)))
      else if is_gross_profit inc > 0 then f64_infinity
      else f64_zero)"

definition inc_calmar :: "incremental_stats \<Rightarrow> f64" where
  "inc_calmar inc =
     (if f64_gt (is_max_drawdown_pct inc) f64_zero then
        let pnl_units = f64_div (f64_of_int (is_total_pnl inc)) (f64_of_int SCALE)
        in f64_div pnl_units (f64_div (is_max_drawdown_pct inc) (f64_of_int 100))
      else f64_zero)"

definition inc_avg_trade_pnl :: "incremental_stats \<Rightarrow> i64" where
  "inc_avg_trade_pnl inc =
     (if is_closed_trades inc > 0
      then wrap_i64 (is_total_pnl inc sdiv wrap_i64 (int (is_closed_trades inc))) else 0)"

text \<open>The part of the summary both entry points share; they differ in the two ratios.\<close>

definition stats_from :: "incremental_stats \<Rightarrow> f64 \<Rightarrow> f64 \<Rightarrow> backtest_stats" where
  "stats_from inc sharpe sortino =
     \<lparr>bs_total_trades = is_total_trades inc, bs_win_rate = inc_win_rate inc,
      bs_profit_factor = inc_profit_factor inc, bs_sharpe_ratio = sharpe, bs_sortino_ratio = sortino,
      bs_max_drawdown = is_max_drawdown_pct inc,
      bs_max_drawdown_duration = is_max_drawdown_duration inc, bs_calmar_ratio = inc_calmar inc,
      bs_total_pnl = is_total_pnl inc, bs_avg_trade_pnl = inc_avg_trade_pnl inc,
      bs_avg_holding_period = inc_avg_holding_period inc,
      bs_total_fees_paid = is_total_fees_paid inc, bs_killed = False\<rparr>"

record stats_backend =
  sb_sharpe :: "i64 list \<Rightarrow> f64"
  sb_sortino :: "i64 list \<Rightarrow> f64"

definition cpu_stats_backend :: "par_reduce \<Rightarrow> stats_backend" where
  "cpu_stats_backend par_reduce =
     \<lparr>sb_sharpe = sharpe_ratio_from_pnl_series_parallel par_reduce,
      sb_sortino = sortino_ratio_from_pnl_series_parallel par_reduce\<rparr>"

definition calculate_stats_with_backend :: "stats_backend \<Rightarrow> trade_log \<Rightarrow> backtest_stats" where
  "calculate_stats_with_backend backend lg =
     (if tl_mode lg = LogNone then backtest_stats_default
      else
        let pnl_vec = map snd (tl_pnl_history lg)
        in stats_from (tl_incremental lg) (sb_sharpe backend pnl_vec) (sb_sortino backend pnl_vec))"

definition calculate_stats :: "par_reduce \<Rightarrow> trade_log \<Rightarrow> backtest_stats" where
  "calculate_stats par_reduce lg =
     (let inc = tl_incremental lg in
      if tl_mode lg = LogNone then backtest_stats_default
      else
        let pnl_vec = map snd (tl_pnl_history lg);
            (sharpe, sortino) =
              (if length (tl_pnl_history lg) > 10000
               then (sharpe_ratio_from_pnl_series_parallel par_reduce pnl_vec,
                     sortino_ratio_from_pnl_series_parallel par_reduce pnl_vec)
               else (inc_sharpe_ratio inc, inc_sortino_ratio inc))
        in stats_from inc sharpe sortino)"

end
