(* ===== verification/StatsProps.thy ===== *)
theory StatsProps
  imports Stats
begin

text \<open>
  What the statistics of \<open>stats.rs\<close> guarantee: the unrolled equity curve is the plain one, the
  ring buffer keeps exactly the latest fills, the PnL per fill is the one the account realises,
  the incremental counters are those of the batch reconstruction, and the drawdown is a
  percentage.
\<close>

section \<open>The unrolled equity curve\<close>

lemma equity_simd_loop_eq: "equity_simd_loop e deltas = equity_loop e deltas"
  by (induction e deltas rule: equity_simd_loop.induct) (simp_all add: Let_def)

text \<open>
  C23. The four-fold unrolled equity curve equals the plain one on every PnL history, whatever
  its length.
\<close>

theorem equity_curve_simd_equals:
  "equity_curve_from_pnl_deltas_simd deltas = equity_curve_from_pnl_deltas deltas"
  by (simp add: equity_curve_from_pnl_deltas_simd_def equity_curve_from_pnl_deltas_def
      equity_simd_loop_eq)

lemma equity_loop_length [simp]: "length (equity_loop e deltas) = length deltas"
  by (induction e deltas rule: equity_loop.induct) (simp_all add: Let_def)

lemma equity_loop_Nil_iff [simp]: "equity_loop e deltas = [] \<longleftrightarrow> deltas = []"
  by (cases "(e, deltas)" rule: equity_loop.cases) (simp_all add: Let_def)

lemma equity_loop_append:
  "equity_loop e (xs @ [(ts, d)]) =
     equity_loop e xs @ [(ts, saturating_add (foldl saturating_add e (map snd xs)) d)]"
  by (induction e xs rule: equity_loop.induct) (simp_all add: Let_def)

section \<open>Retention\<close>

lemma push_fill_mode [simp]: "tl_mode (push_fill f l) = tl_mode l"
  by (simp add: push_fill_def update_incremental_fill_def Let_def split: trade_log_mode.split)

lemma push_fill_ring:
  "tl_mode l = RingBuffer cap \<Longrightarrow> tl_fills_ring (push_fill f l) =
     (if length (tl_fills_ring l) \<ge> cap then tl (tl_fills_ring l) else tl_fills_ring l) @ [f]"
  by (simp add: push_fill_def update_incremental_fill_def Let_def)

lemma fold_push_fill_mode [simp]: "tl_mode (fold push_fill fs l) = tl_mode l"
  by (induction fs arbitrary: l) auto

lemma ring_keeps_last:
  "tl_fills_ring (fold push_fill fs (trade_log_new (RingBuffer cap))) = drop (length fs - max 1 cap) fs"
proof (induction fs rule: rev_induct)
  case Nil
  then show ?case by (simp add: trade_log_new_def)
next
  case (snoc f fs)
  let ?l = "fold push_fill fs (trade_log_new (RingBuffer cap))"
  have mode: "tl_mode ?l = RingBuffer cap" by (simp add: trade_log_new_def)
  show ?case
    by (auto simp: push_fill_ring [OF mode] snoc max_def Suc_diff_le not_le tl_drop
        simp flip: drop_Suc)
qed

text \<open>
  C23. In ring-buffer mode the log holds the most recent fills in order and nothing else: the
  last \<open>cap\<close> of them, or a single one when the capacity is 0.
\<close>

theorem ring_buffer_keeps_latest:
  "fills_vec (fold push_fill fs (trade_log_new (RingBuffer cap))) = drop (length fs - max 1 cap) fs"
proof -
  have "tl_mode (fold push_fill fs (trade_log_new (RingBuffer cap))) = RingBuffer cap"
    by (simp add: trade_log_new_def)
  then show ?thesis by (simp add: fills_vec_def ring_keeps_last)
qed

section \<open>Three copies of the position arithmetic\<close>

text \<open>
  The fills of a log as the orders and quantities the account saw: \<open>ord f\<close> is the order behind
  fill \<open>f\<close>.
\<close>

definition matches :: "order \<Rightarrow> trade_fill \<Rightarrow> bool" where
  "matches ord f \<longleftrightarrow> od_symbol_id ord = tf_symbol_id f \<and> od_side ord = tf_side f \<and> 0 \<le> tf_qty f"

fun account_pnls :: "(trade_fill \<Rightarrow> order) \<Rightarrow> trade_fill list \<Rightarrow> account \<Rightarrow> i64 list" where
  "account_pnls ord [] a = []"
| "account_pnls ord (f # fs) a =
     (let (pnl, a') = on_fill (ord f) (tf_qty f) (tf_price f) a in pnl # account_pnls ord fs a')"

text \<open>The account and the states of the statistics agree on quantity and average price.\<close>

definition same_pos :: "account \<Rightarrow> (u32, pos_state) btree \<Rightarrow> bool" where
  "same_pos a m \<longleftrightarrow> bt_wf (ac_positions a) \<and> bt_wf m \<and>
     (\<forall>s. po_qty (acc_entry a s) = ps_qty (pos_entry m s) \<and>
          po_avg_price (acc_entry a s) = ps_avg_price (pos_entry m s))"

lemma pos_entry_insert:
  "bt_wf m \<Longrightarrow> pos_entry (bt_insert s p m) s' = (if s' = s then p else pos_entry m s')"
  by (simp add: pos_entry_def)

lemma signed_qty_0 [simp]: "signed_qty s 0 = 0"
  by (simp add: signed_qty_def neg_i64_def split: side.split)

lemma pos_open_fields:
  "ps_qty (pos_open ts d p s) = saturating_add (ps_qty s) d"
  "ps_avg_price (pos_open ts d p s) = weighted_price (ps_qty s) (ps_avg_price s) d p"
  by (simp_all add: pos_open_def Let_def)

lemma pos_close_fields:
  "ps_qty (pos_close ts d p s) = saturating_add (ps_qty s) d"
  "ps_avg_price (pos_close ts d p s) =
     (if saturating_add (ps_qty s) d = 0 then 0
      else if sgn (saturating_add (ps_qty s) d) = sgn (ps_qty s) then ps_avg_price s else p)"
  by (simp_all add: pos_close_def Let_def)

lemma delta_step_matches:
  assumes "same_pos a m" and "matches ord f"
    and "pnl_delta_step f m = (d, m')" and "on_fill ord (tf_qty f) (tf_price f) a = (pnl, a')"
  shows "pd_pnl d = pnl \<and> same_pos a' m'"
proof (cases "signed_qty (tf_side f) (tf_qty f) = 0")
  case True
  then have "on_fill ord (tf_qty f) (tf_price f) a = (0, a)"
    using assms(2) by (simp add: on_fill_zero matches_def)
  moreover from True have "m' = m \<and> pd_pnl d = 0"
    using assms(3) by (auto simp: pnl_delta_step_def Let_def split: if_splits)
  ultimately show ?thesis using assms(1,4) by simp
next
  case False
  let ?d = "signed_qty (tf_side f) (tf_qty f)" and ?s = "tf_symbol_id f"
  have pos: "\<not> tf_qty f \<le> 0" using False assms(2) by (auto simp: matches_def)
  have ord: "od_side ord = tf_side f" "od_symbol_id ord = ?s" using assms(2) by (simp_all add: matches_def)
  have wf: "bt_wf (ac_positions a)" "bt_wf m"
    and same: "po_qty (acc_entry a s) = ps_qty (pos_entry m s)"
      "po_avg_price (acc_entry a s) = ps_avg_price (pos_entry m s)" for s
    using assms(1) by (simp_all add: same_pos_def)
  let ?opens = "ps_qty (pos_entry m ?s) = 0 \<or> sgn (ps_qty (pos_entry m ?s)) = sgn ?d"
  note eqs = on_fill_eq [of ord, unfolded ord, OF False]
  show ?thesis
  proof (cases ?opens)
    case True
    then show ?thesis
      using assms(3,4) pos False wf same
      by (auto simp: eqs pnl_delta_step_def Let_def position_fill_def same_pos_def acc_entry_insert
          pos_entry_insert pos_open_fields)
  next
    case closes: False
    then show ?thesis
      using assms(3,4) pos False wf same
      by (auto simp: eqs pnl_delta_step_def Let_def position_fill_def same_pos_def acc_entry_insert
          pos_entry_insert pos_close_fields)
  qed
qed

lemma pnl_deltas_length [simp]: "length (pnl_deltas_loop fs m) = length fs"
  by (induction fs arbitrary: m) (auto split: prod.split)

lemma deltas_loop_matches:
  "same_pos a m \<Longrightarrow> \<forall>f\<in>set fs. matches (ord f) f \<Longrightarrow>
   map pd_pnl (pnl_deltas_loop fs m) = account_pnls ord fs a"
proof (induction fs arbitrary: a m)
  case (Cons f fs)
  obtain d m' where d: "pnl_delta_step f m = (d, m')" by force
  obtain pnl a' where p: "on_fill (ord f) (tf_qty f) (tf_price f) a = (pnl, a')" by force
  from delta_step_matches [OF Cons.prems(1) _ d p] Cons.prems(2) have "pd_pnl d = pnl" "same_pos a' m'"
    by simp_all
  with Cons d p show ?case by simp
qed simp

text \<open>
  C20. The PnL that the statistics reconstruct from the trade log, fill by fill, is the PnL the
  account realised on these fills, over any number of symbols: the two implementations of
  average-cost accounting agree, saturation and truncation included.
\<close>

theorem pnl_reconstruction_matches_account:
  assumes "\<forall>f\<in>set fills. matches (ord f) f"
  shows "map pd_pnl (pnl_deltas_from_fills fills) = account_pnls ord fills account_new"
proof -
  have "same_pos account_new []"
    by (simp add: same_pos_def account_new_def acc_entry_def pos_entry_def position_default_def
        pos_state_default_def)
  then show ?thesis unfolding pnl_deltas_from_fills_def using assms by (rule deltas_loop_matches)
qed

definition sample_fill :: "i64 \<Rightarrow> side \<Rightarrow> i64 \<Rightarrow> i64 \<Rightarrow> trade_fill" where
  "sample_fill ts s price qty = \<lparr>tf_ts_exchange = ts, tf_order_id = 1, tf_price = price, tf_qty = qty,
     tf_fee = 2, tf_symbol_id = 7, tf_side = s, tf_is_taker = False\<rparr>"

definition fill_order :: "trade_fill \<Rightarrow> order" where
  "fill_order f = \<lparr>od_order_id = tf_order_id f, od_client_order_id = 0, od_ts_submit = 0, od_seq = 0,
     od_price = tf_price f, od_qty = tf_qty f, od_symbol_id = tf_symbol_id f, od_side = tf_side f,
     od_order_type = Limit\<rparr>"

theorem pnl_reconstruction_matches_account_witness:
  "map pd_pnl (pnl_deltas_from_fills [sample_fill 1 Buy 100 300000000, sample_fill 2 Sell 150 200000000])
   = [0, 100]"
proof -
  let ?fs = "[sample_fill 1 Buy 100 300000000, sample_fill 2 Sell 150 200000000]"
  have "\<forall>f\<in>set ?fs. matches (fill_order f) f" by (simp add: matches_def fill_order_def sample_fill_def)
  then have "map pd_pnl (pnl_deltas_from_fills ?fs) = account_pnls fill_order ?fs account_new"
    by (rule pnl_reconstruction_matches_account)
  also have "\<dots> = [0, 100]" by code_simp
  finally show ?thesis .
qed

section \<open>Incremental counters and the batch reconstruction\<close>

lemma inc_on_fill_step:
  assumes "pnl_delta_step f (is_pos_state st) = (d, m')" and "in_i64 (is_total_holding_period st)"
  shows "is_pos_state (inc_on_fill f st) = m' \<and>
    is_closed_trades (inc_on_fill f st) =
      (if pd_pnl d \<noteq> 0 then u64_wrapping_succ (is_closed_trades st) else is_closed_trades st) \<and>
    is_total_holding_period (inc_on_fill f st) =
      saturating_add (is_total_holding_period st) (pd_holding_period d) \<and>
    is_total_trades (inc_on_fill f st) = u64_wrapping_succ (is_total_trades st) \<and>
    is_total_fees_paid (inc_on_fill f st) = saturating_add (is_total_fees_paid st) (tf_fee f)"
  using assms
  by (auto simp: inc_on_fill_def pnl_delta_step_def Let_def saturating_add_exact split: if_splits)

lemma u64_succ_add: "n + Suc k < u64_modulus \<Longrightarrow> u64_wrapping_succ n = Suc n"
  by (simp add: u64_wrapping_succ_def)

lemma inc_fold_matches:
  assumes "is_total_trades st + length fs < u64_modulus" and "is_closed_trades st + length fs < u64_modulus"
    and "in_i64 (is_total_holding_period st)"
  defines "ds \<equiv> pnl_deltas_loop fs (is_pos_state st)"
  shows "is_total_trades (fold inc_on_fill fs st) = is_total_trades st + length fs \<and>
    is_closed_trades (fold inc_on_fill fs st) =
      is_closed_trades st + length (filter (\<lambda>d. pd_pnl d \<noteq> 0) ds) \<and>
    is_total_holding_period (fold inc_on_fill fs st) =
      foldl saturating_add (is_total_holding_period st) (map pd_holding_period ds) \<and>
    is_total_fees_paid (fold inc_on_fill fs st) =
      foldl saturating_add (is_total_fees_paid st) (map tf_fee fs)"
  using assms(1-3) unfolding ds_def
proof (induction fs arbitrary: st)
  case (Cons f fs)
  obtain d m' where d: "pnl_delta_step f (is_pos_state st) = (d, m')" by force
  note step = inc_on_fill_step [OF d Cons.prems(3)]
  have succ: "u64_wrapping_succ (is_total_trades st) = Suc (is_total_trades st)"
    "u64_wrapping_succ (is_closed_trades st) = Suc (is_closed_trades st)"
    using Cons.prems by (simp_all add: u64_succ_exact)
  with Cons.IH [of "inc_on_fill f st"] Cons.prems step show ?case by (auto simp: d)
qed simp

section \<open>Equity and drawdown\<close>

text \<open>A PnL entry as the log receives it: time, amount, and whether a trade realised it.\<close>

type_synonym pnl_entry = "ts_exchange_ns \<times> i64 \<times> bool"

definition push_pnl :: "pnl_entry \<Rightarrow> trade_log \<Rightarrow> trade_log" where
  "push_pnl e l =
     (let (ts, pnl, is_trade) = e
      in if is_trade then push_pnl_delta ts pnl l
         else push_pnl_event \<lparr>pe_ts_exchange = ts, pe_pnl = pnl\<rparr> l)"

lemma inc_on_pnl_sums [simp]:
  "is_total_pnl (inc_on_pnl ts pnl b st) = saturating_add (is_total_pnl st) pnl"
  "is_equity (inc_on_pnl ts pnl b st) = saturating_add (is_equity st) pnl"
  "is_pnl_count (inc_on_pnl ts pnl b st) = u64_wrapping_succ (is_pnl_count st)"
  by (simp_all add: inc_on_pnl_def inc_drawdown_def inc_moments_def inc_sums_def Let_def)

lemma push_pnl_fields:
  "tl_mode (push_pnl e l) = tl_mode l"
  "tl_mode l \<noteq> LogNone \<Longrightarrow> tl_pnl_history (push_pnl e l) = tl_pnl_history l @ [(fst e, fst (snd e))]"
  "tl_mode l \<noteq> LogNone \<Longrightarrow>
     tl_incremental (push_pnl e l) = inc_on_pnl (fst e) (fst (snd e)) (snd (snd e)) (tl_incremental l)"
  by (simp_all add: push_pnl_def push_pnl_delta_def push_pnl_event_def update_incremental_pnl_def
      Let_def split: prod.split)

lemma fold_push_pnl_mode [simp]: "tl_mode (fold push_pnl es l) = tl_mode l"
  by (induction es arbitrary: l) (simp_all add: push_pnl_fields)

lemma fold_push_pnl:
  assumes "mode \<noteq> LogNone"
  defines "l \<equiv> \<lambda>es. fold push_pnl es (trade_log_new mode)"
  shows "tl_pnl_history (l es) = map (\<lambda>e. (fst e, fst (snd e))) es"
    and "is_total_pnl (tl_incremental (l es)) = foldl saturating_add 0 (map (\<lambda>e. fst (snd e)) es)"
    and "is_equity (tl_incremental (l es)) = foldl saturating_add 0 (map (\<lambda>e. fst (snd e)) es)"
proof (induction es rule: rev_induct)
  case Nil
  show "tl_pnl_history (l []) = map (\<lambda>e. (fst e, fst (snd e))) []"
    and "is_total_pnl (tl_incremental (l [])) = foldl saturating_add 0 (map (\<lambda>e. fst (snd e)) [])"
    and "is_equity (tl_incremental (l [])) = foldl saturating_add 0 (map (\<lambda>e. fst (snd e)) [])"
    by (simp_all add: l_def trade_log_new_def incremental_default_def)
next
  case (snoc e es)
  have mode: "tl_mode (fold push_pnl es (trade_log_new mode)) \<noteq> LogNone"
    using assms(1) by (simp add: trade_log_new_def)
  show "tl_pnl_history (l (es @ [e])) = map (\<lambda>e. (fst e, fst (snd e))) (es @ [e])"
    and "is_total_pnl (tl_incremental (l (es @ [e]))) = foldl saturating_add 0 (map (\<lambda>e. fst (snd e)) (es @ [e]))"
    and "is_equity (tl_incremental (l (es @ [e]))) = foldl saturating_add 0 (map (\<lambda>e. fst (snd e)) (es @ [e]))"
    using snoc by (simp_all add: l_def push_pnl_fields(2,3) [OF mode])
qed

lemma equity_loop_last:
  "deltas \<noteq> [] \<Longrightarrow> snd (last (equity_loop e deltas)) = foldl saturating_add e (map snd deltas)"
  by (induction e deltas rule: equity_loop.induct) (auto simp: Let_def)

text \<open>
  C22. In every mode that logs, whatever trade and funding PnL arrives, the history records all
  of it in order, and the running total and the running equity are both the last point of the
  equity curve of that history.
\<close>

theorem running_equity_matches_curve:
  assumes "mode \<noteq> LogNone" and "es \<noteq> []"
  shows "tl_pnl_history (fold push_pnl es (trade_log_new mode)) = map (\<lambda>(ts, pnl, b). (ts, pnl)) es \<and>
    is_total_pnl (tl_incremental (fold push_pnl es (trade_log_new mode))) =
      snd (last (equity_curve_from_pnl_deltas (tl_pnl_history (fold push_pnl es (trade_log_new mode))))) \<and>
    is_equity (tl_incremental (fold push_pnl es (trade_log_new mode))) =
      is_total_pnl (tl_incremental (fold push_pnl es (trade_log_new mode)))"
proof -
  note f = fold_push_pnl [OF assms(1), of es]
  have m: "map snd (map (\<lambda>e. (fst e, fst (snd e))) es) = map (\<lambda>e. fst (snd e)) es" by simp
  show ?thesis
    using assms(2) equity_loop_last [of "map (\<lambda>e. (fst e, fst (snd e))) es" 0]
    unfolding f m equity_curve_from_pnl_deltas_def by (simp add: case_prod_beta')
qed

theorem running_equity_matches_curve_witness:
  "is_equity (tl_incremental (fold push_pnl [(1, 50, True), (2, - 20, False)] (trade_log_new SummaryOnly)))
   = 30"
proof -
  have "snd (last (equity_curve_from_pnl_deltas [(1, 50), (2, - 20)])) = 30"
    by (simp add: equity_curve_from_pnl_deltas_def saturating_add_def clamp_i64_def)
  with running_equity_matches_curve [of SummaryOnly "[(1, 50, True), (2, - 20, False)]"]
  show ?thesis by simp
qed

section \<open>The counters of the log and of the summary\<close>

text \<open>Fills and PnL entries arrive interleaved; \<open>counters\<close> is what a PnL entry leaves alone.\<close>

definition push_entry :: "trade_fill + pnl_entry \<Rightarrow> trade_log \<Rightarrow> trade_log" where
  "push_entry e l = (case e of Inl f \<Rightarrow> push_fill f l | Inr p \<Rightarrow> push_pnl p l)"

fun entry_fills :: "(trade_fill + pnl_entry) list \<Rightarrow> trade_fill list" where
  "entry_fills [] = []"
| "entry_fills (Inl f # es) = f # entry_fills es"
| "entry_fills (Inr p # es) = entry_fills es"

definition counters :: "incremental_stats \<Rightarrow> u64 \<times> u64 \<times> i64 \<times> i64 \<times> (u32, pos_state) btree" where
  "counters st = (is_total_trades st, is_closed_trades st, is_total_holding_period st,
     is_total_fees_paid st, is_pos_state st)"

lemma counters_pnl [simp]: "counters (inc_on_pnl ts pnl b st) = counters st"
  by (simp add: counters_def inc_on_pnl_def inc_drawdown_def inc_moments_def inc_sums_def Let_def)

lemma counters_fill:
  assumes "counters st = counters st'" and "in_i64 (is_total_holding_period st)"
  shows "counters (inc_on_fill f st) = counters (inc_on_fill f st')" and
    "in_i64 (is_total_holding_period (inc_on_fill f st))"
proof -
  obtain d m' where d: "pnl_delta_step f (is_pos_state st) = (d, m')" by force
  from assms(1) have eq: "is_total_trades st' = is_total_trades st" "is_closed_trades st' = is_closed_trades st"
    "is_total_holding_period st' = is_total_holding_period st" "is_total_fees_paid st' = is_total_fees_paid st"
    "is_pos_state st' = is_pos_state st" by (simp_all add: counters_def)
  note step = inc_on_fill_step [OF d assms(2)]
    inc_on_fill_step [of f st', unfolded eq, OF d assms(2)]
  show "counters (inc_on_fill f st) = counters (inc_on_fill f st')" unfolding counters_def by (simp only: step)
  show "in_i64 (is_total_holding_period (inc_on_fill f st))"
    by (simp only: step saturating_add_def in_i64_clamp)
qed

lemma counters_fold:
  "counters st = counters st' \<Longrightarrow> in_i64 (is_total_holding_period st) \<Longrightarrow>
     counters (fold inc_on_fill fs st) = counters (fold inc_on_fill fs st')"
proof (induction fs arbitrary: st st')
  case (Cons f fs)
  from Cons.IH [OF counters_fill [OF Cons.prems]] show ?case by simp
qed simp

lemma push_entry_mode [simp]: "tl_mode (push_entry e l) = tl_mode l"
  by (simp add: push_entry_def push_pnl_fields split: sum.split)

lemma push_entry_counters:
  "tl_mode l \<noteq> LogNone \<Longrightarrow> counters (tl_incremental (push_entry e l)) =
     (case e of Inl f \<Rightarrow> counters (inc_on_fill f (tl_incremental l)) | Inr p \<Rightarrow> counters (tl_incremental l))"
  by (simp add: push_entry_def push_fill_def update_incremental_fill_def push_pnl_fields Let_def
      split: sum.split trade_log_mode.split)

lemma fold_push_entry:
  "tl_mode l \<noteq> LogNone \<Longrightarrow> in_i64 (is_total_holding_period (tl_incremental l)) \<Longrightarrow>
     counters (tl_incremental (fold push_entry es l)) =
     counters (fold inc_on_fill (entry_fills es) (tl_incremental l))"
proof (induction es arbitrary: l)
  case (Cons e es)
  let ?l1 = "push_entry e l"
  note step = push_entry_counters [OF Cons.prems(1), of e]
  have range: "in_i64 (is_total_holding_period (tl_incremental ?l1))"
  proof (cases e)
    case (Inl f)
    with step have "is_total_holding_period (tl_incremental ?l1) = is_total_holding_period (inc_on_fill f (tl_incremental l))"
      by (simp add: counters_def)
    then show ?thesis using counters_fill(2) [OF refl Cons.prems(2)] by simp
  next
    case (Inr p)
    with step Cons.prems(2) show ?thesis by (simp add: counters_def)
  qed
  have "counters (fold inc_on_fill (entry_fills es) (tl_incremental ?l1)) =
      counters (fold inc_on_fill (entry_fills (e # es)) (tl_incremental l))"
  proof (cases e)
    case (Inl f)
    with step have "counters (tl_incremental ?l1) = counters (inc_on_fill f (tl_incremental l))" by simp
    from counters_fold [OF this range] Inl show ?thesis by simp
  next
    case (Inr p)
    with step have "counters (tl_incremental ?l1) = counters (tl_incremental l)" by simp
    from counters_fold [OF this range] Inr show ?thesis by simp
  qed
  with Cons.IH [of ?l1] Cons.prems(1) range show ?case by simp
qed simp

lemma fold_push_entry_all:
  "tl_mode l = LogAll \<Longrightarrow> fills_vec (fold push_entry es l) = fills_vec l @ entry_fills es"
proof (induction es arbitrary: l)
  case (Cons e es)
  have "fills_vec (push_entry e l) = fills_vec l @ entry_fills [e]"
    using Cons.prems
    by (cases e) (simp_all add: push_entry_def fills_vec_def push_fill_def update_incremental_fill_def push_pnl_def
        push_pnl_delta_def push_pnl_event_def update_incremental_pnl_def Let_def split: prod.split)
  with Cons show ?case by (cases e) simp_all
qed simp

lemma foldl_add_closed:
  "in_i64 a \<Longrightarrow> \<forall>d\<in>set ds. pd_pnl d = 0 \<longrightarrow> pd_holding_period d = 0 \<Longrightarrow>
     foldl saturating_add a (map pd_holding_period ds) =
       foldl saturating_add a (map pd_holding_period (filter (\<lambda>d. pd_pnl d \<noteq> 0) ds))"
  by (induction ds arbitrary: a) (auto simp: saturating_add_exact saturating_add_def)

lemma foldl_add_in_i64: "in_i64 a \<Longrightarrow> in_i64 (foldl saturating_add a xs)"
  by (induction xs arbitrary: a) (simp_all add: saturating_add_def)

lemma holding_of_closed: "\<forall>d\<in>set (pnl_deltas_loop fs m). pd_pnl d = 0 \<longrightarrow> pd_holding_period d = 0"
  by (induction fs arbitrary: m) (auto simp: pnl_delta_step_def Let_def split: prod.splits if_splits)

lemma sdiv_in_i64: "in_i64 a \<Longrightarrow> 0 < n \<Longrightarrow> in_i64 (a sdiv n)"
  using sdiv_le_upper [of n a i64_max] sdiv_ge_lower [of n i64_min a]
  by (auto simp: in_i64_def)



text \<open>The logs a run can build.\<close>

inductive log_reach :: "trade_log \<Rightarrow> bool" where
  new: "log_reach (trade_log_new mode)"
| fill: "log_reach l \<Longrightarrow> log_reach (push_fill f l)"
| delta: "log_reach l \<Longrightarrow> log_reach (push_pnl_delta ts pnl l)"
| event: "log_reach l \<Longrightarrow> log_reach (push_pnl_event ev l)"

definition f64_between :: "rat \<Rightarrow> f64 \<Rightarrow> rat \<Rightarrow> bool" where
  "f64_between a x b \<longleftrightarrow> (case x of F64_Fin s m \<Rightarrow> a \<le> f64_val s m \<and> f64_val s m \<le> b | _ \<Rightarrow> False)"

lemma f64_min_100:
  assumes "f64_gt (f64_min x (f64_of_int 100)) y" and "f64_between 0 y 100"
  shows "f64_between 0 (f64_min x (f64_of_int 100)) 100"
proof -
  have c: "f64_of_int 100 = F64_Fin False 100" by (simp add: f64_of_int_small)
  from assms(2) obtain s m where y: "y = F64_Fin s m" "0 \<le> f64_val s m"
    by (cases y) (auto simp: f64_between_def)
  show ?thesis
    using assms(1) y unfolding c f64_gt_def
    by (cases x) (auto simp: f64_min_def f64_between_def f64_val_def split: if_splits)
qed

lemma inc_drawdown_between:
  assumes "f64_between 0 (is_max_drawdown_pct st) 100"
  shows "f64_between 0 (is_max_drawdown_pct (inc_on_pnl ts pnl b st)) 100"
proof -
  define st1 where "st1 = inc_moments pnl (inc_sums pnl b st)"
  have "f64_between 0 (is_max_drawdown_pct st1) 100"
    using assms by (simp add: st1_def inc_moments_def inc_sums_def Let_def)
  then have "f64_between 0 (is_max_drawdown_pct (inc_drawdown ts pnl st1)) 100"
    by (simp add: inc_drawdown_def Let_def f64_min_100)
  then show ?thesis by (simp add: inc_on_pnl_def st1_def)
qed

lemma inc_fill_drawdown [simp]: "is_max_drawdown_pct (inc_on_fill f st) = is_max_drawdown_pct st"
  by (simp add: inc_on_fill_def Let_def)

lemma log_reach_drawdown: "log_reach l \<Longrightarrow> f64_between 0 (is_max_drawdown_pct (tl_incremental l)) 100"
proof (induction rule: log_reach.induct)
  case (new mode)
  show ?case by (simp add: trade_log_new_def incremental_default_def f64_between_def f64_val_def)
next
  case (fill l f)
  then show ?case
    by (simp add: push_fill_def update_incremental_fill_def Let_def split: trade_log_mode.split)
next
  case (delta l ts pnl)
  then show ?case
    by (simp add: push_pnl_delta_def update_incremental_pnl_def Let_def inc_drawdown_between)
next
  case (event l ev)
  then show ?case
    by (simp add: push_pnl_event_def update_incremental_pnl_def Let_def inc_drawdown_between)
qed

text \<open>
  C24. The maximum drawdown in the summary is always a finite percentage between 0 and 100, for
  every log, even when the equity falls below zero and when differences overflow.
\<close>

theorem drawdown_is_percentage:
  assumes "log_reach l"
  shows "f64_between 0 (bs_max_drawdown (calculate_stats par_reduce l)) 100"
  using log_reach_drawdown [OF assms]
  by (simp add: calculate_stats_def stats_from_def backtest_stats_default_def Let_def
      f64_between_def [of _ f64_zero] f64_val_def case_prod_beta)

theorem drawdown_is_percentage_witness:
  "f64_between 0 (bs_max_drawdown (calculate_stats (\<lambda>z f. foldl f z)
     (push_pnl_delta 2 (- 50) (push_pnl_delta 1 100 (trade_log_new LogAll))))) 100"
  by (rule drawdown_is_percentage) (intro log_reach.intros)

lemma round_values:
  "f64_round False (3 / 2) = F64_Fin False (3 / 2)" "f64_round False (7 / 4) = F64_Fin False (7 / 4)"
  "f64_round False 150 = F64_Fin False 150" "f64_round False 175 = F64_Fin False 175"
proof -
  have p: "pow2 (- 1) = 1 / 2" "pow2 (- 2) = 1 / 4" by (simp_all add: pow2_def)
  show "f64_round False (3 / 2) = F64_Fin False (3 / 2)"
    using f64_round_exact [of 3 "- 1" False] by (simp add: p)
  show "f64_round False (7 / 4) = F64_Fin False (7 / 4)"
    using f64_round_exact [of 7 "- 2" False] by (simp add: p)
  show "f64_round False 150 = F64_Fin False 150" using f64_round_int [of 150 False] by simp
  show "f64_round False 175 = F64_Fin False 175" using f64_round_int [of 175 False] by simp
qed

lemma drawdown_values:
  "f64_of_int 100 = F64_Fin False 100" "f64_of_int 150 = F64_Fin False 150"
  "f64_of_int 175 = F64_Fin False 175" "f64_of_int 1 = F64_Fin False 1"
  "f64_div (F64_Fin False 150) (F64_Fin False 100) = F64_Fin False (3 / 2)"
  "f64_div (F64_Fin False 175) (F64_Fin False 100) = F64_Fin False (7 / 4)"
  "f64_mul (F64_Fin False (3 / 2)) (F64_Fin False 100) = F64_Fin False 150"
  "f64_mul (F64_Fin False (7 / 4)) (F64_Fin False 100) = F64_Fin False 175"
  by (simp_all add: f64_of_int_small round_values)

text \<open>The fields of the incremental statistics that the drawdown depends on.\<close>

definition dd_view :: "incremental_stats \<Rightarrow> u64 \<times> i64 \<times> i64 \<times> i64 \<times> f64 \<times> i64" where
  "dd_view st = (is_pnl_count st, is_equity st, is_peak_equity st, is_peak_ts st,
     is_max_drawdown_pct st, is_max_drawdown_duration st)"

definition dd_next :: "i64 \<Rightarrow> i64 \<Rightarrow> u64 \<times> i64 \<times> i64 \<times> i64 \<times> f64 \<times> i64 \<Rightarrow> u64 \<times> i64 \<times> i64 \<times> i64 \<times> f64 \<times> i64" where
  "dd_next ts pnl v =
     (let (count, equity, peak, peak_ts, pct, dur) = v;
          count' = u64_wrapping_succ count;
          equity' = saturating_add equity pnl
      in if count' = 1 \<or> equity' > peak then (count', equity', equity', ts, pct, dur)
         else if peak \<le> 0 then (count', equity', peak, peak_ts, pct, dur)
         else
           let dd = f64_div (f64_of_int (sub_i64 peak equity')) (f64_of_int peak);
               dd_pct = f64_min (f64_mul dd (f64_of_int 100)) (f64_of_int 100)
           in if f64_gt dd_pct pct then (count', equity', peak, peak_ts, dd_pct, saturating_sub ts peak_ts)
              else (count', equity', peak, peak_ts, pct, dur))"

lemma dd_view_on_pnl: "dd_view (inc_on_pnl ts pnl b st) = dd_next ts pnl (dd_view st)"
proof -
  define st1 where "st1 = inc_moments pnl (inc_sums pnl b st)"
  have "is_pnl_count st1 = u64_wrapping_succ (is_pnl_count st)" "is_equity st1 = is_equity st"
    "is_peak_equity st1 = is_peak_equity st" "is_peak_ts st1 = is_peak_ts st"
    "is_max_drawdown_pct st1 = is_max_drawdown_pct st"
    "is_max_drawdown_duration st1 = is_max_drawdown_duration st"
    by (simp_all add: st1_def inc_moments_def inc_sums_def Let_def)
  then show ?thesis
    by (simp add: inc_on_pnl_def flip: st1_def)
      (simp add: dd_view_def dd_next_def inc_drawdown_def Let_def)
qed

lemmas sample_step_defs = Let_def u64_wrapping_succ_def saturating_add_def saturating_sub_def
  clamp_i64_def sub_i64_def wrap_i64_def f64_min_def f64_gt_def f64_val_def

text \<open>
  The incremental drawdown and the batch function over the equity curve report different
  durations for the same PnL history once the equity has fallen below zero: the batch one keeps
  extending the window after the drawdown has reached 100 percent, the incremental one does not.
\<close>

theorem drawdown_durations_differ:
  "\<exists>l. log_reach l \<and>
     is_max_drawdown_duration (tl_incremental l) = 1 \<and>
     snd (max_drawdown_pct_and_duration (equity_curve_from_pnl_deltas (full_pnl_history l))) = 2"
proof -
  let ?l = "push_pnl_delta 3 (- 25) (push_pnl_delta 2 (- 150) (push_pnl_delta 1 100 (trade_log_new LogAll)))"
  have reach: "log_reach ?l" by (intro log_reach.intros)
  have "dd_view (tl_incremental ?l) =
      dd_next 3 (- 25) (dd_next 2 (- 150) (dd_next 1 100 (dd_view incremental_default)))"
    by (simp add: push_pnl_delta_def update_incremental_pnl_def trade_log_new_def dd_view_on_pnl)
  also have "dd_next 1 100 (dd_view incremental_default) = (1, 100, 100, 1, f64_zero, 0)"
    by (simp add: dd_next_def dd_view_def incremental_default_def saturating_add_def clamp_i64_def
        u64_wrapping_succ_def)
  also have "dd_next 2 (- 150) \<dots> = (2, - 50, 100, 1, F64_Fin False 100, 1)"
    by (simp add: dd_next_def sample_step_defs drawdown_values round_values)
  also have "dd_next 3 (- 25) \<dots> = (3, - 75, 100, 1, F64_Fin False 100, 1)"
    by (simp add: dd_next_def sample_step_defs drawdown_values round_values)
  finally have "is_max_drawdown_duration (tl_incremental ?l) = 1" by (simp add: dd_view_def)
  moreover note reach
  moreover have "snd (max_drawdown_pct_and_duration (equity_curve_from_pnl_deltas (full_pnl_history ?l))) = 2"
    by (simp add: push_pnl_delta_def update_incremental_pnl_def trade_log_new_def full_pnl_history_def
        equity_curve_from_pnl_deltas_def max_drawdown_pct_and_duration_def drawdown_step_def
        sample_step_defs drawdown_values round_values)
  ultimately show ?thesis by blast
qed

end
