(* ===== verification/StatsSimd.thy ===== *)
theory StatsSimd
  imports Stats
begin

text \<open>
  The vectorised ratios of \<open>stats.rs\<close>. The vectors are the \<open>f64x4\<close> of the \<open>wide\<close> crate, which is not part of
  the repository: its operations are an argument, and \<open>lanewise\<close> states what it documents, that they
  work lane by lane. Rayon's \<open>reduce\<close> is an argument too, and \<open>reduces_by_tree\<close> states that it
  combines the items in their order, in any bracketing. For series whose sums stay below \<open>2 ^ 53\<close> every partial sum is exact, so
  the scalar, the vectorised and the parallel versions return the very same number.
\<close>

section \<open>The vectorised sums\<close>

record 'v f64x4_ops =
  x4_splat :: "f64 \<Rightarrow> 'v"
  x4_from :: "f64 list \<Rightarrow> 'v"
  x4_into :: "'v \<Rightarrow> f64 list"
  x4_add :: "'v \<Rightarrow> 'v \<Rightarrow> 'v"
  x4_sub :: "'v \<Rightarrow> 'v \<Rightarrow> 'v"
  x4_mul :: "'v \<Rightarrow> 'v \<Rightarrow> 'v"
  x4_min :: "'v \<Rightarrow> 'v \<Rightarrow> 'v"

definition simd_reduce_sum :: "'v f64x4_ops \<Rightarrow> 'v \<Rightarrow> f64" where
  "simd_reduce_sum ops v = f64_sum (x4_into ops v)"

text \<open>The loop over \<open>chunks_exact(4)\<close>: the accumulator after the last full chunk, and the remainder.\<close>

fun chunks_loop :: "(i64 list \<Rightarrow> 'v \<Rightarrow> 'v) \<Rightarrow> 'v \<Rightarrow> i64 list \<Rightarrow> 'v \<times> i64 list" where
  "chunks_loop f v (a # b # c # d # rest) = chunks_loop f (f [a, b, c, d] v) rest"
| "chunks_loop f v rest = (v, rest)"

definition simd_sum_f64_from_i64 :: "'v f64x4_ops \<Rightarrow> i64 list \<Rightarrow> f64" where
  "simd_sum_f64_from_i64 ops pnl =
     (let (sum_vec, remainder) =
            chunks_loop (\<lambda>chunk v. x4_add ops v (x4_from ops (map f64_of_int chunk)))
              (x4_splat ops f64_zero) pnl
      in foldl (\<lambda>sum x. f64_add sum (f64_of_int x)) (simd_reduce_sum ops sum_vec) remainder)"

definition simd_sum_sq_diff :: "'v f64x4_ops \<Rightarrow> i64 list \<Rightarrow> f64 \<Rightarrow> f64" where
  "simd_sum_sq_diff ops pnl mean =
     (let mean_vec = x4_splat ops mean;
          (sum_vec, remainder) =
            chunks_loop (\<lambda>chunk v. let d = x4_sub ops (x4_from ops (map f64_of_int chunk)) mean_vec
                                   in x4_add ops v (x4_mul ops d d))
              (x4_splat ops f64_zero) pnl
      in foldl (\<lambda>sum x. let d = f64_sub (f64_of_int x) mean in f64_add sum (f64_mul d d))
           (simd_reduce_sum ops sum_vec) remainder)"

definition simd_sum_downside_sq :: "'v f64x4_ops \<Rightarrow> i64 list \<Rightarrow> f64" where
  "simd_sum_downside_sq ops pnl =
     (let zero = x4_splat ops f64_zero;
          (sum_vec, remainder) =
            chunks_loop (\<lambda>chunk v. let neg = x4_min ops (x4_from ops (map f64_of_int chunk)) zero
                                   in x4_add ops v (x4_mul ops neg neg))
              (x4_splat ops f64_zero) pnl
      in foldl (\<lambda>sum x. let d = f64_of_int x in if f64_lt d f64_zero then f64_add sum (f64_mul d d) else sum)
           (simd_reduce_sum ops sum_vec) remainder)"

definition sharpe_ratio_from_pnl_series_simd :: "'v f64x4_ops \<Rightarrow> i64 list \<Rightarrow> f64" where
  "sharpe_ratio_from_pnl_series_simd ops pnl =
     (let n = f64_of_int (int (length pnl)) in
      if length pnl < 2 then f64_zero
      else
        let mean = f64_div (simd_sum_f64_from_i64 ops pnl) n;
            var = f64_div (simd_sum_sq_diff ops pnl mean) (f64_sub n (f64_of_int 1));
            std = f64_sqrt var
        in if f64_eq std f64_zero then f64_zero else f64_div mean std)"

definition sortino_ratio_from_pnl_series_simd :: "'v f64x4_ops \<Rightarrow> i64 list \<Rightarrow> f64" where
  "sortino_ratio_from_pnl_series_simd ops pnl =
     (let n = f64_of_int (int (length pnl)) in
      if length pnl < 2 then f64_zero
      else
        let mean = f64_div (simd_sum_f64_from_i64 ops pnl) n;
            downside_var = f64_div (simd_sum_downside_sq ops pnl) n;
            downside_std = f64_sqrt downside_var
        in if f64_eq downside_std f64_zero then f64_zero else f64_div mean downside_std)"

text \<open>The GPU backend is a stub: it cannot be created, and its methods fall back to the CPU.\<close>

definition gpu_new :: "unit option" where
  "gpu_new = None"

definition gpu_stats_backend :: "par_reduce \<Rightarrow> stats_backend" where
  "gpu_stats_backend par_reduce =
     \<lparr>sb_sharpe = sb_sharpe (cpu_stats_backend par_reduce),
      sb_sortino = sb_sortino (cpu_stats_backend par_reduce)\<rparr>"

lemma gpu_is_cpu: "calculate_stats_with_backend (gpu_stats_backend par_reduce) lg =
    calculate_stats_with_backend (cpu_stats_backend par_reduce) lg"
  by (simp add: gpu_stats_backend_def cpu_stats_backend_def)

section \<open>Exact sums\<close>

abbreviation exact_bound :: int where "exact_bound \<equiv> 9007199254740992"

lemma f64_of_int_abs:
  assumes "\<bar>n\<bar> < exact_bound"
  shows "f64_of_int n = F64_Fin (n < 0) (of_int \<bar>n\<bar>)"
  using assms f64_round_int [of "\<bar>n\<bar>" "n < 0"] by (auto simp: f64_of_int_def f64_of_rat_def)

lemma f64_val_int [simp]: "f64_val (n < 0) \<bar>of_int n\<bar> = of_int n"
  by (simp add: f64_val_def)

lemma f64_add_exact:
  assumes "\<bar>a\<bar> < exact_bound" and "\<bar>b\<bar> < exact_bound"
  shows "f64_add (f64_of_int a) (f64_of_int b) = f64_of_int (a + b)"
proof -
  have "f64_add (f64_of_int a) (f64_of_int b) = f64_of_rat (a < 0 \<and> b < 0) (of_int (a + b))"
    by (simp add: f64_of_int_abs assms)
  also have "\<dots> = f64_of_rat False (of_int (a + b))" by (auto simp: f64_of_rat_def)
  finally show ?thesis by (simp add: f64_of_int_def)
qed

lemma f64_mul_exact:
  assumes "\<bar>a\<bar> < exact_bound" and "a * a < exact_bound"
  shows "f64_mul (f64_of_int a) (f64_of_int a) = f64_of_int (a * a)"
proof -
  have sq: "\<bar>a\<bar> * \<bar>a\<bar> = a * a" by (simp add: abs_mult_self_eq)
  have "f64_mul (f64_of_int a) (f64_of_int a) = f64_round False (of_int (a * a))"
    by (simp add: f64_of_int_abs assms(1) sq flip: of_int_mult)
  also have "\<dots> = F64_Fin False (of_int (a * a))" using assms(2) by (intro f64_round_int) simp_all
  also have "\<dots> = f64_of_int (a * a)" using assms(2) by (simp add: f64_of_int_small)
  finally show ?thesis .
qed

lemma foldl_exact:
  assumes "\<bar>s\<bar> + sum_list (map (\<lambda>x. \<bar>g x\<bar>) xs) < exact_bound"
    and "\<And>x t. x \<in> set xs \<Longrightarrow> \<bar>t\<bar> < exact_bound \<Longrightarrow> \<bar>g x\<bar> < exact_bound \<Longrightarrow>
      h (f64_of_int t) x = f64_of_int (t + g x)"
  shows "foldl h (f64_of_int s) xs = f64_of_int (s + sum_list (map g xs))"
  using assms
proof (induction xs arbitrary: s)
  case (Cons x xs)
  have nonneg: "0 \<le> sum_list (map (\<lambda>x. \<bar>g x\<bar>) xs)" by (rule sum_list_nonneg) auto
  have "\<bar>s\<bar> < exact_bound" "\<bar>g x\<bar> < exact_bound" "\<bar>s + g x\<bar> + sum_list (map (\<lambda>x. \<bar>g x\<bar>) xs) < exact_bound"
    using Cons.prems(1) nonneg by auto
  with Cons.IH [of "s + g x"] Cons.prems(2) show ?case by (simp add: ac_simps)
qed simp

lemma f64_zero_int: "f64_zero = f64_of_int 0"
  by (simp add: f64_of_int_def f64_of_rat_def)

lemma f64_sub_zero_exact:
  assumes "\<bar>a\<bar> < exact_bound"
  shows "f64_sub (f64_of_int a) f64_zero = f64_of_int a"
proof -
  have "f64_sub (f64_of_int a) f64_zero = f64_of_rat False (of_int a)"
    using assms by (simp add: f64_sub_def f64_of_int_abs) (auto simp: f64_val_def f64_of_rat_def)
  then show ?thesis by (simp add: f64_of_int_def)
qed

lemma f64_lt_int:
  assumes "\<bar>a\<bar> < exact_bound" and "\<bar>b\<bar> < exact_bound"
  shows "f64_lt (f64_of_int a) (f64_of_int b) \<longleftrightarrow> a < b"
  using assms by (simp add: f64_of_int_abs)

lemma f64_min_zero_exact:
  assumes "\<bar>a\<bar> < exact_bound"
  shows "f64_min (f64_of_int a) (f64_of_int 0) = f64_of_int (min a 0)"
  using assms f64_lt_int [of 0 a]
  by (auto simp: f64_min_def min_def f64_of_int_abs)

lemma f64_sum_exact:
  assumes "sum_list (map (\<lambda>x. \<bar>g x\<bar>) xs) < exact_bound"
  shows "f64_sum (map (\<lambda>x. f64_of_int (g x)) xs) = f64_of_int (sum_list (map g xs))"
  using foldl_exact [of 0 g xs "\<lambda>s x. f64_add s (f64_of_int (g x))"] assms
  by (simp add: f64_sum_def foldl_map f64_zero_int f64_add_exact)

section \<open>The vectorised sums are exact\<close>

text \<open>What \<open>wide\<close> documents: four lanes, and every operation on a lane is the scalar one.\<close>

definition lanewise :: "'v f64x4_ops \<Rightarrow> bool" where
  "lanewise ops \<longleftrightarrow>
     (\<forall>a. x4_into ops (x4_splat ops a) = [a, a, a, a]) \<and>
     (\<forall>a b c d. x4_into ops (x4_from ops [a, b, c, d]) = [a, b, c, d]) \<and>
     (\<forall>v w. x4_into ops (x4_add ops v w) = map2 f64_add (x4_into ops v) (x4_into ops w)) \<and>
     (\<forall>v w. x4_into ops (x4_sub ops v w) = map2 f64_sub (x4_into ops v) (x4_into ops w)) \<and>
     (\<forall>v w. x4_into ops (x4_mul ops v w) = map2 f64_mul (x4_into ops v) (x4_into ops w)) \<and>
     (\<forall>v w. F64_NaN \<notin> set (x4_into ops v) \<and> F64_NaN \<notin> set (x4_into ops w) \<longrightarrow>
        x4_into ops (x4_min ops v w) = map2 f64_min (x4_into ops v) (x4_into ops w))"

abbreviation abs_sum :: "(int \<Rightarrow> int) \<Rightarrow> int list \<Rightarrow> int" where
  "abs_sum g xs \<equiv> sum_list (map (\<lambda>x. \<bar>g x\<bar>) xs)"

lemma abs_sum_nonneg: "0 \<le> abs_sum g xs"
  by (rule sum_list_nonneg) auto

text \<open>One step of the loop adds \<open>g\<close> of the chunk to the lanes; then so does the loop.\<close>

definition lanes_add :: "'v f64x4_ops \<Rightarrow> (i64 list \<Rightarrow> 'v \<Rightarrow> 'v) \<Rightarrow> (int \<Rightarrow> int) \<Rightarrow> bool" where
  "lanes_add ops f g \<longleftrightarrow>
     (\<forall>a b c d p q r s v.
        x4_into ops v = map f64_of_int [p, q, r, s] \<and>
        (\<forall>x \<in> {p, q, r, s, g a, g b, g c, g d, a, b, c, d}. \<bar>x\<bar> < exact_bound) \<longrightarrow>
        x4_into ops (f [a, b, c, d] v) = map f64_of_int [p + g a, q + g b, r + g c, s + g d])"

lemma parts_below:
  fixes p :: int
  assumes "p + q + r + s + (a + (b + (c + (d + z)))) < n"
    and "0 \<le> p" "0 \<le> q" "0 \<le> r" "0 \<le> s" "0 \<le> a" "0 \<le> b" "0 \<le> c" "0 \<le> d" "0 \<le> z"
  shows "p < n \<and> q < n \<and> r < n \<and> s < n \<and> a < n \<and> b < n \<and> c < n \<and> d < n"
  using assms by linarith

lemma chunks_loop_exact:
  assumes "lanes_add ops f g" and "x4_into ops v = map f64_of_int [p, q, r, s]"
    and "\<bar>p\<bar> + \<bar>q\<bar> + \<bar>r\<bar> + \<bar>s\<bar> + abs_sum g xs < exact_bound"
    and "\<forall>x \<in> set xs. \<bar>x\<bar> < exact_bound"
    and "chunks_loop f v xs = (w, rest)"
  shows "\<exists>p' q' r' s'. x4_into ops w = map f64_of_int [p', q', r', s'] \<and>
    p' + q' + r' + s' + sum_list (map g rest) = p + q + r + s + sum_list (map g xs) \<and>
    \<bar>p'\<bar> + \<bar>q'\<bar> + \<bar>r'\<bar> + \<bar>s'\<bar> + abs_sum g rest \<le> \<bar>p\<bar> + \<bar>q\<bar> + \<bar>r\<bar> + \<bar>s\<bar> + abs_sum g xs \<and>
    set rest \<subseteq> set xs"
  using assms
proof (induction f v xs arbitrary: p q r s rule: chunks_loop.induct)
  case (1 f v a b c d xs)
  have nonneg: "0 \<le> abs_sum g xs" by (rule abs_sum_nonneg)
  have parts: "\<bar>p\<bar> < exact_bound \<and> \<bar>q\<bar> < exact_bound \<and> \<bar>r\<bar> < exact_bound \<and> \<bar>s\<bar> < exact_bound \<and>
      \<bar>g a\<bar> < exact_bound \<and> \<bar>g b\<bar> < exact_bound \<and> \<bar>g c\<bar> < exact_bound \<and> \<bar>g d\<bar> < exact_bound"
    by (rule parts_below [OF 1(4)[simplified]]) (use nonneg in auto)
  have lanes: "x4_into ops (f [a, b, c, d] v) = map f64_of_int [p + g a, q + g b, r + g c, s + g d]"
    using 1(2)[unfolded lanes_add_def, rule_format, of v p q r s a b c d] 1(3,5) parts by simp
  have bound: "\<bar>p + g a\<bar> + \<bar>q + g b\<bar> + \<bar>r + g c\<bar> + \<bar>s + g d\<bar> + abs_sum g xs
      \<le> \<bar>p\<bar> + \<bar>q\<bar> + \<bar>r\<bar> + \<bar>s\<bar> + abs_sum g (a # b # c # d # xs)"
    using abs_triangle_ineq [of p "g a"] abs_triangle_ineq [of q "g b"]
      abs_triangle_ineq [of r "g c"] abs_triangle_ineq [of s "g d"] by simp
  obtain p' q' r' s' where
    lanes': "x4_into ops w = map f64_of_int [p', q', r', s']" and
    total: "p' + q' + r' + s' + sum_list (map g rest)
       = p + g a + (q + g b) + (r + g c) + (s + g d) + sum_list (map g xs)" and
    parts': "\<bar>p'\<bar> + \<bar>q'\<bar> + \<bar>r'\<bar> + \<bar>s'\<bar> + abs_sum g rest
       \<le> \<bar>p + g a\<bar> + \<bar>q + g b\<bar> + \<bar>r + g c\<bar> + \<bar>s + g d\<bar> + abs_sum g xs" and
    sub: "set rest \<subseteq> set xs"
    using 1(1)[OF 1(2) lanes le_less_trans [OF bound 1(4)]] 1(5,6) by auto
  show ?case
    by (intro exI [of _ p'] exI [of _ q'] exI [of _ r'] exI [of _ s'] conjI
        lanes' order_trans [OF parts' bound]) (use total sub in auto)
qed auto

lemma chunks_total_exact:
  assumes "lanes_add ops f g" and "lanewise ops"
    and "abs_sum g xs < exact_bound" and "\<forall>x \<in> set xs. \<bar>x\<bar> < exact_bound"
    and "\<And>t x. x \<in> set xs \<Longrightarrow> \<bar>t\<bar> < exact_bound \<Longrightarrow> \<bar>g x\<bar> < exact_bound \<Longrightarrow>
      h (f64_of_int t) x = f64_of_int (t + g x)"
  shows "(let (w, rest) = chunks_loop f (x4_splat ops f64_zero) xs
          in foldl h (simd_reduce_sum ops w) rest) = f64_of_int (sum_list (map g xs))"
proof -
  obtain w rest where loop: "chunks_loop f (x4_splat ops f64_zero) xs = (w, rest)" by fastforce
  have "x4_into ops (x4_splat ops f64_zero) = map f64_of_int [0, 0, 0, 0]"
    using assms(2) by (simp add: lanewise_def flip: f64_zero_int)
  from chunks_loop_exact [OF assms(1) this _ assms(4) loop] assms(3) obtain p q r s where
    lanes: "x4_into ops w = map f64_of_int [p, q, r, s]" and
    total: "p + q + r + s + sum_list (map g rest) = sum_list (map g xs)" and
    bound: "\<bar>p\<bar> + \<bar>q\<bar> + \<bar>r\<bar> + \<bar>s\<bar> + abs_sum g rest \<le> abs_sum g xs" and
    sub: "set rest \<subseteq> set xs" by auto
  have sums: "\<bar>p\<bar> + \<bar>q\<bar> + \<bar>r\<bar> + \<bar>s\<bar> < exact_bound" "\<bar>p + q + r + s\<bar> + abs_sum g rest < exact_bound"
    using bound assms(3) abs_sum_nonneg [of g rest] abs_triangle_ineq [of "p + q + r" s]
      abs_triangle_ineq [of "p + q" r] abs_triangle_ineq [of p q] by simp_all
  have "simd_reduce_sum ops w = f64_of_int (p + q + r + s)"
    using f64_sum_exact [of "\<lambda>x. x" "[p, q, r, s]"] lanes sums(1)
    by (simp add: simd_reduce_sum_def add.assoc)
  moreover have "foldl h (f64_of_int (p + q + r + s)) rest
      = f64_of_int (p + q + r + s + sum_list (map g rest))"
    using sub by (intro foldl_exact [OF sums(2)] assms(5)) auto
  ultimately show ?thesis using total by (simp add: loop)
qed

abbreviation downside :: "int \<Rightarrow> int" where
  "downside x \<equiv> min x 0 * min x 0"

lemma sum_lanes_add:
  assumes "lanewise ops"
  shows "lanes_add ops (\<lambda>chunk v. x4_add ops v (x4_from ops (map f64_of_int chunk))) id"
  using assms by (simp add: lanes_add_def lanewise_def f64_add_exact)

lemma f64_of_int_not_nan: "\<bar>a\<bar> < exact_bound \<Longrightarrow> f64_of_int a \<noteq> F64_NaN"
  by (simp add: f64_of_int_abs)

lemma downside_mul_exact:
  assumes "\<bar>x\<bar> < exact_bound" and "\<bar>downside x\<bar> < exact_bound"
  shows "f64_mul (f64_min (f64_of_int x) f64_zero) (f64_min (f64_of_int x) f64_zero) = f64_of_int (downside x)"
proof -
  have "\<bar>min x 0\<bar> < exact_bound" using assms(1) by linarith
  with assms show ?thesis
    using f64_mul_exact [of "min x 0"] unfolding f64_zero_int by (simp add: f64_min_zero_exact)
qed

lemma downside_lanes_add:
  assumes "lanewise ops"
  shows "lanes_add ops (\<lambda>chunk v. let neg = x4_min ops (x4_from ops (map f64_of_int chunk)) (x4_splat ops f64_zero)
                                   in x4_add ops v (x4_mul ops neg neg)) downside"
  unfolding lanes_add_def
proof (intro allI impI, elim conjE)
  fix a b c d p q r s :: int and v
  assume v: "x4_into ops v = map f64_of_int [p, q, r, s]"
    and bound: "\<forall>x \<in> {p, q, r, s, downside a, downside b, downside c, downside d, a, b, c, d}. \<bar>x\<bar> < exact_bound"
  let ?neg = "x4_min ops (x4_from ops (map f64_of_int [a, b, c, d])) (x4_splat ops f64_zero)"
  have "x4_into ops (x4_from ops (map f64_of_int [a, b, c, d])) = map f64_of_int [a, b, c, d]"
    and "x4_into ops (x4_splat ops f64_zero) = [f64_zero, f64_zero, f64_zero, f64_zero]"
    using assms by (simp_all add: lanewise_def)
  moreover have "F64_NaN \<notin> set (map f64_of_int [a, b, c, d])"
    using bound f64_of_int_not_nan by (auto dest: sym)
  ultimately have "x4_into ops ?neg = map (\<lambda>x. f64_min (f64_of_int x) f64_zero) [a, b, c, d]"
    using assms by (simp add: lanewise_def)
  moreover have "x4_into ops (x4_add ops v (x4_mul ops ?neg ?neg))
      = map2 f64_add (x4_into ops v) (map2 f64_mul (x4_into ops ?neg) (x4_into ops ?neg))"
    using assms by (simp add: lanewise_def)
  ultimately show "x4_into ops (let neg = ?neg in x4_add ops v (x4_mul ops neg neg))
      = map f64_of_int [p + downside a, q + downside b, r + downside c, s + downside d]"
    using v bound by (simp add: Let_def downside_mul_exact f64_add_exact)
qed

lemma set_below: "abs_sum id xs < exact_bound \<Longrightarrow> \<forall>x \<in> set xs. \<bar>x\<bar> < exact_bound"
proof (induction xs)
  case (Cons x xs)
  then show ?case using abs_sum_nonneg [of id xs] by auto
qed simp

lemma simd_sum_exact:
  assumes "lanewise ops" and "abs_sum id pnl < exact_bound"
  shows "simd_sum_f64_from_i64 ops pnl = f64_of_int (sum_list pnl)"
  unfolding simd_sum_f64_from_i64_def
  using chunks_total_exact [OF sum_lanes_add [OF assms(1)] assms set_below [OF assms(2)],
      of "\<lambda>sum x. f64_add sum (f64_of_int x)"] by (simp add: f64_add_exact)

lemma simd_downside_exact:
  assumes "lanewise ops" and "abs_sum id pnl < exact_bound" and "abs_sum downside pnl < exact_bound"
  shows "simd_sum_downside_sq ops pnl = f64_of_int (sum_list (map downside pnl))"
proof -
  have step: "(let d = f64_of_int x in if f64_lt d f64_zero then f64_add (f64_of_int t) (f64_mul d d) else f64_of_int t)
      = f64_of_int (t + downside x)"
    if "\<bar>x\<bar> < exact_bound" "\<bar>t\<bar> < exact_bound" "\<bar>downside x\<bar> < exact_bound" for t x
    using that f64_lt_int [of x 0] f64_mul_exact [of x]
    by (simp add: Let_def f64_zero_int f64_add_exact min_def split: if_splits)
  show ?thesis
    unfolding simd_sum_downside_sq_def Let_def [of "x4_splat ops f64_zero"]
    by (rule chunks_total_exact [OF downside_lanes_add [OF assms(1)] assms(1,3) set_below [OF assms(2)]])
      (use step set_below [OF assms(2)] in blast)
qed

section \<open>The parallel sums are exact\<close>

text \<open>What rayon documents of \<open>reduce\<close>: the items in their order, in any bracketing, the identity put
  in anywhere.\<close>

inductive tree_reduces :: "'a \<Rightarrow> ('a \<Rightarrow> 'a \<Rightarrow> 'a) \<Rightarrow> 'a list \<Rightarrow> 'a \<Rightarrow> bool" for e op where
  identity: "tree_reduces e op [] e"
| item: "tree_reduces e op [x] x"
| join: "tree_reduces e op xs a \<Longrightarrow> tree_reduces e op ys b \<Longrightarrow> tree_reduces e op (xs @ ys) (op a b)"

definition reduces_by_tree :: "par_reduce \<Rightarrow> bool" where
  "reduces_by_tree par_reduce \<longleftrightarrow> (\<forall>e op xs. tree_reduces e op xs (par_reduce e op xs))"

lemma tree_reduces_exact:
  assumes "tree_reduces (f64_zero, f64_zero) add_pair items r"
    and "items = map (\<lambda>x. (f64_of_int x, f64_of_int (g x))) xs"
    and "abs_sum id xs < exact_bound" and "abs_sum g xs < exact_bound"
  shows "r = (f64_of_int (sum_list xs), f64_of_int (sum_list (map g xs)))"
  using assms
proof (induction arbitrary: xs rule: tree_reduces.induct)
  case (join items1 a items2 b)
  then obtain xs1 xs2 where xs: "xs = xs1 @ xs2"
    "items1 = map (\<lambda>x. (f64_of_int x, f64_of_int (g x))) xs1"
    "items2 = map (\<lambda>x. (f64_of_int x, f64_of_int (g x))) xs2"
    by (auto simp: append_eq_map_conv)
  have nonneg: "0 \<le> abs_sum h ys" for h ys by (rule abs_sum_nonneg)
  have sums: "\<bar>sum_list (map h ys)\<bar> \<le> abs_sum h ys" for h :: "int \<Rightarrow> int" and ys
    using sum_list_abs [of "map h ys"] by (simp add: comp_def)
  have small: "abs_sum id xs1 < exact_bound" "abs_sum id xs2 < exact_bound"
    "abs_sum g xs1 < exact_bound" "abs_sum g xs2 < exact_bound"
    using join.prems(2,3) nonneg [of id xs1] nonneg [of id xs2] nonneg [of g xs1] nonneg [of g xs2]
    by (simp_all add: xs)
  show ?case
    using join.IH(1) [OF xs(2) small(1,3)] join.IH(2) [OF xs(3) small(2,4)] small
      sums [of id xs1] sums [of id xs2] sums [of g xs1] sums [of g xs2]
    by (simp add: xs add_pair_def f64_add_exact)
qed (auto simp: f64_zero_int)

lemma par_reduce_exact:
  assumes "reduces_by_tree par_reduce" and "abs_sum id pnl < exact_bound" and "abs_sum g pnl < exact_bound"
  shows "par_reduce (f64_zero, f64_zero) add_pair (map (\<lambda>x. (f64_of_int x, f64_of_int (g x))) pnl)
    = (f64_of_int (sum_list pnl), f64_of_int (sum_list (map g pnl)))"
  using assms tree_reduces_exact unfolding reduces_by_tree_def by blast

section \<open>The vectorised Sharpe ratio\<close>

abbreviation sq_diff :: "int \<Rightarrow> int \<Rightarrow> int" where
  "sq_diff m x \<equiv> (x - m) * (x - m)"

lemma sq_bound: "sq_diff m x < exact_bound \<Longrightarrow> \<bar>x - m\<bar> < exact_bound"
  using self_le_power [of "\<bar>x - m\<bar>" 2]
  by (cases "x = m") (linarith | simp add: power2_eq_square abs_mult_self_eq)+

lemma f64_sub_exact:
  assumes "\<bar>a\<bar> < exact_bound" and "\<bar>b\<bar> < exact_bound"
  shows "f64_sub (f64_of_int a) (f64_of_int b) = f64_of_int (a - b)"
proof (cases "b = 0")
  case True
  with assms f64_sub_zero_exact show ?thesis by (simp flip: f64_zero_int)
next
  case False
  with assms(2) have "f64_neg (f64_of_int b) = f64_of_int (- b)" by (auto simp: f64_of_int_abs)
  with assms show ?thesis using f64_add_exact [of a "- b"] by (simp add: f64_sub_def)
qed

lemma sq_diff_exact:
  assumes "\<bar>x\<bar> < exact_bound" and "\<bar>m\<bar> < exact_bound" and "\<bar>sq_diff m x\<bar> < exact_bound"
  shows "f64_mul (f64_sub (f64_of_int x) (f64_of_int m)) (f64_sub (f64_of_int x) (f64_of_int m))
    = f64_of_int (sq_diff m x)"
  using assms f64_mul_exact [of "x - m"] sq_bound [of x m] by (simp add: f64_sub_exact)

lemma sq_diff_lanes_add:
  assumes "lanewise ops" and "\<bar>m\<bar> < exact_bound"
  shows "lanes_add ops (\<lambda>chunk v. let d = x4_sub ops (x4_from ops (map f64_of_int chunk)) (x4_splat ops (f64_of_int m))
                                   in x4_add ops v (x4_mul ops d d)) (sq_diff m)"
  using assms by (simp add: lanes_add_def lanewise_def Let_def sq_diff_exact f64_add_exact)

lemma simd_sq_diff_exact:
  assumes "lanewise ops" and "\<bar>m\<bar> < exact_bound"
    and "abs_sum id pnl < exact_bound" and "abs_sum (sq_diff m) pnl < exact_bound"
  shows "simd_sum_sq_diff ops pnl (f64_of_int m) = f64_of_int (sum_list (map (sq_diff m) pnl))"
  unfolding simd_sum_sq_diff_def Let_def [of "x4_splat ops (f64_of_int m)"]
  by (rule chunks_total_exact [OF sq_diff_lanes_add [OF assms(1,2)] assms(1,4) set_below [OF assms(3)]])
    (use sq_diff_exact set_below [OF assms(3)] assms(2) f64_add_exact in \<open>simp add: Let_def\<close>)

text \<open>With an integral mean the squared distances are exact too.\<close>

lemma f64_div_exact:
  assumes "\<bar>m\<bar> < exact_bound" and "\<bar>m * n\<bar> < exact_bound" and "0 < n" and "n < exact_bound"
  shows "f64_div (f64_of_int (m * n)) (f64_of_int n) = f64_of_int m"
proof -
  have "rat_of_int \<bar>m * n\<bar> / rat_of_int n = of_int \<bar>m\<bar>" using assms(3) by (simp add: abs_mult)
  moreover have "(m * n < 0) = (m < 0)" using assms(3) by (simp add: mult_less_0_iff)
  ultimately show ?thesis
    using assms f64_round_int [of "\<bar>m\<bar>" "m < 0"] by (simp add: f64_of_int_abs)
qed

lemma f64_sum_sq_diff_exact:
  assumes "\<bar>m\<bar> < exact_bound" and "abs_sum id pnl < exact_bound" and "abs_sum (sq_diff m) pnl < exact_bound"
  shows "f64_sum (map (\<lambda>x. let d = f64_sub (f64_of_int x) (f64_of_int m) in f64_mul d d) pnl)
    = f64_of_int (sum_list (map (sq_diff m) pnl))"
proof -
  have "map (\<lambda>x. let d = f64_sub (f64_of_int x) (f64_of_int m) in f64_mul d d) pnl
      = map (\<lambda>x. f64_of_int (sq_diff m x)) pnl"
    using set_below [OF assms(2)] set_below [of "map (sq_diff m) pnl"] assms(1,3)
    by (auto simp: Let_def comp_def intro!: sq_diff_exact)
  with f64_sum_exact [OF assms(3)] show ?thesis by (simp only:)
qed

lemma sharpe_simd_agrees:
  assumes "lanewise ops" and "sum_list pnl = m * int (length pnl)" and "int (length pnl) < exact_bound"
    and "abs_sum id pnl < exact_bound" and "abs_sum (sq_diff m) pnl < exact_bound"
  shows "sharpe_ratio_from_pnl_series_simd ops pnl = sharpe_ratio_from_pnl_series pnl"
proof (cases "length pnl < 2")
  case False
  have total: "\<bar>m * int (length pnl)\<bar> < exact_bound"
    using sum_list_abs [of pnl] assms(2,4) by simp
  moreover have "\<bar>m\<bar> \<le> \<bar>m * int (length pnl)\<bar>" using False by (simp add: abs_mult mult_le_cancel_left1)
  ultimately have m: "\<bar>m\<bar> < exact_bound" by linarith
  have "f64_div (f64_of_int (sum_list pnl)) (f64_of_int (int (length pnl))) = f64_of_int m"
    unfolding assms(2) using False assms(3) by (intro f64_div_exact m total) auto
  moreover have "f64_sum (map f64_of_int pnl) = f64_of_int (sum_list pnl)"
    using f64_sum_exact [of id pnl] assms(4) by simp
  ultimately show ?thesis
    using simd_sum_exact [OF assms(1,4)] simd_sq_diff_exact [OF assms(1) m assms(4,5)]
      f64_sum_sq_diff_exact [OF m assms(4,5)]
    by (simp add: sharpe_ratio_from_pnl_series_simd_def sharpe_ratio_from_pnl_series_def Let_def)
qed (simp add: sharpe_ratio_from_pnl_series_simd_def sharpe_ratio_from_pnl_series_def)

section \<open>The three Sortino ratios\<close>

lemma downside_item:
  assumes "\<bar>x\<bar> < exact_bound" and "downside x < exact_bound"
  shows "(if f64_lt (f64_of_int x) f64_zero then f64_mul (f64_of_int x) (f64_of_int x) else f64_zero)
    = f64_of_int (downside x)"
  using assms f64_lt_int [of x 0] f64_mul_exact [of x] by (auto simp: f64_zero_int min_def)

lemma set_below_downside: "abs_sum downside xs < exact_bound \<Longrightarrow> \<forall>x \<in> set xs. downside x < exact_bound"
  using set_below [of "map downside xs"] by (simp add: comp_def)

lemma downside_items:
  assumes "abs_sum id pnl < exact_bound" and "abs_sum downside pnl < exact_bound" and "x \<in> set pnl"
  shows "(if f64_lt (f64_of_int x) f64_zero then f64_mul (f64_of_int x) (f64_of_int x) else f64_zero)
      = f64_of_int (downside x)"
    and "f64_sub (f64_of_int x) f64_zero = f64_of_int x"
  using downside_item set_below [OF assms(1)] set_below_downside [OF assms(2)] assms(3) f64_sub_zero_exact
  by blast+

text \<open>
  C25. The three Sortino ratios of a PnL series, scalar, vectorised over four lanes and parallel, are the
  same number, bit for bit, whatever bracketing rayon picks, as long as the absolute PnLs and the squared
  losses each sum to less than \<open>2 ^ 53\<close>: then every partial sum is exact.
\<close>
theorem sortino_backends_agree:
  assumes "lanewise ops" and "reduces_by_tree par_reduce"
    and "abs_sum id pnl < exact_bound" and "abs_sum downside pnl < exact_bound"
  shows "sortino_ratio_from_pnl_series_simd ops pnl = sortino_ratio_from_pnl_series pnl \<and>
    sortino_ratio_from_pnl_series_parallel par_reduce pnl = sortino_ratio_from_pnl_series pnl"
proof -
  note item = downside_items [OF assms(3,4)]
  have "f64_sum (map f64_of_int pnl) = f64_of_int (sum_list pnl)"
    using f64_sum_exact [of id pnl] assms(3) by simp
  moreover have "f64_sum (map (\<lambda>x. let d = f64_sub (f64_of_int x) f64_zero
        in if f64_lt d f64_zero then f64_mul d d else f64_zero) pnl) = f64_of_int (sum_list (map downside pnl))"
    using f64_sum_exact [OF assms(4)] item by (simp add: Let_def cong: map_cong)
  moreover have "par_reduce (f64_zero, f64_zero) add_pair (map (\<lambda>x. let v = f64_of_int x
        in (v, if f64_lt v f64_zero then f64_mul v v else f64_zero)) pnl)
      = (f64_of_int (sum_list pnl), f64_of_int (sum_list (map downside pnl)))"
    using par_reduce_exact [OF assms(2-4)] item(1) by (simp add: Let_def cong: map_cong)
  ultimately show ?thesis
    using simd_sum_exact [OF assms(1,3)] simd_downside_exact [OF assms(1,3,4)]
    by (simp add: sortino_ratio_from_pnl_series_simd_def sortino_ratio_from_pnl_series_parallel_def
        sortino_ratio_from_pnl_series_def Let_def)
qed

text \<open>Vectors of four lanes held as lists, and a reduction that splits in halves.\<close>

definition list_x4_ops :: "f64 list f64x4_ops" where
  "list_x4_ops = \<lparr>x4_splat = (\<lambda>a. [a, a, a, a]), x4_from = id, x4_into = id, x4_add = map2 f64_add,
     x4_sub = map2 f64_sub, x4_mul = map2 f64_mul, x4_min = map2 f64_min\<rparr>"

fun halves_reduce :: "'a \<Rightarrow> ('a \<Rightarrow> 'a \<Rightarrow> 'a) \<Rightarrow> 'a list \<Rightarrow> 'a" where
  "halves_reduce e op [] = e"
| "halves_reduce e op [x] = x"
| "halves_reduce e op (x # y # xs) =
     (let n = Suc (length xs) div 2 in
      op (halves_reduce e op (x # take n (y # xs))) (halves_reduce e op (drop n (y # xs))))"

lemma halves_reduce_tree: "tree_reduces e op xs (halves_reduce e op xs)"
proof (induction e op xs rule: halves_reduce.induct)
  case (3 e op x y xs)
  let ?n = "Suc (length xs) div 2"
  have "tree_reduces e op ((x # take ?n (y # xs)) @ drop ?n (y # xs)) (halves_reduce e op (x # y # xs))"
    using tree_reduces.join [OF 3(1) [OF refl] 3(2) [OF refl]] by (simp add: Let_def)
  then show ?case by simp
qed (auto intro: tree_reduces.intros)

lemma sortino_backends_agree_witness:
  "sortino_ratio_from_pnl_series_simd list_x4_ops [30, -10, 25, -40, 15, -5] =
     sortino_ratio_from_pnl_series [30, -10, 25, -40, 15, -5] \<and>
   sortino_ratio_from_pnl_series_parallel halves_reduce [30, -10, 25, -40, 15, -5] =
     sortino_ratio_from_pnl_series [30, -10, 25, -40, 15, -5]"
proof (rule sortino_backends_agree)
  show "lanewise list_x4_ops" by (simp add: lanewise_def list_x4_ops_def)
  show "reduces_by_tree halves_reduce" by (simp add: reduces_by_tree_def halves_reduce_tree)
qed simp_all

end
