(* ===== verification/FixedPointIo.thy ===== *)
theory FixedPointIo
  imports Types F64
begin

text \<open>
  The two float conversions of \<open>FixedPoint\<close> in \<open>types.rs\<close>, meant for input and output only, and the
  range in which they lose nothing.
\<close>

definition from_f64_io_only :: "f64 \<Rightarrow> fixed_point" where
  "from_f64_io_only v = FixedPoint (f64_as_i64 (f64_round_int (f64_mul v (f64_of_int SCALE))))"

definition to_f64_io_only :: "fixed_point \<Rightarrow> f64" where
  "to_f64_io_only x = f64_div (f64_of_int (as_scaled_i64 x)) (f64_of_int SCALE)"

section \<open>The relative error of rounding\<close>

lemma round_half_even_error: "\<bar>of_int (round_half_even q) - q\<bar> \<le> 1 / 2"
  using floor_correct [of q] by (auto simp: round_half_even_def Let_def abs_le_iff)

lemma pow2_half: "pow2 e / 2 = pow2 (e + 52) * pow2 (- 53)"
proof -
  have "pow2 (e + 52) * pow2 (- 53) = pow2 e * pow2 (- 1)" by (simp flip: pow2_add)
  also have "pow2 (- 1) = 1 / 2" by (simp add: pow2_def)
  finally show ?thesis by simp
qed

lemma round_mag_error:
  assumes "pow2 (- 1022) \<le> m"
  shows "\<bar>round_mag m - m\<bar> \<le> m * pow2 (- 53)"
proof -
  have m: "0 < m" using assms pow2_pos less_le_trans by blast
  have "- 1022 \<le> ilog2 m"
  proof (rule ccontr)
    assume "\<not> - 1022 \<le> ilog2 m"
    then have "pow2 (ilog2 m + 1) \<le> pow2 (- 1022)" by (intro pow2_mono) simp
    with ilog2_bounds(2) [OF m] assms show False by simp
  qed
  then have e: "ulp_exp m = ilog2 m - 52" by (simp add: ulp_exp_def)
  let ?e = "pow2 (ulp_exp m)"
  have "\<bar>round_mag m - m\<bar> = \<bar>(of_int (round_half_even (m / ?e)) - m / ?e) * ?e\<bar>"
    using m by (simp add: round_mag_def left_diff_distrib)
  also have "\<dots> = \<bar>of_int (round_half_even (m / ?e)) - m / ?e\<bar> * ?e"
    by (simp add: abs_mult abs_of_pos)
  also have "\<dots> \<le> 1 / 2 * ?e" by (intro mult_right_mono round_half_even_error) (simp add: less_imp_le)
  also have "\<dots> = pow2 (ilog2 m) * pow2 (- 53)" using pow2_half [of "ulp_exp m"] by (simp add: e)
  also have "\<dots> \<le> m * pow2 (- 53)"
    by (intro mult_right_mono ilog2_bounds m) (simp add: less_imp_le)
  finally show ?thesis .
qed

section \<open>The round trip\<close>

lemma f64_round_near:
  assumes "pow2 (- 1022) \<le> m" and "m \<le> pow2 60"
  shows "\<exists>r. f64_round s m = F64_Fin s r \<and> \<bar>r - m\<bar> \<le> m * pow2 (- 53)"
proof -
  have small: "pow2 (- 53) \<le> 1" using pow2_mono [of "- 53" 0] by simp
  have m: "0 < m" using assms(1) pow2_pos less_le_trans by blast
  have "round_mag m \<le> m + m * pow2 (- 53)" using round_mag_error [OF assms(1)] by linarith
  also have "\<dots> \<le> m + m * 1" using small m by (intro add_left_mono mult_left_mono) simp_all
  also have "\<dots> \<le> 2 * pow2 60" using assms(2) by simp
  also have "\<dots> < pow2 62" by (simp add: pow2_def)
  also have "\<dots> \<le> pow2 1024" by (intro pow2_mono) simp
  finally have "\<not> pow2 1024 \<le> round_mag m" by simp
  then show ?thesis using round_mag_error [OF assms(1)] by (simp add: f64_round_def Let_def)
qed

text \<open>Two roundings move a value by less than one half, as long as it is at most \<open>2 ^ 50\<close>.\<close>

lemma rounding_budget:
  fixes a q r u v d :: rat
  assumes "d \<le> u + v * 100000000" and "r \<le> q + v" and "v * 9007199254740992 \<le> q"
    and "u * 9007199254740992 \<le> r * 100000000" and "a \<le> 1125899906842624" and "q * 100000000 = a"
  shows "d < 1 / 2"
  using assms by linarith

lemma two_roundings:
  fixes a q r t :: rat
  assumes "0 < a" and "a \<le> 1125899906842624" and "q * 100000000 = a"
    and "\<bar>r - q\<bar> \<le> q * pow2 (- 53)" and "\<bar>t - r * 100000000\<bar> \<le> r * 100000000 * pow2 (- 53)"
  shows "\<bar>t - a\<bar> < 1 / 2"
proof -
  have "\<bar>t - a\<bar> \<le> \<bar>t - r * 100000000\<bar> + \<bar>(r - q) * 100000000\<bar>"
    using abs_triangle_ineq [of "t - r * 100000000" "(r - q) * 100000000"] assms(3)
    by (simp add: algebra_simps)
  also have "\<bar>(r - q) * 100000000\<bar> = \<bar>r - q\<bar> * 100000000" by (simp only: abs_mult abs_numeral)
  finally have "\<bar>t - a\<bar> \<le> \<bar>t - r * 100000000\<bar> + \<bar>r - q\<bar> * 100000000" .
  moreover have "r \<le> q + \<bar>r - q\<bar>" by linarith
  moreover have "\<bar>r - q\<bar> * 9007199254740992 \<le> q"
    and "\<bar>t - r * 100000000\<bar> * 9007199254740992 \<le> r * 100000000"
    using assms(4,5) by (simp_all add: pow2_def field_simps)
  ultimately show ?thesis using assms(2,3) by (rule rounding_budget)
qed

lemma f64_scale: "f64_of_int SCALE = F64_Fin False 100000000"
  by (subst f64_of_int_small) simp_all

lemma f64_of_nonzero:
  assumes "\<bar>x\<bar> < 9007199254740992"
  shows "f64_of_int x = F64_Fin (x < 0) \<bar>of_int x\<bar>"
  using assms f64_round_int [of "\<bar>x\<bar>" "x < 0"] by (auto simp: f64_of_int_def f64_of_rat_def)

text \<open>
  C26. A fixed-point value of at most \<open>2 ^ 50\<close> units of \<open>10 ^ -8\<close>, more than eleven million whole
  units, survives the conversion to a float and back unchanged, although its float is rarely exact.
\<close>
theorem fixed_point_io_roundtrip:
  assumes "\<bar>as_scaled_i64 x\<bar> \<le> 1125899906842624"
  shows "from_f64_io_only (to_f64_io_only x) = x"
proof (cases "as_scaled_i64 x = 0")
  case True
  then have "x = FixedPoint 0" by (cases x) simp
  then show ?thesis
    by (simp add: to_f64_io_only_def from_f64_io_only_def f64_scale f64_round_def round_mag_def
        f64_of_int_small f64_trunc_def clamp_i64_def not_le floor_eq_iff)
next
  case False
  define n where "n = as_scaled_i64 x"
  define a where "a = (of_int \<bar>n\<bar> :: rat)"
  have n: "n \<noteq> 0" "\<bar>n\<bar> \<le> 1125899906842624" using False assms by (simp_all add: n_def)
  then have a: "1 \<le> a" "a \<le> 1125899906842624" by (simp_all add: a_def)
  have tiny: "pow2 (- 1022) \<le> pow2 (- 30)" by (intro pow2_mono) simp
  have "pow2 (- 30) \<le> a / 100000000" using a by (simp add: pow2_def field_simps)
  with tiny have "pow2 (- 1022) \<le> a / 100000000" by (rule order_trans)
  moreover have "a / 100000000 \<le> pow2 60" using a by (simp add: pow2_def field_simps)
  ultimately obtain r where r: "f64_round (n < 0) (a / 100000000) = F64_Fin (n < 0) r"
      "\<bar>r - a / 100000000\<bar> \<le> a / 100000000 * pow2 (- 53)"
    using f64_round_near by blast
  then have "\<bar>r - a / 100000000\<bar> \<le> a / 900719925474099200000000" by (simp add: pow2_def)
  note close = abs_le_D1 [OF this] abs_le_D2 [OF this]
  have r_low: "a / 200000000 \<le> r" using close a by linarith
  have r_high: "r \<le> a / 50000000" using close a by linarith
  have "pow2 (- 30) \<le> r * 100000000" using r_low a by (simp add: pow2_def field_simps)
  with tiny have "pow2 (- 1022) \<le> r * 100000000" by (rule order_trans)
  moreover have "r * 100000000 \<le> pow2 60" using r_high a by (simp add: pow2_def field_simps)
  ultimately obtain t where t: "f64_round (n < 0) (r * 100000000) = F64_Fin (n < 0) t"
      "\<bar>t - r * 100000000\<bar> \<le> r * 100000000 * pow2 (- 53)"
    using f64_round_near by blast
  have near: "\<bar>t - a\<bar> < 1 / 2"
    using two_roundings [OF _ a(2) _ r(2) t(2)] a(1) by simp
  have "a \<le> t + 1 / 2" using near by linarith
  moreover have "t + 1 / 2 < a + 1" using near by linarith
  ultimately have "\<lfloor>t + 1 / 2\<rfloor> = \<bar>n\<bar>" unfolding a_def by (intro floor_unique)
  moreover have "to_f64_io_only x = F64_Fin (n < 0) r"
    using n r(1) unfolding to_f64_io_only_def f64_scale n_def [symmetric]
    by (subst f64_of_nonzero) (simp_all add: a_def)
  ultimately show ?thesis
    using n t(1) unfolding from_f64_io_only_def f64_scale
    by (cases x) (auto simp: f64_trunc_def clamp_i64_def n_def)
qed

lemma fixed_point_io_roundtrip_witness:
  "from_f64_io_only (to_f64_io_only (FixedPoint (- 12300000001))) = FixedPoint (- 12300000001)"
  by (rule fixed_point_io_roundtrip) simp

end
