(* ===== verification/BinaryHeap.thy ===== *)
theory BinaryHeap
  imports Prelude "HOL-Library.Multiset"
begin

text \<open>
  The standard library's ordering values and its \<open>BinaryHeap\<close>, as far as the code uses them.
  A heap is the list of its elements; \<open>peek\<close> and \<open>pop\<close> give an element that is greatest for the
  element type's \<open>Ord::cmp\<close>, which is all the documentation of \<open>BinaryHeap\<close> promises. Among
  elements that compare equal the model takes the one pushed first; the code's keys are
  distinct, and no property below depends on that choice.

  The locale \<open>total_cmp\<close> holds the laws an \<open>Ord\<close> implementation must satisfy, the locale
  \<open>priority_queue\<close> the contract of the heap; the first gives the second (\<open>sublocale\<close>), and the
  theories \<open>EventQueue\<close> and \<open>Engine\<close> interpret it on the code's own comparison functions.
\<close>

section \<open>Ordering values\<close>

datatype ordering = Less | Equal | Greater

definition ord_cmp :: "'a::linorder \<Rightarrow> 'a \<Rightarrow> ordering" where
  "ord_cmp a b = (if a < b then Less else if a = b then Equal else Greater)"

fun then_with :: "ordering \<Rightarrow> ordering \<Rightarrow> ordering" where
  "then_with Equal r = r"
| "then_with l r = l"

lemma ord_cmp_simps [simp]:
  "ord_cmp a b = Greater \<longleftrightarrow> b < a"
  "ord_cmp a b = Less \<longleftrightarrow> a < b"
  "ord_cmp a b = Equal \<longleftrightarrow> a = b"
  by (auto simp: ord_cmp_def)

lemma then_with_Greater:
  "then_with l r = Greater \<longleftrightarrow> l = Greater \<or> (l = Equal \<and> r = Greater)"
  by (cases l) auto

section \<open>Heap operations\<close>

definition heap_push :: "'a \<Rightarrow> 'a list \<Rightarrow> 'a list" where
  "heap_push x h = h @ [x]"

fun heap_peek :: "('a \<Rightarrow> 'a \<Rightarrow> ordering) \<Rightarrow> 'a list \<Rightarrow> 'a option" where
  "heap_peek cmp [] = None"
| "heap_peek cmp (x # h) =
     (case heap_peek cmp h of
        None \<Rightarrow> Some x
      | Some y \<Rightarrow> if cmp y x \<noteq> Greater then Some x else Some y)"

definition heap_pop :: "('a \<Rightarrow> 'a \<Rightarrow> ordering) \<Rightarrow> 'a list \<Rightarrow> ('a \<times> 'a list) option" where
  "heap_pop cmp h =
     (case heap_peek cmp h of None \<Rightarrow> None | Some x \<Rightarrow> Some (x, remove1 x h))"

lemma heap_peek_None [simp]: "heap_peek cmp h = None \<longleftrightarrow> h = []"
  by (cases h) (auto split: option.splits)

lemma heap_peek_in: "heap_peek cmp h = Some x \<Longrightarrow> x \<in> set h"
  by (induction h arbitrary: x) (auto split: option.splits if_splits)

lemma heap_pop_None [simp]: "heap_pop cmp h = None \<longleftrightarrow> h = []"
  by (auto simp: heap_pop_def split: option.splits)

section \<open>The contract\<close>

locale total_cmp =
  fixes cmp :: "'a \<Rightarrow> 'a \<Rightarrow> ordering"
  assumes cmp_total: "cmp a b \<noteq> Greater \<or> cmp b a \<noteq> Greater"
    and cmp_trans: "cmp a b \<noteq> Greater \<Longrightarrow> cmp b c \<noteq> Greater \<Longrightarrow> cmp a c \<noteq> Greater"

locale priority_queue =
  fixes push :: "'a \<Rightarrow> 'q \<Rightarrow> 'q"
    and peek :: "'q \<Rightarrow> 'a option"
    and pop :: "'q \<Rightarrow> ('a \<times> 'q) option"
    and contents :: "'q \<Rightarrow> 'a multiset"
    and cmp :: "'a \<Rightarrow> 'a \<Rightarrow> ordering"
  assumes contents_push: "contents (push x q) = add_mset x (contents q)"
    and peek_None: "peek q = None \<longleftrightarrow> contents q = {#}"
    and peek_greatest: "peek q = Some x \<Longrightarrow> y \<in># contents q \<Longrightarrow> cmp y x \<noteq> Greater"
    and pop_None: "pop q = None \<longleftrightarrow> peek q = None"
    and pop_peek: "pop q = Some (x, q') \<Longrightarrow> peek q = Some x"
    and contents_pop: "pop q = Some (x, q') \<Longrightarrow> contents q = add_mset x (contents q')"
begin

lemma pop_greatest: "pop q = Some (x, q') \<Longrightarrow> y \<in># contents q \<Longrightarrow> cmp y x \<noteq> Greater"
  by (rule peek_greatest [OF pop_peek])

lemma peek_member: "peek q = Some x \<Longrightarrow> x \<in># contents q"
proof -
  assume *: "peek q = Some x"
  then have "pop q \<noteq> None" by (simp add: pop_None)
  then obtain y q' where y: "pop q = Some (y, q')" by auto
  with * have "y = x" using pop_peek by fastforce
  with contents_pop [OF y] show ?thesis by simp
qed

lemma pop_size: "pop q = Some (x, q') \<Longrightarrow> size (contents q') < size (contents q)"
  by (drule contents_pop) simp

lemma pop_push_le:
  assumes "pop (push x q) = Some (y, q')"
  shows "cmp x y \<noteq> Greater"
  using assms by (rule pop_greatest) (simp add: contents_push)

end

context total_cmp begin

lemma heap_peek_greatest: "heap_peek cmp h = Some x \<Longrightarrow> y \<in> set h \<Longrightarrow> cmp y x \<noteq> Greater"
proof (induction h arbitrary: x y)
  case (Cons a h)
  note refl = cmp_total [of z z for z, simplified]
  show ?case
  proof (cases "heap_peek cmp h")
    case None
    with Cons.prems refl show ?thesis by auto
  next
    case (Some m)
    with Cons.prems(1) have x: "x = (if cmp m a \<noteq> Greater then a else m)" by (simp split: if_splits)
    have am: "cmp a m \<noteq> Greater" if "cmp m a = Greater" using that cmp_total by blast
    have ym: "cmp y m \<noteq> Greater" if "y \<in> set h" using Cons.IH [OF Some that] .
    show ?thesis
      using Cons.prems(2) x am ym refl cmp_trans by (auto split: if_splits)
  qed
qed simp

end

sublocale total_cmp \<subseteq> heap: priority_queue heap_push "heap_peek cmp" "heap_pop cmp" mset cmp
proof
  fix x y :: 'a and q q' :: "'a list"
  show "mset (heap_push x q) = add_mset x (mset q)" by (simp add: heap_push_def)
  show "heap_peek cmp q = None \<longleftrightarrow> mset q = {#}" by simp
  show "heap_peek cmp q = Some x \<Longrightarrow> y \<in># mset q \<Longrightarrow> cmp y x \<noteq> Greater"
    by (rule heap_peek_greatest) simp_all
  show "heap_pop cmp q = None \<longleftrightarrow> heap_peek cmp q = None" by simp
  show "heap_pop cmp q = Some (x, q') \<Longrightarrow> heap_peek cmp q = Some x"
    by (auto simp: heap_pop_def split: option.splits)
  show "heap_pop cmp q = Some (x, q') \<Longrightarrow> mset q = add_mset x (mset q')"
    by (auto simp: heap_pop_def split: option.splits dest: heap_peek_in)
qed

end
