(* ===== verification/EventQueue.thy ===== *)
theory EventQueue
  imports BinaryHeap Types
begin

text \<open>
  \<open>event_queue.rs\<close>: the global queue of events, a max-heap of \<open>QueuedEvent\<close> whose reversed
  comparison makes the least \<open>(ts_sim, seq)\<close> the first to leave. The theory interprets the
  priority-queue contract on the queue's own operations and shows that draining the queue
  lists its events in the order of their identifiers.
\<close>

datatype queued_event = QueuedEvent (qe_event: event)

definition queued_cmp :: "queued_event \<Rightarrow> queued_event \<Rightarrow> ordering" where
  "queued_cmp self other = ord_cmp (ev_id (qe_event other)) (ev_id (qe_event self))"

record event_queue =
  eq_heap :: "queued_event list"

definition eq_new :: event_queue where
  "eq_new = \<lparr>eq_heap = []\<rparr>"

definition eq_len :: "event_queue \<Rightarrow> nat" where
  "eq_len q = length (eq_heap q)"

definition eq_is_empty :: "event_queue \<Rightarrow> bool" where
  "eq_is_empty q \<longleftrightarrow> eq_heap q = []"

definition eq_peek :: "event_queue \<Rightarrow> event option" where
  "eq_peek q = map_option qe_event (heap_peek queued_cmp (eq_heap q))"

definition eq_push :: "event \<Rightarrow> event_queue \<Rightarrow> event_queue" where
  "eq_push e q = q\<lparr>eq_heap := heap_push (QueuedEvent e) (eq_heap q)\<rparr>"

definition eq_pop :: "event_queue \<Rightarrow> (event \<times> event_queue) option" where
  "eq_pop q =
     map_option (\<lambda>(qe, h). (qe_event qe, q\<lparr>eq_heap := h\<rparr>)) (heap_pop queued_cmp (eq_heap q))"

definition eq_events :: "event_queue \<Rightarrow> event multiset" where
  "eq_events q = image_mset qe_event (mset (eq_heap q))"

definition event_cmp :: "event \<Rightarrow> event \<Rightarrow> ordering" where
  "event_cmp a b = queued_cmp (QueuedEvent a) (QueuedEvent b)"

section \<open>The contract, on the code's comparison\<close>

interpretation queued: total_cmp queued_cmp
  by unfold_locales (auto simp: queued_cmp_def not_less)

lemma eq_peek_some: "eq_peek q = Some e \<longleftrightarrow> heap_peek queued_cmp (eq_heap q) = Some (QueuedEvent e)"
  by (cases "heap_peek queued_cmp (eq_heap q)") (auto simp: eq_peek_def queued_event.expand)

lemma eq_pop_some:
  "eq_pop q = Some (e, q') \<longleftrightarrow>
     (\<exists>h. heap_pop queued_cmp (eq_heap q) = Some (QueuedEvent e, h) \<and> q' = q\<lparr>eq_heap := h\<rparr>)"
  by (auto simp: eq_pop_def)

lemma eq_events_set: "e \<in># eq_events q \<longleftrightarrow> QueuedEvent e \<in> set (eq_heap q)"
  by (force simp: eq_events_def)

interpretation eventq: priority_queue eq_push eq_peek eq_pop eq_events event_cmp
proof
  fix x y :: event and q q' :: event_queue
  show "eq_events (eq_push x q) = add_mset x (eq_events q)"
    by (simp add: eq_events_def eq_push_def heap_push_def)
  show "eq_peek q = None \<longleftrightarrow> eq_events q = {#}"
    by (simp add: eq_peek_def eq_events_def)
  show "eq_peek q = Some x \<Longrightarrow> y \<in># eq_events q \<Longrightarrow> event_cmp y x \<noteq> Greater"
    by (simp add: eq_peek_some eq_events_set event_cmp_def queued.heap_peek_greatest)
  show "eq_pop q = None \<longleftrightarrow> eq_peek q = None"
    by (simp add: eq_pop_def eq_peek_def)
  show "eq_pop q = Some (x, q') \<Longrightarrow> eq_peek q = Some x"
    by (auto simp: eq_pop_some eq_peek_some dest: queued.heap.pop_peek)
  show "eq_pop q = Some (x, q') \<Longrightarrow> eq_events q = add_mset x (eq_events q')"
    by (auto simp: eq_pop_some eq_events_def dest: queued.heap.contents_pop)
qed

lemma event_cmp_iff [simp]: "event_cmp a b \<noteq> Greater \<longleftrightarrow> ev_id b \<le> ev_id a"
  by (simp add: event_cmp_def queued_cmp_def not_less)

text \<open>What the engine uses: the popped event has the least identifier.\<close>

lemma eq_events_new [simp]: "eq_events eq_new = {#}"
  by (simp add: eq_events_def eq_new_def)

lemma eq_events_push [simp]: "eq_events (eq_push e q) = add_mset e (eq_events q)"
  by (rule eventq.contents_push)

lemma eq_peek_least: "eq_peek q = Some e \<Longrightarrow> e' \<in># eq_events q \<Longrightarrow> ev_id e \<le> ev_id e'"
  using eventq.peek_greatest by simp

lemma eq_pop_least: "eq_pop q = Some (e, q') \<Longrightarrow> e' \<in># eq_events q \<Longrightarrow> ev_id e \<le> ev_id e'"
  using eventq.pop_greatest by simp

lemma eq_pop_events: "eq_pop q = Some (e, q') \<Longrightarrow> eq_events q = add_mset e (eq_events q')"
  by (rule eventq.contents_pop)

lemma eq_len_events: "eq_len q = size (eq_events q)"
  by (simp add: eq_len_def eq_events_def)

section \<open>Draining the queue\<close>

text \<open>Popping until the queue is empty, as the run loop does when no handler pushes.\<close>

function eq_drain :: "event_queue \<Rightarrow> event list" where
  "eq_drain q = (case eq_pop q of None \<Rightarrow> [] | Some (e, q') \<Rightarrow> e # eq_drain q')"
  by pat_completeness auto
termination
  by (relation "measure eq_len") (auto simp: eq_len_events dest: eventq.pop_size)

declare eq_drain.simps [simp del]

lemma mset_eq_drain: "mset (eq_drain q) = eq_events q"
proof (induction q rule: eq_drain.induct)
  case (1 q)
  show ?case
  proof (cases "eq_pop q")
    case None
    then have "eq_events q = {#}" by (simp add: eventq.pop_None eventq.peek_None)
    with None show ?thesis by (simp add: eq_drain.simps [of q])
  next
    case (Some p)
    then obtain e q' where p: "eq_pop q = Some (e, q')" by (cases p) auto
    with 1 have "mset (eq_drain q') = eq_events q'" by simp
    with p show ?thesis by (simp add: eq_drain.simps [of q] eq_pop_events)
  qed
qed

lemma sorted_eq_drain: "sorted (map ev_id (eq_drain q))"
proof (induction q rule: eq_drain.induct)
  case (1 q)
  show ?case
  proof (cases "eq_pop q")
    case None
    then show ?thesis by (simp add: eq_drain.simps [of q])
  next
    case (Some p)
    then obtain e q' where p: "eq_pop q = Some (e, q')" by (cases p) auto
    have "ev_id e \<le> ev_id e'" if "e' \<in> set (eq_drain q')" for e'
    proof -
      from that have "e' \<in># eq_events q'" by (simp flip: mset_eq_drain)
      with eq_pop_events [OF p] have "e' \<in># eq_events q" by simp
      with p show ?thesis by (rule eq_pop_least)
    qed
    with p 1 show ?thesis by (simp add: eq_drain.simps [of q])
  qed
qed

definition eq_push_all :: "event list \<Rightarrow> event_queue \<Rightarrow> event_queue" where
  "eq_push_all es q = fold eq_push es q"

lemma eq_events_push_all: "eq_events (eq_push_all es q) = eq_events q + mset es"
  unfolding eq_push_all_def by (induction es arbitrary: q) auto

text \<open>
  C14. Whatever events are pushed, and in whatever order, draining the queue returns exactly
  these events, each as often as it was pushed, in ascending order of \<open>(ts_sim, seq)\<close>; when no
  two carry the same identifier, the order is strict, so it does not depend on the order of
  the pushes.
\<close>

theorem event_queue_drains_in_order:
  "mset (eq_drain (eq_push_all es eq_new)) = mset es \<and>
   sorted (map ev_id (eq_drain (eq_push_all es eq_new))) \<and>
   (distinct (map ev_id es) \<longrightarrow>
      sorted_wrt (<) (map ev_id (eq_drain (eq_push_all es eq_new))))"
proof -
  let ?d = "eq_drain (eq_push_all es eq_new)"
  have m: "mset ?d = mset es" by (simp add: mset_eq_drain eq_events_push_all)
  have s: "sorted (map ev_id ?d)" by (rule sorted_eq_drain)
  have "mset (map ev_id ?d) = mset (map ev_id es)" using m by simp
  then have "distinct (map ev_id es) \<Longrightarrow> distinct (map ev_id ?d)"
    by (metis mset_eq_imp_distinct_iff)
  with m s show ?thesis by (auto simp: strict_sorted_iff)
qed

definition sample_event :: "i64 \<Rightarrow> u64 \<Rightarrow> event" where
  "sample_event t n = \<lparr>ev_id = EventId t n, ev_kind = Timer n\<rparr>"

theorem event_queue_drains_in_order_witness:
  "sorted_wrt (<) (map ev_id (eq_drain (eq_push_all [sample_event 2000 0, sample_event 1000 2, sample_event 1000 1] eq_new)))"
  using event_queue_drains_in_order [of "[sample_event 2000 0, sample_event 1000 2, sample_event 1000 1]"]
  by (simp add: sample_event_def)

end
