(* ===== verification/Fixtures.thy ===== *)
theory Fixtures
  imports EventQueue
begin

text \<open>
  The builders and the sample stream of \<open>fixtures.rs\<close>, which the tests and benches of the repository
  share. The stream is one a source may deliver: ascending in time and sequence, of one symbol.
\<close>

definition SYMBOL_ID_BTC_USDT :: u32 where
  "SYMBOL_ID_BTC_USDT = 1"

definition tick_trade :: "i64 \<Rightarrow> i64 \<Rightarrow> u64 \<Rightarrow> tick" where
  "tick_trade ts_exchange ts_local sq =
     \<lparr>tk_ts_exchange = ts_exchange, tk_ts_local = ts_local, tk_seq = sq,
      tk_price = 10000000000, tk_qty = 100000000, tk_symbol_id = SYMBOL_ID_BTC_USDT,
      tk_side = Buy, tk_flags = 1\<rparr>"

definition fixture_l2_update :: "i64 \<Rightarrow> u64 \<Rightarrow> i64 \<Rightarrow> i64 \<Rightarrow> side \<Rightarrow> l2_update" where
  "fixture_l2_update ts_exchange sq price qty sd =
     \<lparr>l2_ts_exchange = ts_exchange, l2_seq = sq, l2_price = price, l2_qty = qty,
      l2_symbol_id = SYMBOL_ID_BTC_USDT, l2_side = sd\<rparr>"

definition order_limit :: "u64 \<Rightarrow> i64 \<Rightarrow> u64 \<Rightarrow> i64 \<Rightarrow> i64 \<Rightarrow> side \<Rightarrow> order" where
  "order_limit order_id ts_submit sq price qty sd =
     \<lparr>od_order_id = order_id, od_client_order_id = 0, od_ts_submit = ts_submit, od_seq = sq,
      od_price = price, od_qty = qty, od_symbol_id = SYMBOL_ID_BTC_USDT, od_side = sd,
      od_order_type = Limit\<rparr>"

definition event_tick :: "i64 \<Rightarrow> u64 \<Rightarrow> tick \<Rightarrow> event" where
  "event_tick t s tick = \<lparr>ev_id = EventId t s, ev_kind = TickEvent tick\<rparr>"

definition event_l2 :: "i64 \<Rightarrow> u64 \<Rightarrow> l2_update \<Rightarrow> event" where
  "event_l2 t s update = \<lparr>ev_id = EventId t s, ev_kind = L2UpdateEvent update\<rparr>"

definition event_order :: "i64 \<Rightarrow> u64 \<Rightarrow> order \<Rightarrow> event" where
  "event_order t s ord = \<lparr>ev_id = EventId t s, ev_kind = OrderEvent ord\<rparr>"

definition tiny_deterministic_tick_stream :: "tick list" where
  "tiny_deterministic_tick_stream =
     [\<lparr>tk_ts_exchange = 1000, tk_ts_local = 1000, tk_seq = 0, tk_price = 10000000000,
       tk_qty = 100000000, tk_symbol_id = SYMBOL_ID_BTC_USDT, tk_side = Buy, tk_flags = 1\<rparr>,
      \<lparr>tk_ts_exchange = 2000, tk_ts_local = 2000, tk_seq = 1, tk_price = 10100000000,
       tk_qty = 100000000, tk_symbol_id = SYMBOL_ID_BTC_USDT, tk_side = Sell, tk_flags = 1\<rparr>,
      \<lparr>tk_ts_exchange = 3000, tk_ts_local = 3000, tk_seq = 2, tk_price = 9900000000,
       tk_qty = 100000000, tk_symbol_id = SYMBOL_ID_BTC_USDT, tk_side = Buy, tk_flags = 1\<rparr>,
      \<lparr>tk_ts_exchange = 4000, tk_ts_local = 4000, tk_seq = 3, tk_price = 10000000000,
       tk_qty = 100000000, tk_symbol_id = SYMBOL_ID_BTC_USDT, tk_side = Sell, tk_flags = 1\<rparr>]"

section \<open>What the tests rely on\<close>

definition event_of_tick :: "tick \<Rightarrow> event" where
  "event_of_tick tick = event_tick (tk_ts_exchange tick) (tk_seq tick) tick"

lemma tiny_stream_sorted:
  "sorted_wrt (\<lambda>a b. ev_id a < ev_id b) (map event_of_tick tiny_deterministic_tick_stream)"
  by (simp add: tiny_deterministic_tick_stream_def event_of_tick_def event_tick_def less_event_id_def)

lemma tiny_stream_one_symbol:
  "tick \<in> set tiny_deterministic_tick_stream \<Longrightarrow>
     tk_symbol_id tick = SYMBOL_ID_BTC_USDT \<and> tk_ts_exchange tick \<le> tk_ts_local tick \<and> tk_flags tick = 1"
  by (auto simp: tiny_deterministic_tick_stream_def)

end
