(* ===== verification/RiskGuard.thy ===== *)
theory RiskGuard
  imports Account
begin

text \<open>
  \<open>risk_guard.rs\<close>: the pre-trade checks and the kill switch. \<open>check_order\<close> returns the reason
  of a rejection or \<open>None\<close>; \<open>update_pnl\<close> is called with every realised or funding PnL. The
  theorems say what the checks guarantee and that the switch latches.
\<close>

record risk_guard =
  rg_max_open_orders :: usize
  rg_max_position :: i64
  rg_max_loss :: i64
  rg_killed :: bool
  rg_running_pnl :: i64

definition risk_guard_new :: "usize \<Rightarrow> i64 \<Rightarrow> i64 \<Rightarrow> risk_guard" where
  "risk_guard_new max_open_orders max_position max_loss =
     \<lparr>rg_max_open_orders = max_open_orders, rg_max_position = max_position,
      rg_max_loss = max_loss, rg_killed = False, rg_running_pnl = 0\<rparr>"

definition risk_guard_default :: risk_guard where
  "risk_guard_default = risk_guard_new 0 0 0"

definition check_order :: "risk_guard \<Rightarrow> order \<Rightarrow> usize \<Rightarrow> i64 \<Rightarrow> string option" where
  "check_order g ord open_order_count current_position_qty =
     (if rg_killed g then Some ''risk: kill_switch active''
      else if rg_max_open_orders g > 0 \<and> open_order_count \<ge> rg_max_open_orders g
      then Some ''risk: max_open_orders exceeded''
      else if rg_max_position g > 0 \<and>
        \<bar>current_position_qty + (case od_side ord of Buy \<Rightarrow> od_qty ord | Sell \<Rightarrow> - od_qty ord | NoSide \<Rightarrow> 0)\<bar>
          > rg_max_position g
      then Some ''risk: max_position exceeded''
      else None)"

definition update_pnl :: "i64 \<Rightarrow> risk_guard \<Rightarrow> risk_guard" where
  "update_pnl delta g =
     (let g1 = g\<lparr>rg_running_pnl := saturating_add (rg_running_pnl g) delta\<rparr>
      in if \<not> rg_killed g1 \<and> rg_max_loss g1 < 0 \<and> rg_running_pnl g1 \<le> rg_max_loss g1
         then g1\<lparr>rg_killed := True\<rparr> else g1)"

definition is_killed :: "risk_guard \<Rightarrow> bool" where
  "is_killed g = rg_killed g"

section \<open>The kill switch\<close>

lemma update_pnl_limits [simp]:
  "rg_max_open_orders (update_pnl d g) = rg_max_open_orders g"
  "rg_max_position (update_pnl d g) = rg_max_position g"
  "rg_max_loss (update_pnl d g) = rg_max_loss g"
  by (simp_all add: update_pnl_def Let_def)

lemma update_pnl_running [simp]:
  "rg_running_pnl (update_pnl d g) = saturating_add (rg_running_pnl g) d"
  by (simp add: update_pnl_def Let_def)

lemma update_pnl_killed:
  "rg_killed (update_pnl d g) \<longleftrightarrow>
     rg_killed g \<or> (rg_max_loss g < 0 \<and> saturating_add (rg_running_pnl g) d \<le> rg_max_loss g)"
  by (auto simp: update_pnl_def Let_def)

text \<open>The running PnL after each of a sequence of updates.\<close>

fun running_pnls :: "i64 \<Rightarrow> i64 list \<Rightarrow> i64 list" where
  "running_pnls r [] = []"
| "running_pnls r (d # ds) = saturating_add r d # running_pnls (saturating_add r d) ds"

lemma fold_update_killed:
  "rg_killed (fold update_pnl ds g) \<longleftrightarrow>
     rg_killed g \<or> (rg_max_loss g < 0 \<and> (\<exists>r\<in>set (running_pnls (rg_running_pnl g) ds). r \<le> rg_max_loss g))"
  by (induction ds arbitrary: g) (auto simp: update_pnl_killed)

lemma fold_update_limits:
  "rg_max_loss (fold update_pnl ds g) = rg_max_loss g"
  by (induction ds arbitrary: g) auto

text \<open>
  The kill switch fires exactly when a loss limit below zero is configured and the running
  PnL has reached it at some point, and it never releases: later profits do not clear it.
\<close>

theorem kill_switch_exact:
  "is_killed (fold update_pnl ds (risk_guard_new max_orders max_pos max_loss)) \<longleftrightarrow>
     max_loss < 0 \<and> (\<exists>r\<in>set (running_pnls 0 ds). r \<le> max_loss)"
  by (simp add: is_killed_def fold_update_killed risk_guard_new_def)

section \<open>Pre-trade checks\<close>

text \<open>
  An order passes the checks exactly when the switch is not on, the open orders are below
  their limit, and the position after a full fill of this order stays within the position
  limit in absolute value; a limit of 0 means no limit.
\<close>

theorem check_order_passes_iff:
  "check_order g ord count pos = None \<longleftrightarrow>
     \<not> is_killed g \<and>
     (rg_max_open_orders g = 0 \<or> count < rg_max_open_orders g) \<and>
     (rg_max_position g \<le> 0 \<or>
      \<bar>pos + (case od_side ord of Buy \<Rightarrow> od_qty ord | Sell \<Rightarrow> - od_qty ord | NoSide \<Rightarrow> 0)\<bar> \<le> rg_max_position g)"
  by (auto simp: check_order_def is_killed_def)

definition limit_order :: "u64 \<Rightarrow> order" where
  "limit_order i = \<lparr>od_order_id = i, od_client_order_id = 0, od_ts_submit = 0, od_seq = 0,
     od_price = 100, od_qty = 60, od_symbol_id = 1, od_side = Buy, od_order_type = Limit\<rparr>"

text \<open>
  The position limit looks at one order at a time: two buy orders that each pass the check
  on the same flat position take the account past the limit when both fill.
\<close>

theorem position_limit_not_cumulative:
  "\<exists>g. rg_max_position g = 100 \<and>
     check_order g (limit_order 1) 0 (position_qty account_new 1) = None \<and>
     check_order g (limit_order 2) 1 (position_qty account_new 1) = None \<and>
     position_qty (snd (on_fill (limit_order 2) 60 100 (snd (on_fill (limit_order 1) 60 100 account_new)))) 1
       = 120"
  by (rule exI [of _ "risk_guard_new 0 100 0"]) code_simp

end
