(* ===== verification/Tuner.thy ===== *)
theory Tuner
  imports F64
begin

text \<open>
  \<open>tuner.rs\<close>: the batch-size tuner, additive increase and multiplicative decrease every tenth
  recorded batch. The theorem says the size never leaves the configured interval.
\<close>

record batch_tuner =
  bt_min_batch_ns :: i64
  bt_max_batch_ns_limit :: i64
  bt_target_latency_per_tick_ns :: f64
  bt_current_batch_ns :: i64
  bt_sample_count :: u64

text \<open>\<open>i64::clamp\<close>.\<close>

definition clamp_between :: "i64 \<Rightarrow> i64 \<Rightarrow> i64 \<Rightarrow> i64" where
  "clamp_between lo hi v = max lo (min hi v)"

definition tuner_new :: "i64 \<Rightarrow> i64 \<Rightarrow> i64 \<Rightarrow> f64 \<Rightarrow> batch_tuner" where
  "tuner_new min_batch_ns max_batch_ns_limit initial_batch_ns target =
     (let effective_min = min min_batch_ns max_batch_ns_limit;
          effective_max = max min_batch_ns max_batch_ns_limit
      in \<lparr>bt_min_batch_ns = effective_min, bt_max_batch_ns_limit = effective_max,
          bt_target_latency_per_tick_ns = target,
          bt_current_batch_ns = clamp_between effective_min effective_max initial_batch_ns,
          bt_sample_count = 0\<rparr>)"

definition current_batch_ns :: "batch_tuner \<Rightarrow> i64" where
  "current_batch_ns t = bt_current_batch_ns t"

definition record_batch :: "i64 \<Rightarrow> u64 \<Rightarrow> batch_tuner \<Rightarrow> batch_tuner" where
  "record_batch batch_duration_ns num_ticks t =
     (if num_ticks = 0 then t
      else
        let t1 = t\<lparr>bt_sample_count := u64_wrapping_succ (bt_sample_count t)\<rparr>;
            latency_per_tick = f64_div (f64_of_int batch_duration_ns) (f64_of_int (int num_ticks))
        in if bt_sample_count t1 mod 10 \<noteq> 0 then t1
           else if f64_lt latency_per_tick (bt_target_latency_per_tick_ns t1) then
             let increase = max (bt_current_batch_ns t1 sdiv 10) 100000
             in t1\<lparr>bt_current_batch_ns :=
                  min (add_i64 (bt_current_batch_ns t1) increase) (bt_max_batch_ns_limit t1)\<rparr>
           else
             let reduced = f64_as_i64 (f64_mul (f64_of_int (bt_current_batch_ns t1))
                             (f64_of_rat False (4 / 5)))
             in t1\<lparr>bt_current_batch_ns :=
                  clamp_between (bt_min_batch_ns t1) (bt_max_batch_ns_limit t1) reduced\<rparr>)"

definition tuner_ok :: "batch_tuner \<Rightarrow> bool" where
  "tuner_ok t \<longleftrightarrow>
     bt_min_batch_ns t \<le> bt_current_batch_ns t \<and>
     bt_current_batch_ns t \<le> bt_max_batch_ns_limit t \<and>
     0 \<le> bt_min_batch_ns t \<and> bt_max_batch_ns_limit t \<le> 4611686018427387903"

lemma tuner_new_ok:
  assumes "0 \<le> a" and "0 \<le> b" and "a \<le> 4611686018427387903" and "b \<le> 4611686018427387903"
  shows "tuner_ok (tuner_new a b initial target)"
  using assms by (auto simp: tuner_ok_def tuner_new_def clamp_between_def Let_def)

lemma record_batch_limits [simp]:
  "bt_min_batch_ns (record_batch d n t) = bt_min_batch_ns t"
  "bt_max_batch_ns_limit (record_batch d n t) = bt_max_batch_ns_limit t"
  by (simp_all add: record_batch_def Let_def)

lemma record_batch_ok:
  assumes "tuner_ok t"
  shows "tuner_ok (record_batch d n t)"
proof -
  let ?c = "bt_current_batch_ns t"
  from assms have c: "0 \<le> ?c" "?c \<le> 4611686018427387903" by (simp_all add: tuner_ok_def)
  then have "?c sdiv 10 \<le> ?c" by (simp add: sdiv_pos_eq)
  with c have "in_i64 (?c + max (?c sdiv 10) 100000)" by (auto simp: in_i64_def max_def)
  then have "add_i64 ?c (max (?c sdiv 10) 100000) = ?c + max (?c sdiv 10) 100000"
    by (rule add_i64_exact)
  with assms show ?thesis
    by (auto simp: tuner_ok_def record_batch_def Let_def clamp_between_def)
qed

text \<open>
  After any number of recorded batches, whatever their durations and sizes, the batch size
  lies within the configured limits (for limits below half the 64-bit range, where the
  increase cannot overflow).
\<close>

theorem tuner_stays_in_limits:
  assumes "0 \<le> a" and "a \<le> b" and "b \<le> 4611686018427387903"
  shows "a \<le> current_batch_ns (fold (\<lambda>(d, n). record_batch d n) batches (tuner_new a b initial target)) \<and>
    current_batch_ns (fold (\<lambda>(d, n). record_batch d n) batches (tuner_new a b initial target)) \<le> b"
proof -
  let ?t = "tuner_new a b initial target"
  have limits: "bt_min_batch_ns (fold (\<lambda>(d, n). record_batch d n) batches t) = bt_min_batch_ns t \<and>
    bt_max_batch_ns_limit (fold (\<lambda>(d, n). record_batch d n) batches t) = bt_max_batch_ns_limit t" for t
    by (induction batches arbitrary: t) (auto simp: case_prod_beta)
  have "tuner_ok t \<Longrightarrow> tuner_ok (fold (\<lambda>(d, n). record_batch d n) batches t)" for t
    by (induction batches arbitrary: t) (auto simp: case_prod_beta record_batch_ok)
  with tuner_new_ok [of a b initial target] assms
  have "tuner_ok (fold (\<lambda>(d, n). record_batch d n) batches ?t)" by simp
  moreover have "bt_min_batch_ns ?t = a" "bt_max_batch_ns_limit ?t = b"
    using assms by (simp_all add: tuner_new_def Let_def)
  ultimately show ?thesis using limits [of ?t] by (simp add: tuner_ok_def current_batch_ns_def)
qed

theorem tuner_stays_in_limits_witness:
  "current_batch_ns (fold (\<lambda>(d, n). record_batch d n) [(5000, 100), (20000, 1)]
     (tuner_new 1000 10000000 1000 (f64_of_int 100))) \<le> 10000000"
  using tuner_stays_in_limits [of 1000 10000000 "[(5000, 100), (20000, 1)]" 1000 "f64_of_int 100"]
  by simp

end
