(* ===== verification/Latency.thy ===== *)
theory Latency
  imports F64
begin

text \<open>
  \<open>latency_model.rs\<close> and \<open>rng.rs\<close>. A latency model is the record of its two methods over a
  generator state, which the engine owns and passes in. The generator (\<open>SmallRng\<close>) and the
  platform's \<open>ln\<close>, \<open>exp\<close> and \<open>cos\<close> are arguments.
\<close>

record 'rng latency_model =
  lm_sample_feed_latency :: "i64 \<Rightarrow> 'rng \<Rightarrow> i64 \<times> 'rng"
  lm_sample_order_latency :: "i64 \<Rightarrow> 'rng \<Rightarrow> i64 \<times> 'rng"

section \<open>Constant latency\<close>

record constant_latency =
  cl_feed_latency_ns :: i64
  cl_order_latency_ns :: i64

definition constant_model :: "constant_latency \<Rightarrow> 'rng latency_model" where
  "constant_model c =
     \<lparr>lm_sample_feed_latency = (\<lambda>_ rng. (max (cl_feed_latency_ns c) 0, rng)),
      lm_sample_order_latency = (\<lambda>_ rng. (max (cl_order_latency_ns c) 0, rng))\<rparr>"

section \<open>Log-normal jitter\<close>

record lognormal_jitter =
  lj_mean_ns :: i64
  lj_std_dev_ns :: i64

record math_fns =
  mf_ln :: "f64 \<Rightarrow> f64"
  mf_exp :: "f64 \<Rightarrow> f64"
  mf_cos :: "f64 \<Rightarrow> f64"

definition f64_min_positive :: f64 where
  "f64_min_positive = F64_Fin False (1 / 2 ^ 1022)"

definition f64_pi :: f64 where
  "f64_pi = F64_Fin False (884279719003555 / 281474976710656)"

text \<open>The end of the sampling function: the clamped conversion to nanoseconds.\<close>

definition lognormal_to_ns :: "f64 \<Rightarrow> i64" where
  "lognormal_to_ns x =
     (if \<not> f64_is_finite x \<or> \<not> f64_lt x (f64_of_int i64_max) then i64_max
      else max (f64_as_i64 (f64_round_int x)) 0)"

definition sample_lognormal_ns ::
  "math_fns \<Rightarrow> ('rng \<Rightarrow> f64 \<times> 'rng) \<Rightarrow> lognormal_jitter \<Rightarrow> 'rng \<Rightarrow> i64 \<times> 'rng" where
  "sample_lognormal_ns m gen_f64 j rng =
     (let mean_ns = f64_of_int (max (lj_mean_ns j) 0);
          std_dev_ns = f64_of_int (max (lj_std_dev_ns j) 0)
      in if f64_eq mean_ns f64_zero then (0, rng)
         else if f64_eq std_dev_ns f64_zero then (max (lj_mean_ns j) 0, rng)
         else
           let var_ratio = f64_div (f64_mul std_dev_ns std_dev_ns) (f64_mul mean_ns mean_ns);
               sigma2 = mf_ln m (f64_add (f64_of_int 1) var_ratio);
               sigma = f64_sqrt sigma2;
               mu = f64_sub (mf_ln m mean_ns) (f64_mul (F64_Fin False (1 / 2)) sigma2);
               (u1, rng1) = gen_f64 rng;
               u1 = (if f64_eq u1 f64_zero then f64_min_positive else u1);
               (u2, rng2) = gen_f64 rng1;
               z0 = f64_mul (f64_sqrt (f64_mul (f64_of_int (- 2)) (mf_ln m u1)))
                     (mf_cos m (f64_mul (f64_mul (f64_of_int 2) f64_pi) u2));
               x = mf_exp m (f64_add mu (f64_mul sigma z0))
           in (lognormal_to_ns x, rng2))"

definition lognormal_model ::
  "math_fns \<Rightarrow> ('rng \<Rightarrow> f64 \<times> 'rng) \<Rightarrow> lognormal_jitter \<Rightarrow> 'rng latency_model" where
  "lognormal_model m gen_f64 j =
     \<lparr>lm_sample_feed_latency = (\<lambda>_ rng. sample_lognormal_ns m gen_f64 j rng),
      lm_sample_order_latency = (\<lambda>_ rng. sample_lognormal_ns m gen_f64 j rng)\<rparr>"

section \<open>The contract\<close>

text \<open>A latency is never negative and is a 64-bit value.\<close>

locale latency_laws =
  fixes lm :: "'rng latency_model" and params_ok :: bool
  assumes order_latency: "params_ok \<Longrightarrow> lm_sample_order_latency lm ts rng = (dt, rng') \<Longrightarrow> 0 \<le> dt \<and> in_i64 dt"
    and feed_latency: "params_ok \<Longrightarrow> lm_sample_feed_latency lm ts rng = (dt, rng') \<Longrightarrow> 0 \<le> dt \<and> in_i64 dt"
begin

lemma order_latency_max: "params_ok \<Longrightarrow> max (fst (lm_sample_order_latency lm ts rng)) 0 = fst (lm_sample_order_latency lm ts rng)"
  using order_latency [of ts rng] by (cases "lm_sample_order_latency lm ts rng") simp

end

interpretation constant_lm: latency_laws "constant_model c"
  "in_i64 (cl_feed_latency_ns c) \<and> in_i64 (cl_order_latency_ns c)" for c
  by unfold_locales (auto simp: constant_model_def in_i64_def)

lemma f64_as_i64_range: "in_i64 (f64_as_i64 x)"
  by (cases x) (auto simp: in_i64_def [of i64_max] in_i64_def [of i64_min])

lemma lognormal_to_ns_range: "0 \<le> lognormal_to_ns x \<and> in_i64 (lognormal_to_ns x)"
proof -
  have "in_i64 (max (f64_as_i64 (f64_round_int x)) 0)"
    using f64_as_i64_range [of "f64_round_int x"] by (simp add: max_def)
  then show ?thesis by (simp add: lognormal_to_ns_def in_i64_def [of i64_max])
qed

lemma sample_lognormal_range:
  assumes "in_i64 (lj_mean_ns j)" and "sample_lognormal_ns m g j rng = (dt, rng')"
  shows "0 \<le> dt \<and> in_i64 dt"
proof -
  have "dt = 0 \<or> dt = max (lj_mean_ns j) 0 \<or> (\<exists>x. dt = lognormal_to_ns x)"
    using assms(2) unfolding sample_lognormal_ns_def Let_def case_prod_beta
    by (metis prod.inject)
  moreover have "in_i64 (max (lj_mean_ns j) 0)" using assms(1) by (simp add: max_def)
  ultimately show ?thesis using lognormal_to_ns_range by auto
qed

interpretation lognormal_lm: latency_laws "lognormal_model m g j" "in_i64 (lj_mean_ns j)" for m g j
  by unfold_locales (auto simp: lognormal_model_def dest: sample_lognormal_range)

text \<open>
  The log-normal jitter model returns a latency between 0 and the largest 64-bit value for
  every generator, every mean and deviation, and whatever the platform's logarithm, exponential
  and cosine return, NaN and infinities included.
\<close>

theorem lognormal_latency_range:
  assumes "in_i64 (lj_mean_ns j)"
  shows "0 \<le> fst (sample_lognormal_ns m gen_f64 j rng) \<and> in_i64 (fst (sample_lognormal_ns m gen_f64 j rng))"
  using sample_lognormal_range [OF assms, of m gen_f64 rng] by (metis prod.collapse)

theorem lognormal_latency_range_witness:
  "0 \<le> fst (sample_lognormal_ns \<lparr>mf_ln = (\<lambda>x. F64_NaN), mf_exp = (\<lambda>x. x), mf_cos = (\<lambda>x. x)\<rparr>
     (\<lambda>r. (f64_zero, r)) \<lparr>lj_mean_ns = 1000000, lj_std_dev_ns = 250000\<rparr> (0::nat))"
  by (rule conjunct1 [OF lognormal_latency_range]) (simp add: in_i64_def)

end
