(* ===== verification/ArrowSource.thy ===== *)
theory ArrowSource
  imports Types
begin

text \<open>
  \<open>tick_source.rs\<close> and \<open>l3_source.rs\<close>: ticks and L3 updates read from Arrow record batches.

  Arrow itself is not part of the repository. A column is what the code observes of one: its
  type, its null count and its integer values; the cast kernel is the argument \<open>cast\<close>; a
  record batch is the number of its rows and its named columns; and the reader, an iterator of
  batches or errors, is the list of what it yields. The two sources repeat the same cursor over
  batches (\<open>advance\<close>, \<open>peek\<close>, \<open>next\<close>) for their row types; the cursor is modelled once, with the
  functions that load a batch and read a row as arguments, and instantiated for both.
\<close>

section \<open>Columns\<close>

datatype data_type =
  DT_Int8 | DT_Int16 | DT_Int32 | DT_Int64 | DT_UInt8 | DT_UInt16 | DT_UInt32 | DT_UInt64
  | DT_Other string

datatype 'ae arrow_error = CastError string | ArrowOther 'ae

record column =
  ac_data_type :: data_type
  ac_null_count :: usize
  ac_values :: "int list"

type_synonym 'ae cast_fn = "column \<Rightarrow> data_type \<Rightarrow> 'ae arrow_error + column"

record record_batch =
  rb_num_rows :: usize
  rb_columns :: "(string \<times> column) list"

definition column_by_name :: "record_batch \<Rightarrow> string \<Rightarrow> column option" where
  "column_by_name b name = map_of (rb_columns b) name"

datatype 'ae tick_source_error =
    MissingColumn "string list"
  | NonIntegerColumn string data_type
  | NullColumn string
  | Cast string data_type "'ae arrow_error"
  | OutOfRange string data_type
  | InvalidSide int
  | Reader "'ae arrow_error"

text \<open>
  \<open>Display\<close> of the errors. How a data type prints with \<open>{:?}\<close> is its constructor's name; how an
  Arrow error prints is the argument \<open>show_arrow\<close>.
\<close>

fun show_data_type :: "data_type \<Rightarrow> string" where
  "show_data_type DT_Int8 = ''Int8''"
| "show_data_type DT_Int16 = ''Int16''"
| "show_data_type DT_Int32 = ''Int32''"
| "show_data_type DT_Int64 = ''Int64''"
| "show_data_type DT_UInt8 = ''UInt8''"
| "show_data_type DT_UInt16 = ''UInt16''"
| "show_data_type DT_UInt32 = ''UInt32''"
| "show_data_type DT_UInt64 = ''UInt64''"
| "show_data_type (DT_Other s) = s"

fun join :: "string \<Rightarrow> string list \<Rightarrow> string" where
  "join sep [] = []"
| "join sep [s] = s"
| "join sep (s # t # ss) = s @ sep @ join sep (t # ss)"

fun show_tick_source_error :: "('ae arrow_error \<Rightarrow> string) \<Rightarrow> 'ae tick_source_error \<Rightarrow> string" where
  "show_tick_source_error show_arrow (MissingColumn names) = ''missing '' @ join ''/'' names"
| "show_tick_source_error show_arrow (NonIntegerColumn name ty) =
     name @ '' is not an integer column (got '' @ show_data_type ty @ '')''"
| "show_tick_source_error show_arrow (NullColumn name) = name @ '' column contains nulls''"
| "show_tick_source_error show_arrow (Cast name target e) =
     name @ '' cannot be cast to '' @ show_data_type target @ '': '' @ show_arrow e"
| "show_tick_source_error show_arrow (OutOfRange name target) =
     name @ '' contains values out of '' @ show_data_type target @ '' range''"
| "show_tick_source_error show_arrow (InvalidSide v) =
     ''invalid side '' @ show_int v @ '' (expected 1, -1, or 0)''"
| "show_tick_source_error show_arrow (Reader e) = ''error reading arrow stream: '' @ show_arrow e"

fun is_integer_type :: "data_type \<Rightarrow> bool" where
  "is_integer_type (DT_Other s) = False"
| "is_integer_type _ = True"

definition cast_integer_array ::
  "'ae cast_fn \<Rightarrow> column \<Rightarrow> string \<Rightarrow> data_type \<Rightarrow> 'ae tick_source_error + column" where
  "cast_integer_array cast col name target =
     (if \<not> is_integer_type (ac_data_type col) then Inl (NonIntegerColumn name (ac_data_type col))
      else if ac_null_count col > 0 then Inl (NullColumn name)
      else case cast col target of
             Inl e \<Rightarrow> Inl (Cast name target e)
           | Inr casted \<Rightarrow>
               if ac_null_count casted > 0 then Inl (OutOfRange name target) else Inr casted)"

definition downcast_ref :: "data_type \<Rightarrow> column \<Rightarrow> int list option" where
  "downcast_ref target col = (if ac_data_type col = target then Some (ac_values col) else None)"

text \<open>\<open>integer_array_to_i64\<close>, \<open>_u64\<close> and \<open>_i8\<close> differ in the target type only.\<close>

definition integer_array_to ::
  "data_type \<Rightarrow> 'ae cast_fn \<Rightarrow> column \<Rightarrow> string \<Rightarrow> 'ae tick_source_error + int list" where
  "integer_array_to target cast col name =
     (case cast_integer_array cast col name target of
        Inl e \<Rightarrow> Inl e
      | Inr array \<Rightarrow>
          (case downcast_ref target array of
             Some values \<Rightarrow> Inr values
           | None \<Rightarrow> Inl (Cast name target (CastError ''cast returned wrong type''))))"

definition integer_array_to_i64 :: "'ae cast_fn \<Rightarrow> column \<Rightarrow> string \<Rightarrow> 'ae tick_source_error + int list" where
  "integer_array_to_i64 = integer_array_to DT_Int64"

definition integer_array_to_u64 :: "'ae cast_fn \<Rightarrow> column \<Rightarrow> string \<Rightarrow> 'ae tick_source_error + int list" where
  "integer_array_to_u64 = integer_array_to DT_UInt64"

definition integer_array_to_i8 :: "'ae cast_fn \<Rightarrow> column \<Rightarrow> string \<Rightarrow> 'ae tick_source_error + int list" where
  "integer_array_to_i8 = integer_array_to DT_Int8"

fun find_map :: "('a \<Rightarrow> 'b option) \<Rightarrow> 'a list \<Rightarrow> 'b option" where
  "find_map f [] = None"
| "find_map f (x # xs) = (case f x of None \<Rightarrow> find_map f xs | Some y \<Rightarrow> Some y)"

definition required_column :: "record_batch \<Rightarrow> string list \<Rightarrow> 'ae tick_source_error + column" where
  "required_column b names =
     (case find_map (column_by_name b) names of
        None \<Rightarrow> Inl (MissingColumn names)
      | Some col \<Rightarrow> Inr col)"

definition bind_err :: "'e + 'a \<Rightarrow> ('a \<Rightarrow> 'e + 'b) \<Rightarrow> 'e + 'b" where
  "bind_err x f = (case x of Inl e \<Rightarrow> Inl e | Inr v \<Rightarrow> f v)"

definition get_required_i64 :: "'ae cast_fn \<Rightarrow> record_batch \<Rightarrow> string list \<Rightarrow> 'ae tick_source_error + int list" where
  "get_required_i64 cast b names =
     bind_err (required_column b names) (\<lambda>col. integer_array_to_i64 cast col (hd names))"

definition optional_column ::
  "('ae cast_fn \<Rightarrow> column \<Rightarrow> string \<Rightarrow> 'ae tick_source_error + int list) \<Rightarrow> 'ae cast_fn \<Rightarrow>
   record_batch \<Rightarrow> string \<Rightarrow> 'ae tick_source_error + int list option" where
  "optional_column conv cast b name =
     (case column_by_name b name of
        None \<Rightarrow> Inr None
      | Some col \<Rightarrow> bind_err (conv cast col name) (\<lambda>values. Inr (Some values)))"

definition get_optional_i64 :: "'ae cast_fn \<Rightarrow> record_batch \<Rightarrow> string \<Rightarrow> 'ae tick_source_error + int list option" where
  "get_optional_i64 = optional_column integer_array_to_i64"

definition get_optional_u64 :: "'ae cast_fn \<Rightarrow> record_batch \<Rightarrow> string \<Rightarrow> 'ae tick_source_error + int list option" where
  "get_optional_u64 = optional_column integer_array_to_u64"

section \<open>The column helpers of \<open>l3_source.rs\<close>\<close>

text \<open>
  \<open>l3_source.rs\<close> carries its own copies of the column helpers. They are translated from that file
  and proved equal to the ones of \<open>tick_source.rs\<close>, so that one set of lemmas serves both.
\<close>

definition l3_required_column :: "record_batch \<Rightarrow> string list \<Rightarrow> 'ae tick_source_error + column" where
  "l3_required_column b names =
     (case find_map (column_by_name b) names of
        None \<Rightarrow> Inl (MissingColumn names)
      | Some col \<Rightarrow> Inr col)"

definition l3_cast_integer_array ::
  "'ae cast_fn \<Rightarrow> column \<Rightarrow> string \<Rightarrow> data_type \<Rightarrow> 'ae tick_source_error + column" where
  "l3_cast_integer_array cast col name target =
     (if ac_data_type col \<notin> {DT_Int8, DT_Int16, DT_Int32, DT_Int64, DT_UInt8, DT_UInt16, DT_UInt32, DT_UInt64}
      then Inl (NonIntegerColumn name (ac_data_type col))
      else if ac_null_count col > 0 then Inl (NullColumn name)
      else (case cast col target of
              Inl e \<Rightarrow> Inl (Cast name target e)
            | Inr casted \<Rightarrow>
                if ac_null_count casted > 0 then Inl (OutOfRange name target) else Inr casted))"

definition l3_integer_array_to_i64 :: "'ae cast_fn \<Rightarrow> column \<Rightarrow> string \<Rightarrow> 'ae tick_source_error + int list" where
  "l3_integer_array_to_i64 cast col name =
     bind_err (l3_cast_integer_array cast col name DT_Int64) (\<lambda>array.
       case downcast_ref DT_Int64 array of
         Some values \<Rightarrow> Inr values
       | None \<Rightarrow> Inl (Cast name DT_Int64 (CastError ''cast returned wrong type'')))"

definition l3_integer_array_to_u64 :: "'ae cast_fn \<Rightarrow> column \<Rightarrow> string \<Rightarrow> 'ae tick_source_error + int list" where
  "l3_integer_array_to_u64 cast col name =
     bind_err (l3_cast_integer_array cast col name DT_UInt64) (\<lambda>array.
       case downcast_ref DT_UInt64 array of
         Some values \<Rightarrow> Inr values
       | None \<Rightarrow> Inl (Cast name DT_UInt64 (CastError ''cast returned wrong type'')))"

definition l3_integer_array_to_i8 :: "'ae cast_fn \<Rightarrow> column \<Rightarrow> string \<Rightarrow> 'ae tick_source_error + int list" where
  "l3_integer_array_to_i8 cast col name =
     bind_err (l3_cast_integer_array cast col name DT_Int8) (\<lambda>array.
       case downcast_ref DT_Int8 array of
         Some values \<Rightarrow> Inr values
       | None \<Rightarrow> Inl (Cast name DT_Int8 (CastError ''cast returned wrong type'')))"

definition l3_get_required_i64 :: "'ae cast_fn \<Rightarrow> record_batch \<Rightarrow> string list \<Rightarrow> 'ae tick_source_error + int list" where
  "l3_get_required_i64 cast b names =
     bind_err (l3_required_column b names) (\<lambda>col. l3_integer_array_to_i64 cast col (hd names))"

definition get_required_u64 :: "'ae cast_fn \<Rightarrow> record_batch \<Rightarrow> string list \<Rightarrow> 'ae tick_source_error + int list" where
  "get_required_u64 cast b names =
     bind_err (l3_required_column b names) (\<lambda>col. l3_integer_array_to_u64 cast col (hd names))"

definition optional_u64 :: "'ae cast_fn \<Rightarrow> record_batch \<Rightarrow> string \<Rightarrow> 'ae tick_source_error + int list option" where
  "optional_u64 = optional_column l3_integer_array_to_u64"

lemma l3_cast_integer_array_eq: "l3_cast_integer_array = cast_integer_array"
proof (intro ext)
  fix cast :: "'ae cast_fn" and col name target
  show "l3_cast_integer_array cast col name target = cast_integer_array cast col name target"
    by (cases "ac_data_type col") (simp_all add: l3_cast_integer_array_def cast_integer_array_def)
qed

lemma l3_integer_array_eqs:
  "l3_integer_array_to_i64 = integer_array_to_i64"
  "l3_integer_array_to_u64 = integer_array_to_u64"
  "l3_integer_array_to_i8 = integer_array_to_i8"
  by (intro ext; simp add: l3_integer_array_to_i64_def l3_integer_array_to_u64_def
      l3_integer_array_to_i8_def integer_array_to_i64_def integer_array_to_u64_def
      integer_array_to_i8_def integer_array_to_def l3_cast_integer_array_eq bind_err_def
      split: sum.splits option.splits)+

lemma l3_column_eqs:
  "l3_required_column = required_column"
  "l3_get_required_i64 = get_required_i64"
  "optional_u64 = get_optional_u64"
  by (intro ext; simp add: l3_required_column_def required_column_def l3_get_required_i64_def
      get_required_i64_def optional_u64_def get_optional_u64_def l3_integer_array_eqs)+

section \<open>Batches\<close>

record cached_batch =
  cb_ts_exchange :: "int list"
  cb_price :: "int list"
  cb_qty :: "int list"
  cb_side :: "int list"
  cb_seq :: "int list option"
  cb_ts_local :: "int list option"
  cb_num_rows :: usize

definition cached_batch_new :: "'ae cast_fn \<Rightarrow> record_batch \<Rightarrow> 'ae tick_source_error + cached_batch" where
  "cached_batch_new cast b =
     bind_err (get_required_i64 cast b [''ts_exchange'', ''ts_event'']) (\<lambda>ts_exchange.
     bind_err (get_required_i64 cast b [''price'']) (\<lambda>price.
     bind_err (get_required_i64 cast b [''qty'', ''size'']) (\<lambda>qty.
     bind_err (bind_err (required_column b [''side'']) (\<lambda>col. integer_array_to_i8 cast col ''side'')) (\<lambda>side.
     bind_err (get_optional_u64 cast b ''seq'') (\<lambda>seq.
     bind_err (get_optional_i64 cast b ''ts_local'') (\<lambda>ts_local.
     Inr \<lparr>cb_ts_exchange = ts_exchange, cb_price = price, cb_qty = qty, cb_side = side,
          cb_seq = seq, cb_ts_local = ts_local, cb_num_rows = rb_num_rows b\<rparr>))))))"

record cached_l3_batch =
  cl_ts_exchange :: "int list"
  cl_price :: "int list"
  cl_qty :: "int list"
  cl_side :: "int list"
  cl_seq :: "int list option"
  cl_order_id :: "int list"
  cl_action :: "int list"
  cl_num_rows :: usize

definition cached_l3_batch_new :: "'ae cast_fn \<Rightarrow> record_batch \<Rightarrow> 'ae tick_source_error + cached_l3_batch" where
  "cached_l3_batch_new cast b =
     bind_err (l3_get_required_i64 cast b [''ts_exchange'', ''ts_event'']) (\<lambda>ts_exchange.
     bind_err (l3_get_required_i64 cast b [''price'']) (\<lambda>price.
     bind_err (l3_get_required_i64 cast b [''qty'', ''size'']) (\<lambda>qty.
     bind_err (bind_err (l3_required_column b [''side'']) (\<lambda>col. l3_integer_array_to_i8 cast col ''side'')) (\<lambda>side.
     bind_err (optional_u64 cast b ''seq'') (\<lambda>seq.
     bind_err (get_required_u64 cast b [''order_id'']) (\<lambda>order_id.
     bind_err (bind_err (l3_required_column b [''action'']) (\<lambda>col. l3_integer_array_to_i8 cast col ''action'')) (\<lambda>action.
     Inr \<lparr>cl_ts_exchange = ts_exchange, cl_price = price, cl_qty = qty, cl_side = side,
          cl_seq = seq, cl_order_id = order_id, cl_action = action, cl_num_rows = rb_num_rows b\<rparr>)))))))"

section \<open>Rows\<close>

text \<open>
  \<open>array.value(idx)\<close>; out of range it would panic, and the code stays below the number of rows,
  which is the length of every column of a batch.
\<close>

definition read_tick_at :: "u32 \<Rightarrow> cached_batch \<Rightarrow> usize \<Rightarrow> 'ae tick_source_error + tick" where
  "read_tick_at symbol_id batch idx =
     (let side_val = cb_side batch ! idx
      in case side_try_from side_val of
           Inl _ \<Rightarrow> Inl (InvalidSide side_val)
         | Inr s \<Rightarrow>
             Inr \<lparr>tk_ts_exchange = cb_ts_exchange batch ! idx,
                  tk_ts_local = (case cb_ts_local batch of None \<Rightarrow> 0 | Some c \<Rightarrow> c ! idx),
                  tk_seq = (case cb_seq batch of None \<Rightarrow> 0 | Some c \<Rightarrow> nat (c ! idx)),
                  tk_price = cb_price batch ! idx, tk_qty = cb_qty batch ! idx,
                  tk_symbol_id = symbol_id, tk_side = s, tk_flags = 0\<rparr>)"

text \<open>\<open>as u8\<close> of an \<open>i8\<close>.\<close>

definition i8_as_u8 :: "int \<Rightarrow> u8" where
  "i8_as_u8 v = nat (v mod 256)"

definition read_update_at :: "u32 \<Rightarrow> cached_l3_batch \<Rightarrow> usize \<Rightarrow> 'ae tick_source_error + l3_update" where
  "read_update_at symbol_id batch idx =
     (let side_value = cl_side batch ! idx
      in case side_try_from side_value of
           Inl _ \<Rightarrow> Inl (InvalidSide side_value)
         | Inr s \<Rightarrow>
             Inr \<lparr>l3_ts_exchange = cl_ts_exchange batch ! idx,
                  l3_seq = (case cl_seq batch of None \<Rightarrow> idx | Some c \<Rightarrow> nat (c ! idx)),
                  l3_symbol_id = symbol_id, l3_order_id = nat (cl_order_id batch ! idx),
                  l3_price = cl_price batch ! idx, l3_qty = cl_qty batch ! idx,
                  l3_side = s, l3_action = i8_as_u8 (cl_action batch ! idx)\<rparr>)"

section \<open>The cursor\<close>

record ('b, 'row, 'ae) arrow_source =
  as_symbol_id :: u32
  as_reader :: "('ae arrow_error + record_batch) list"
  as_current_batch :: "'b option"
  as_batch_idx :: usize
  as_next_row :: "'row option"

record ('b, 'row, 'ae) row_format =
  rf_load :: "record_batch \<Rightarrow> 'ae tick_source_error + 'b"
  rf_num_rows :: "'b \<Rightarrow> usize"
  rf_read :: "u32 \<Rightarrow> 'b \<Rightarrow> usize \<Rightarrow> 'ae tick_source_error + 'row"

text \<open>The batch that still has a row at the cursor, as the \<open>filter\<close> of \<open>advance\<close> selects it.\<close>

definition batch_at_cursor :: "('b, 'row, 'ae) row_format \<Rightarrow> ('b, 'row, 'ae) arrow_source \<Rightarrow> 'b option" where
  "batch_at_cursor rf s =
     (case as_current_batch s of
        None \<Rightarrow> None
      | Some b \<Rightarrow> if as_batch_idx s < rf_num_rows rf b then Some b else None)"

function advance ::
  "('b, 'row, 'ae) row_format \<Rightarrow> ('b, 'row, 'ae) arrow_source \<Rightarrow>
   ('ae tick_source_error + unit) \<times> ('b, 'row, 'ae) arrow_source" where
  "advance rf s =
     (case batch_at_cursor rf s of
        Some batch \<Rightarrow>
          (case rf_read rf (as_symbol_id s) batch (as_batch_idx s) of
             Inl e \<Rightarrow> (Inl e, s)
           | Inr row \<Rightarrow> (Inr (), s\<lparr>as_next_row := Some row, as_batch_idx := as_batch_idx s + 1\<rparr>))
      | None \<Rightarrow>
          (case as_reader s of
             [] \<Rightarrow> (Inr (), s\<lparr>as_current_batch := None, as_next_row := None\<rparr>)
           | Inl e # rest \<Rightarrow> (Inl (Reader e), s\<lparr>as_reader := rest\<rparr>)
           | Inr rb # rest \<Rightarrow>
               (case rf_load rf rb of
                  Inl e \<Rightarrow> (Inl e, s\<lparr>as_reader := rest\<rparr>)
                | Inr batch \<Rightarrow>
                    advance rf (s\<lparr>as_reader := rest, as_current_batch := Some batch, as_batch_idx := 0\<rparr>))))"
  by pat_completeness auto
termination
  by (relation "measure (\<lambda>(rf, s). length (as_reader s))") auto

declare advance.simps [simp del]

definition source_try_new ::
  "('b, 'row, 'ae) row_format \<Rightarrow> u32 \<Rightarrow> ('ae arrow_error + record_batch) list \<Rightarrow>
   'ae tick_source_error + ('b, 'row, 'ae) arrow_source" where
  "source_try_new rf symbol_id reader =
     (let s = \<lparr>as_symbol_id = symbol_id, as_reader = reader, as_current_batch = None,
               as_batch_idx = 0, as_next_row = None\<rparr>
      in case advance rf s of (Inl e, _) \<Rightarrow> Inl e | (Inr _, s') \<Rightarrow> Inr s')"

definition source_peek ::
  "('b, 'row, 'ae) arrow_source \<Rightarrow>
   ('ae tick_source_error + 'row option) \<times> ('b, 'row, 'ae) arrow_source" where
  "source_peek s = (Inr (as_next_row s), s)"

definition source_next ::
  "('b, 'row, 'ae) row_format \<Rightarrow> ('b, 'row, 'ae) arrow_source \<Rightarrow>
   ('ae tick_source_error + 'row option) \<times> ('b, 'row, 'ae) arrow_source" where
  "source_next rf s =
     (let row = as_next_row s;
          s1 = s\<lparr>as_next_row := None\<rparr>
      in case row of
           None \<Rightarrow> (Inr None, s1)
         | Some _ \<Rightarrow>
             (case advance rf s1 of
                (Inl e, s2) \<Rightarrow> (Inl e, s2)
              | (Inr _, s2) \<Rightarrow> (Inr row, s2)))"

definition tick_format :: "'ae cast_fn \<Rightarrow> (cached_batch, tick, 'ae) row_format" where
  "tick_format cast = \<lparr>rf_load = cached_batch_new cast, rf_num_rows = cb_num_rows, rf_read = read_tick_at\<rparr>"

definition l3_format :: "'ae cast_fn \<Rightarrow> (cached_l3_batch, l3_update, 'ae) row_format" where
  "l3_format cast = \<lparr>rf_load = cached_l3_batch_new cast, rf_num_rows = cl_num_rows, rf_read = read_update_at\<rparr>"

definition l3_advance ::
  "'ae cast_fn \<Rightarrow> (cached_l3_batch, l3_update, 'ae) arrow_source \<Rightarrow>
   ('ae tick_source_error + unit) \<times> (cached_l3_batch, l3_update, 'ae) arrow_source" where
  "l3_advance cast = advance (l3_format cast)"

definition l3_source_try_new ::
  "'ae cast_fn \<Rightarrow> u32 \<Rightarrow> ('ae arrow_error + record_batch) list \<Rightarrow>
   'ae tick_source_error + (cached_l3_batch, l3_update, 'ae) arrow_source" where
  "l3_source_try_new cast = source_try_new (l3_format cast)"

definition tick_source_try_new ::
  "'ae cast_fn \<Rightarrow> u32 \<Rightarrow> ('ae arrow_error + record_batch) list \<Rightarrow>
   'ae tick_source_error + (cached_batch, tick, 'ae) arrow_source" where
  "tick_source_try_new cast = source_try_new (tick_format cast)"

section \<open>The contract of a source\<close>

definition first :: "'a list \<Rightarrow> 'a option" where
  "first xs = (case xs of [] \<Rightarrow> None | x # _ \<Rightarrow> Some x)"

lemma first_simps [simp]: "first [] = None" "first (x # xs) = Some x"
  by (simp_all add: first_def)

text \<open>
  The traits \<open>TickSource\<close> and \<open>L3Source\<close> have the same two operations. \<open>holds s rows\<close> says that
  the source in state \<open>s\<close> will deliver exactly \<open>rows\<close>, without an error.
\<close>

locale row_source =
  fixes peek :: "'s \<Rightarrow> ('e + 'row option) \<times> 's"
    and "next" :: "'s \<Rightarrow> ('e + 'row option) \<times> 's"
    and holds :: "'s \<Rightarrow> 'row list \<Rightarrow> bool"
  assumes peek_holds: "holds s rows \<Longrightarrow> \<exists>s'. peek s = (Inr (first rows), s') \<and> holds s' rows"
    and next_holds: "holds s rows \<Longrightarrow> \<exists>s'. next s = (Inr (first rows), s') \<and> holds s' (tl rows)"

text \<open>Calling \<open>next\<close> until it returns \<open>None\<close>, with a bound on the number of calls.\<close>

fun drain :: "nat \<Rightarrow> ('s \<Rightarrow> ('e + 'row option) \<times> 's) \<Rightarrow> 's \<Rightarrow> ('e + 'row list) option" where
  "drain 0 nxt s = None"
| "drain (Suc n) nxt s =
     (case nxt s of
        (Inl e, s') \<Rightarrow> Some (Inl e)
      | (Inr None, s') \<Rightarrow> Some (Inr [])
      | (Inr (Some row), s') \<Rightarrow> map_option (map_sum id (\<lambda>rows. row # rows)) (drain n nxt s'))"

context row_source begin

lemma drain_holds: "holds s rows \<Longrightarrow> length rows < n \<Longrightarrow> drain n next s = Some (Inr rows)"
proof (induction n arbitrary: s rows)
  case (Suc n)
  obtain s' where s': "next s = (Inr (first rows), s')" "holds s' (tl rows)"
    using next_holds [OF Suc.prems(1)] by blast
  show ?case
  proof (cases rows)
    case (Cons r rs)
    with Suc.IH [OF s'(2)] Suc.prems s'(1) show ?thesis by simp
  qed (use s' in simp)
qed simp

end

section \<open>Arrow sources keep the contract\<close>

definition good_batch :: "('b, 'row, 'ae) row_format \<Rightarrow> u32 \<Rightarrow> 'b \<Rightarrow> 'row list \<Rightarrow> bool" where
  "good_batch rf symbol_id b rows \<longleftrightarrow>
     length rows = rf_num_rows rf b \<and>
     (\<forall>i<rf_num_rows rf b. rf_read rf symbol_id b i = Inr (rows ! i))"

text \<open>The rows of a reader whose batches all load and whose rows all read.\<close>

inductive stream_of :: "('b, 'row, 'ae) row_format \<Rightarrow> u32 \<Rightarrow>
    ('ae arrow_error + record_batch) list \<Rightarrow> 'row list \<Rightarrow> bool" for rf symbol_id where
  stream_end: "stream_of rf symbol_id [] []"
| stream_batch: "rf_load rf rb = Inr b \<Longrightarrow> good_batch rf symbol_id b rows \<Longrightarrow>
    stream_of rf symbol_id reader rest \<Longrightarrow> stream_of rf symbol_id (Inr rb # reader) (rows @ rest)"

inductive_cases stream_nilE: "stream_of rf symbol_id [] rows"
inductive_cases stream_consE: "stream_of rf symbol_id (x # reader) rows"

definition cursor_ok :: "('b, 'row, 'ae) row_format \<Rightarrow> ('b, 'row, 'ae) arrow_source \<Rightarrow> 'row list \<Rightarrow> bool" where
  "cursor_ok rf s tail \<longleftrightarrow>
     (\<exists>cur rest. tail = cur @ rest \<and> stream_of rf (as_symbol_id s) (as_reader s) rest \<and>
        (case as_current_batch s of
           None \<Rightarrow> cur = []
         | Some b \<Rightarrow> \<exists>rows. good_batch rf (as_symbol_id s) b rows \<and> cur = drop (as_batch_idx s) rows))"

definition source_holds :: "('b, 'row, 'ae) row_format \<Rightarrow> ('b, 'row, 'ae) arrow_source \<Rightarrow> 'row list \<Rightarrow> bool" where
  "source_holds rf s rows \<longleftrightarrow>
     (case as_next_row s of
        None \<Rightarrow> rows = []
      | Some r \<Rightarrow> \<exists>tail. cursor_ok rf s tail \<and> rows = r # tail)"

lemma cursor_ok_next_row [simp]: "cursor_ok rf (s\<lparr>as_next_row := x\<rparr>) tail = cursor_ok rf s tail"
  by (simp add: cursor_ok_def cong: option.case_cong)

lemma cursor_ok_at_row:
  assumes "cursor_ok rf s tail" and "batch_at_cursor rf s = Some b"
  obtains r tail' where "tail = r # tail'" "rf_read rf (as_symbol_id s) b (as_batch_idx s) = Inr r"
    "cursor_ok rf (s\<lparr>as_next_row := Some r, as_batch_idx := as_batch_idx s + 1\<rparr>) tail'"
proof -
  from assms(2) have b: "as_current_batch s = Some b" "as_batch_idx s < rf_num_rows rf b"
    by (auto simp: batch_at_cursor_def split: option.splits if_splits)
  with assms(1) obtain rows rest where g: "good_batch rf (as_symbol_id s) b rows"
    and t: "tail = drop (as_batch_idx s) rows @ rest"
    and st: "stream_of rf (as_symbol_id s) (as_reader s) rest"
    by (auto simp: cursor_ok_def)
  from g b(2) have d: "drop (as_batch_idx s) rows = rows ! as_batch_idx s # drop (Suc (as_batch_idx s)) rows"
    and r: "rf_read rf (as_symbol_id s) b (as_batch_idx s) = Inr (rows ! as_batch_idx s)"
    by (auto simp: good_batch_def Cons_nth_drop_Suc)
  show ?thesis
  proof (rule that)
    show "tail = rows ! as_batch_idx s # drop (Suc (as_batch_idx s)) rows @ rest" by (simp add: t d)
    show "rf_read rf (as_symbol_id s) b (as_batch_idx s) = Inr (rows ! as_batch_idx s)" by (rule r)
    show "cursor_ok rf (s\<lparr>as_next_row := Some (rows ! as_batch_idx s), as_batch_idx := as_batch_idx s + 1\<rparr>)
        (drop (Suc (as_batch_idx s)) rows @ rest)"
      using b g st by (auto simp: cursor_ok_def)
  qed
qed

lemma cursor_ok_between:
  assumes "cursor_ok rf s tail" and "batch_at_cursor rf s = None"
  shows "stream_of rf (as_symbol_id s) (as_reader s) tail"
  using assms
  by (auto simp: cursor_ok_def batch_at_cursor_def good_batch_def split: option.splits if_splits)

lemma advance_holds:
  "cursor_ok rf s tail \<Longrightarrow>
   \<exists>s'. advance rf s = (Inr (), s') \<and> source_holds rf s' tail \<and> as_symbol_id s' = as_symbol_id s"
proof (induction rf s rule: advance.induct)
  case (1 rf s)
  show ?case
  proof (cases "batch_at_cursor rf s")
    case (Some b)
    from cursor_ok_at_row [OF 1(2) Some] obtain r tail' where *: "tail = r # tail'"
      "rf_read rf (as_symbol_id s) b (as_batch_idx s) = Inr r"
      "cursor_ok rf (s\<lparr>as_next_row := Some r, as_batch_idx := as_batch_idx s + 1\<rparr>) tail'" .
    with Some show ?thesis by (simp add: advance.simps [of rf s] source_holds_def)
  next
    case None
    with 1(2) have st: "stream_of rf (as_symbol_id s) (as_reader s) tail" by (rule cursor_ok_between)
    show ?thesis
    proof (cases "as_reader s")
      case Nil
      with st have "tail = []" by (auto elim: stream_nilE)
      with None Nil show ?thesis by (simp add: advance.simps [of rf s] source_holds_def)
    next
      case (Cons x reader)
      from st [unfolded Cons] obtain rb b rows rest where x: "x = Inr rb" "rf_load rf rb = Inr b"
        and g: "good_batch rf (as_symbol_id s) b rows" and t: "tail = rows @ rest"
        and rest: "stream_of rf (as_symbol_id s) reader rest"
        by (auto elim: stream_consE)
      let ?s = "s\<lparr>as_reader := reader, as_current_batch := Some b, as_batch_idx := 0\<rparr>"
      have "cursor_ok rf ?s tail" using g rest by (auto simp: cursor_ok_def t)
      with 1(1) [OF None Cons x] show ?thesis
        using None Cons x by (simp add: advance.simps [of rf s])
    qed
  qed
qed

interpretation arrow_rows: row_source source_peek "source_next rf" "source_holds rf" for rf
proof
  fix s rows
  assume h: "source_holds rf s rows"
  have "first rows = as_next_row s"
    using h by (auto simp: source_holds_def split: option.splits)
  then show "\<exists>s'. source_peek s = (Inr (first rows), s') \<and> source_holds rf s' rows"
    using h by (simp add: source_peek_def)
  show "\<exists>s'. source_next rf s = (Inr (first rows), s') \<and> source_holds rf s' (tl rows)"
  proof (cases "as_next_row s")
    case None
    with h show ?thesis by (simp add: source_holds_def source_next_def)
  next
    case (Some r)
    with h obtain tail where t: "cursor_ok rf s tail" "rows = r # tail" by (auto simp: source_holds_def)
    then have "cursor_ok rf (s\<lparr>as_next_row := None\<rparr>) tail" by simp
    from advance_holds [OF this] obtain s' where
      "advance rf (s\<lparr>as_next_row := None\<rparr>) = (Inr (), s')" "source_holds rf s' tail" by blast
    with Some t(2) show ?thesis by (simp add: source_next_def Let_def)
  qed
qed

lemma source_try_new_holds:
  assumes "stream_of rf symbol_id reader rows"
  shows "\<exists>s. source_try_new rf symbol_id reader = Inr s \<and> source_holds rf s rows"
proof -
  let ?s = "\<lparr>as_symbol_id = symbol_id, as_reader = reader, as_current_batch = None,
    as_batch_idx = 0, as_next_row = None\<rparr>"
  have "cursor_ok rf ?s rows" using assms by (simp add: cursor_ok_def)
  from advance_holds [OF this] show ?thesis by (auto simp: source_try_new_def Let_def)
qed

text \<open>
  C30. A tick source over an Arrow stream whose batches load and whose rows are valid delivers
  every row of every batch exactly once, in order, and then reports the end; empty batches are
  skipped.
\<close>

theorem arrow_ticks_complete:
  assumes "stream_of (tick_format cast) symbol_id reader ticks"
  shows "\<exists>s. source_try_new (tick_format cast) symbol_id reader = Inr s \<and>
    drain (Suc (length ticks)) (source_next (tick_format cast)) s = Some (Inr ticks)"
  using source_try_new_holds [OF assms] arrow_rows.drain_holds [of "tick_format cast"] by blast

text \<open>Two batches, the second empty, and a cast kernel that keeps the column.\<close>

definition int_column :: "data_type \<Rightarrow> int list \<Rightarrow> column" where
  "int_column t vs = \<lparr>ac_data_type = t, ac_null_count = 0, ac_values = vs\<rparr>"

definition sample_batch :: "int list \<Rightarrow> record_batch" where
  "sample_batch sides = \<lparr>rb_num_rows = length sides, rb_columns =
     [(''ts_event'', int_column DT_Int64 (map (\<lambda>_. 5) sides)),
      (''price'', int_column DT_Int64 (map (\<lambda>_. 100) sides)),
      (''size'', int_column DT_Int64 (map (\<lambda>_. 7) sides)),
      (''side'', int_column DT_Int8 sides)]\<rparr>"

definition keep_cast :: "unit cast_fn" where
  "keep_cast col target = Inr (col\<lparr>ac_data_type := target\<rparr>)"

definition sample_row :: "side \<Rightarrow> tick" where
  "sample_row s = \<lparr>tk_ts_exchange = 5, tk_ts_local = 0, tk_seq = 0, tk_price = 100, tk_qty = 7,
     tk_symbol_id = 3, tk_side = s, tk_flags = 0\<rparr>"

definition sample_cached :: "int list \<Rightarrow> cached_batch" where
  "sample_cached sides = \<lparr>cb_ts_exchange = map (\<lambda>_. 5) sides, cb_price = map (\<lambda>_. 100) sides,
     cb_qty = map (\<lambda>_. 7) sides, cb_side = sides, cb_seq = None, cb_ts_local = None,
     cb_num_rows = length sides\<rparr>"

lemma sample_loads: "cached_batch_new keep_cast (sample_batch sides) = Inr (sample_cached sides)"
  by (simp add: cached_batch_new_def bind_err_def get_required_i64_def required_column_def
      column_by_name_def sample_batch_def integer_array_to_i64_def integer_array_to_i8_def
      integer_array_to_def cast_integer_array_def int_column_def keep_cast_def downcast_ref_def
      get_optional_u64_def get_optional_i64_def optional_column_def sample_cached_def)

lemma sample_good:
  "good_batch (tick_format keep_cast) 3 (sample_cached [1, -1]) [sample_row Buy, sample_row Sell]"
  "good_batch (tick_format keep_cast) 3 (sample_cached []) []"
  by (auto simp: good_batch_def tick_format_def sample_cached_def read_tick_at_def sample_row_def
      side_try_from_def less_Suc_eq)

theorem arrow_ticks_complete_witness:
  "\<exists>s. source_try_new (tick_format keep_cast) 3 [Inr (sample_batch []), Inr (sample_batch [1, -1])] = Inr s \<and>
     drain 3 (source_next (tick_format keep_cast)) s = Some (Inr [sample_row Buy, sample_row Sell])"
proof -
  have load: "rf_load (tick_format keep_cast) (sample_batch sides) = Inr (sample_cached sides)" for sides
    by (simp add: tick_format_def sample_loads)
  have "stream_of (tick_format keep_cast) 3 [Inr (sample_batch []), Inr (sample_batch [1, -1])]
      ([] @ [sample_row Buy, sample_row Sell] @ [])"
    by (rule stream_batch [OF load sample_good(2) stream_batch [OF load sample_good(1) stream_end]])
  then have "stream_of (tick_format keep_cast) 3 [Inr (sample_batch []), Inr (sample_batch [1, -1])]
      [sample_row Buy, sample_row Sell]" by simp
  from arrow_ticks_complete [OF this] show ?thesis by (simp add: eval_nat_numeral)
qed

lemma advance_error_keeps_row:
  "advance rf s = (Inl e, s') \<Longrightarrow> as_next_row s' = as_next_row s"
proof (induction rf s arbitrary: s' rule: advance.induct)
  case (1 rf s)
  from 1(2,1) show ?case
    by (simp add: advance.simps [of rf s] split: option.splits list.splits sum.splits) auto
qed

text \<open>
  C1. A valid row is lost when reading the row after it fails: \<open>next\<close> has taken the row it would
  return, returns the error instead, and the source then looks exhausted.
\<close>

theorem failing_row_drops_current:
  assumes "as_next_row s = Some row" and "advance rf (s\<lparr>as_next_row := None\<rparr>) = (Inl e, s1)"
  shows "source_next rf s = (Inl e, s1) \<and> source_peek s1 = (Inr None, s1)"
  using assms advance_error_keeps_row [OF assms(2)] by (simp add: source_next_def source_peek_def)

theorem failing_row_drops_current_witness:
  "\<exists>s s1. source_try_new (tick_format keep_cast) 3 [Inr (sample_batch [1, 5])] = Inr s \<and>
     source_peek s = (Inr (Some (sample_row Buy)), s) \<and>
     source_next (tick_format keep_cast) s = (Inl (InvalidSide 5), s1) \<and>
     source_peek s1 = (Inr None, s1)"
proof -
  let ?rf = "tick_format keep_cast"
  let ?s = "\<lparr>as_symbol_id = 3, as_reader = [], as_current_batch = Some (sample_cached [1, 5]),
    as_batch_idx = 1, as_next_row = Some (sample_row Buy)\<rparr>"
  have new: "source_try_new ?rf 3 [Inr (sample_batch [1, 5])] = Inr ?s"
    by (simp add: source_try_new_def advance.simps batch_at_cursor_def tick_format_def sample_loads)
      (simp add: sample_cached_def read_tick_at_def side_try_from_def sample_row_def)
  obtain s1 where a: "advance ?rf (?s\<lparr>as_next_row := None\<rparr>) = (Inl (InvalidSide 5), s1)"
    by (simp add: advance.simps batch_at_cursor_def tick_format_def sample_cached_def
        read_tick_at_def side_try_from_def)
  have "as_next_row ?s = Some (sample_row Buy)" by simp
  from failing_row_drops_current [OF this a] new show ?thesis by (auto simp: source_peek_def)
qed

end
