(* ===== verification/EngineTypes.thy ===== *)
theory EngineTypes
  imports Account Stats RiskGuard Tuner Latency ExchangeSim EventQueue ArrowSource
begin

text \<open>
  The types of \<open>engine.rs\<close> around the engine itself: configuration, errors, fees, the market view
  and the context a strategy sees, its commands, and the heap entries that order the sources.
  A strategy is the record of its callbacks over its own state; a callback takes and returns
  the context, and may fail. Sources are the records of their trait methods.
\<close>

section \<open>Configuration and errors\<close>

datatype engine_mode = TickMode | BatchMode

record engine_config =
  cf_feed_latency_ns :: i64
  cf_order_update_latency_ns :: i64
  cf_mode :: engine_mode
  cf_max_batch_ns :: i64
  cf_auto_tune :: bool
  cf_seed :: u64
  cf_trade_log_mode :: trade_log_mode
  cf_maker_fee_bps :: i64
  cf_taker_fee_bps :: i64
  cf_max_open_orders :: usize
  cf_max_position :: i64
  cf_max_loss :: i64

definition engine_config_default :: engine_config where
  "engine_config_default =
     \<lparr>cf_feed_latency_ns = 0, cf_order_update_latency_ns = 0, cf_mode = TickMode,
      cf_max_batch_ns = 0, cf_auto_tune = False, cf_seed = 0, cf_trade_log_mode = LogAll,
      cf_maker_fee_bps = 0, cf_taker_fee_bps = 0, cf_max_open_orders = 0, cf_max_position = 0,
      cf_max_loss = 0\<rparr>"

datatype ('te, 'e) engine_error = TickSourceErr 'te | StrategyErr 'e | Internal string

section \<open>Fees\<close>

definition compute_fee :: "i64 \<Rightarrow> i64 \<Rightarrow> i64 \<Rightarrow> i64" where
  "compute_fee price qty fee_bps =
     (if fee_bps \<le> 0 then 0
      else
        let numerator = mul_i128 (mul_i128 price (abs_i64 qty)) fee_bps;
            denominator = SCALE * 10000;
            fee = numerator sdiv denominator
        in max 0 (min i64_max fee))"

lemma compute_fee_nonneg: "0 \<le> compute_fee price qty bps"
  by (simp add: compute_fee_def Let_def)

lemma compute_fee_in_i64: "in_i64 (compute_fee price qty bps)"
  by (auto simp: compute_fee_def Let_def in_i64_def)

text \<open>
  For a price that is not negative and a fee rate up to 10000 basis points, the fee is
  exactly the notional times the rate, divided once and rounded down, and capped at the largest
  64-bit value; it is never more than the notional.
\<close>

theorem compute_fee_exact:
  assumes "0 \<le> price" and "in_i64 price" and "in_i64 qty" and "qty \<noteq> i64_min"
    and "0 \<le> bps" and "bps \<le> 10000" and "price * \<bar>qty\<bar> \<le> 10000000000000000000000000000000000"
  shows "compute_fee price qty bps = min i64_max ((price * \<bar>qty\<bar> * bps) div (SCALE * 10000)) \<and>
    compute_fee price qty bps \<le> (price * \<bar>qty\<bar>) div SCALE"
proof (cases "bps = 0")
  case True
  with assms(1) show ?thesis
    by (simp add: compute_fee_def pos_imp_zdiv_nonneg_iff)
next
  case False
  let ?n = "price * \<bar>qty\<bar>"
  have n: "0 \<le> ?n" using assms(1) by simp
  have q: "abs_i64 qty = \<bar>qty\<bar>" "in_i64 \<bar>qty\<bar>"
    using assms(3,4) by (auto simp: abs_i64_exact in_i64_def)
  have m1: "mul_i128 price \<bar>qty\<bar> = ?n" using assms(2) q(2) by (simp add: mul_i128_exact)
  have "?n * bps \<le> 10000000000000000000000000000000000 * 10000"
    using assms(5-7) n by (intro mult_mono) auto
  moreover have nb: "0 \<le> ?n * bps" using n assms(5) by simp
  ultimately have "in_i128 (?n * bps)" by (simp add: in_i128_def)
  then have m2: "mul_i128 ?n bps = ?n * bps" by (simp add: mul_i128_def)
  have fee: "compute_fee price qty bps = max 0 (min i64_max ((?n * bps) div (SCALE * 10000)))"
    using False assms(5) nb by (simp add: compute_fee_def Let_def q m1 m2 sdiv_pos_eq)
  have "(?n * bps) div (SCALE * 10000) \<le> (?n * 10000) div (SCALE * 10000)"
    using assms(6) n by (intro zdiv_mono1 mult_left_mono) auto
  also have "\<dots> = ?n div SCALE" by (simp add: zdiv_zmult2_eq [symmetric] div_mult2_eq)
  finally have "(?n * bps) div (SCALE * 10000) \<le> ?n div SCALE" .
  moreover have "0 \<le> (?n * bps) div (SCALE * 10000)" using nb by (simp add: pos_imp_zdiv_nonneg_iff)
  ultimately show ?thesis using n
    by (simp add: fee pos_imp_zdiv_nonneg_iff min.coboundedI2)
qed

theorem compute_fee_exact_witness:
  "compute_fee 10000000000 100000000 2 = 2000000"
  using compute_fee_exact [of 10000000000 100000000 2] by (simp add: in_i64_def)

section \<open>Market view and context\<close>

record market_view =
  mv_last_trade_by_symbol :: "(u32, tick) hash_map"

definition market_default :: market_view where
  "market_default = \<lparr>mv_last_trade_by_symbol = hm_empty\<rparr>"

definition last_trade :: "market_view \<Rightarrow> u32 \<Rightarrow> tick option" where
  "last_trade m symbol_id = hm_get (mv_last_trade_by_symbol m) symbol_id"

definition on_tick_delivery :: "tick \<Rightarrow> market_view \<Rightarrow> market_view" where
  "on_tick_delivery t m =
     m\<lparr>mv_last_trade_by_symbol := hm_insert (tk_symbol_id t) t (mv_last_trade_by_symbol m)\<rparr>"

datatype command = SubmitOrder order | CancelOrder u64

record strategy_context =
  cx_ts_local :: ts_local_ns
  cx_market :: market_view
  cx_commands :: "command list"

definition context_new :: "ts_local_ns \<Rightarrow> market_view \<Rightarrow> strategy_context" where
  "context_new ts market = \<lparr>cx_ts_local = ts, cx_market = market, cx_commands = []\<rparr>"

definition cx_submit_order :: "order \<Rightarrow> strategy_context \<Rightarrow> strategy_context" where
  "cx_submit_order ord cx = cx\<lparr>cx_commands := cx_commands cx @ [SubmitOrder ord]\<rparr>"

definition cx_cancel_order :: "u64 \<Rightarrow> strategy_context \<Rightarrow> strategy_context" where
  "cx_cancel_order order_id cx = cx\<lparr>cx_commands := cx_commands cx @ [CancelOrder order_id]\<rparr>"

definition into_commands :: "strategy_context \<Rightarrow> command list" where
  "into_commands cx = cx_commands cx"

section \<open>Strategies\<close>

type_synonym ('x, 's, 'e) callback = "'x \<Rightarrow> strategy_context \<Rightarrow> 's \<Rightarrow> ('e + unit) \<times> strategy_context \<times> 's"

record ('s, 'e) strategy =
  st_on_tick :: "(tick, 's, 'e) callback"
  st_on_ticks :: "(tick list, 's, 'e) callback"
  st_on_order_update :: "(order_report, 's, 'e) callback"
  st_on_order_updates :: "(order_report list, 's, 'e) callback"
  st_on_funding :: "(funding_event, 's, 'e) callback"

text \<open>The provided methods: one call per element, stopping at the first error.\<close>

fun each_callback :: "('x, 's, 'e) callback \<Rightarrow> ('x list, 's, 'e) callback" where
  "each_callback f [] cx s = (Inr (), cx, s)"
| "each_callback f (x # xs) cx s =
     (case f x cx s of
        (Inl e, cx', s') \<Rightarrow> (Inl e, cx', s')
      | (Inr _, cx', s') \<Rightarrow> each_callback f xs cx' s')"

definition default_on_funding :: "(funding_event, 's, 'e) callback" where
  "default_on_funding ev cx s = (Inr (), cx, s)"

definition strategy_with_defaults ::
  "(tick, 's, 'e) callback \<Rightarrow> (order_report, 's, 'e) callback \<Rightarrow> ('s, 'e) strategy" where
  "strategy_with_defaults on_tick on_order_update =
     \<lparr>st_on_tick = on_tick, st_on_ticks = each_callback on_tick,
      st_on_order_update = on_order_update, st_on_order_updates = each_callback on_order_update,
      st_on_funding = default_on_funding\<rparr>"

section \<open>Sources and their heap\<close>

record ('src, 'row, 'te) source_ops =
  so_peek :: "'src \<Rightarrow> ('te + 'row option) \<times> 'src"
  so_next :: "'src \<Rightarrow> ('te + 'row option) \<times> 'src"
  so_symbol_id :: "'src \<Rightarrow> u32"

record peeked_event =
  pk_ts :: i64
  pk_seq :: u64
  pk_source_idx :: usize

definition peeked_cmp :: "peeked_event \<Rightarrow> peeked_event \<Rightarrow> ordering" where
  "peeked_cmp self other =
     then_with
       (then_with (ord_cmp (pk_ts other) (pk_ts self)) (ord_cmp (pk_seq other) (pk_seq self)))
       (ord_cmp (pk_source_idx other) (pk_source_idx self))"

text \<open>The order the heap realises: time, then sequence number, then source index.\<close>

definition peeked_le :: "peeked_event \<Rightarrow> peeked_event \<Rightarrow> bool" where
  "peeked_le a b \<longleftrightarrow>
     pk_ts a < pk_ts b \<or>
     (pk_ts a = pk_ts b \<and>
       (pk_seq a < pk_seq b \<or> (pk_seq a = pk_seq b \<and> pk_source_idx a \<le> pk_source_idx b)))"

lemma peeked_cmp_le: "peeked_cmp a b \<noteq> Greater \<longleftrightarrow> peeked_le b a"
  by (auto simp: peeked_cmp_def peeked_le_def then_with_Greater ord_cmp_def)

interpretation peeked: total_cmp peeked_cmp
  by unfold_locales (auto simp: peeked_cmp_le peeked_le_def)

lemma source_heap_least:
  "heap_peek peeked_cmp h = Some p \<Longrightarrow> q \<in> set h \<Longrightarrow> peeked_le p q"
  using peeked.heap_peek_greatest [of h p q] by (simp add: peeked_cmp_le)

text \<open>
  The heap of sources serves, among the sources' next rows, the one that is least by time
  and then by sequence number, and only then by source index.
\<close>

theorem source_heap_order:
  assumes "heap_pop peeked_cmp h = Some (p, h')" and "q \<in> set h"
  shows "pk_ts p < pk_ts q \<or>
    (pk_ts p = pk_ts q \<and>
      (pk_seq p < pk_seq q \<or> (pk_seq p = pk_seq q \<and> pk_source_idx p \<le> pk_source_idx q)))"
proof -
  have "peeked_cmp q p \<noteq> Greater"
    using peeked.heap.pop_greatest [OF assms(1), of q] assms(2) by simp
  then show ?thesis by (simp add: peeked_cmp_le peeked_le_def)
qed

theorem source_heap_order_witness:
  "pk_seq \<lparr>pk_ts = 5, pk_seq = 2, pk_source_idx = 1\<rparr> < pk_seq \<lparr>pk_ts = 5, pk_seq = 9, pk_source_idx = 0\<rparr>"
proof -
  let ?p = "\<lparr>pk_ts = 5, pk_seq = 2, pk_source_idx = 1\<rparr>"
  let ?q = "\<lparr>pk_ts = 5, pk_seq = 9, pk_source_idx = 0\<rparr>"
  have "heap_pop peeked_cmp [?q, ?p] = Some (?p, [?q])"
    by (simp add: heap_pop_def peeked_cmp_def ord_cmp_def)
  from source_heap_order [OF this, of ?q] show ?thesis by simp
qed

end
