(* ===== verification/EngineState.thy ===== *)
theory EngineState
  imports EngineTypes
begin

text \<open>
  The state of \<open>engine.rs\<close>: the struct \<open>Engine\<close> as the record \<open>engine\<close>, its constructor, and the
  operations its event handlers are made of. What the engine calls but does not own is the
  record \<open>engine_env\<close>: the strategy's callbacks, the latency model, the operations of its tick
  and L3 sources, the seeding of the generator, and the wall clock, which is an arbitrary
  function from the number of measurements taken so far to the nanoseconds measured. The
  reusable buffers of the struct are always empty between events and are left out.
\<close>

section \<open>The environment and the state\<close>

record ('s, 'e, 'rng, 'src, 'l3, 'te) engine_env =
  en_strategy :: "('s, 'e) strategy"
  en_latency :: "'rng latency_model"
  en_tick_ops :: "('src, tick, 'te) source_ops"
  en_l3_ops :: "('l3, l3_update, 'te) source_ops"
  en_make_rng :: "u64 \<Rightarrow> 'rng"
  en_elapsed :: "nat \<Rightarrow> i64"

record ('st, 's, 'rng, 'src, 'l3) engine =
  eg_config :: engine_config
  eg_queue :: event_queue
  eg_queue_model :: "'st queue_model"
  eg_exchanges :: "(u32, 'st exchange) hash_map"
  eg_order_symbol_by_id :: "(u64, u32) hash_map"
  eg_next_order_id :: u64
  eg_strategy :: 's
  eg_rng :: 'rng
  eg_account :: account
  eg_trade_log :: trade_log
  eg_market :: market_view
  eg_truth_last_trade_by_symbol :: "(u32, tick) hash_map"
  eg_next_event_seq :: u64
  eg_now_ts_sim :: ts_sim_ns
  eg_tick_buffer :: "tick list"
  eg_report_buffer :: "order_report list"
  eg_active_batch_timer_id :: "u64 option"
  eg_next_timer_id :: u64
  eg_pending_wakeup :: bool
  eg_sources :: "'src list"
  eg_source_heap :: "peeked_event list"
  eg_is_source_heap_initialized :: bool
  eg_l3_sources :: "'l3 list"
  eg_l3_source_heap :: "peeked_event list"
  eg_is_l3_source_heap_initialized :: bool
  eg_l2_depth_symbols :: "u32 set"
  eg_l3_depth_symbols :: "u32 set"
  eg_tuner :: batch_tuner
  eg_risk_guard :: risk_guard
  eg_clock_reads :: nat

definition engine_new ::
  "('s, 'e, 'rng, 'src, 'l3, 'te) engine_env \<Rightarrow> 'st queue_model \<Rightarrow> 's \<Rightarrow> engine_config
    \<Rightarrow> ('st, 's, 'rng, 'src, 'l3) engine" where
  "engine_new env qm strat cfg =
     \<lparr>eg_config = cfg, eg_queue = eq_new, eg_queue_model = qm, eg_exchanges = hm_empty,
      eg_order_symbol_by_id = hm_empty, eg_next_order_id = 1, eg_strategy = strat,
      eg_rng = en_make_rng env (cf_seed cfg), eg_account = account_new,
      eg_trade_log = trade_log_new (cf_trade_log_mode cfg), eg_market = market_default,
      eg_truth_last_trade_by_symbol = hm_empty, eg_next_event_seq = 0, eg_now_ts_sim = 0,
      eg_tick_buffer = [], eg_report_buffer = [], eg_active_batch_timer_id = None,
      eg_next_timer_id = 1, eg_pending_wakeup = False, eg_sources = [], eg_source_heap = [],
      eg_is_source_heap_initialized = False, eg_l3_sources = [], eg_l3_source_heap = [],
      eg_is_l3_source_heap_initialized = False, eg_l2_depth_symbols = {},
      eg_l3_depth_symbols = {},
      eg_tuner = tuner_new 100000
        (if cf_max_batch_ns cfg > 0 then cf_max_batch_ns cfg else 1000000000)
        (cf_max_batch_ns cfg) (f64_of_int 500),
      eg_risk_guard = risk_guard_new (cf_max_open_orders cfg) (cf_max_position cfg) (cf_max_loss cfg),
      eg_clock_reads = 0\<rparr>"

section \<open>Sources and statistics\<close>

definition add_tick_source :: "'src \<Rightarrow> ('st, 's, 'rng, 'src, 'l3) engine \<Rightarrow> ('st, 's, 'rng, 'src, 'l3) engine" where
  "add_tick_source src g =
     g\<lparr>eg_sources := eg_sources g @ [src], eg_is_source_heap_initialized := False\<rparr>"

definition add_l3_source ::
  "('s, 'e, 'rng, 'src, 'l3, 'te) engine_env \<Rightarrow> 'l3 \<Rightarrow> ('st, 's, 'rng, 'src, 'l3) engine
    \<Rightarrow> ('st, 's, 'rng, 'src, 'l3) engine" where
  "add_l3_source env src g =
     g\<lparr>eg_l3_depth_symbols := insert (so_symbol_id (en_l3_ops env) src) (eg_l3_depth_symbols g),
       eg_l3_sources := eg_l3_sources g @ [src], eg_is_l3_source_heap_initialized := False\<rparr>"

definition engine_stats :: "par_reduce \<Rightarrow> ('st, 's, 'rng, 'src, 'l3) engine \<Rightarrow> backtest_stats" where
  "engine_stats par_reduce g =
     (calculate_stats par_reduce (eg_trade_log g))\<lparr>bs_killed := is_killed (eg_risk_guard g)\<rparr>"

text \<open>The Arrow sources as implementations of the two source traits.\<close>

definition arrow_tick_ops ::
  "'ae cast_fn \<Rightarrow> ((cached_batch, tick, 'ae) arrow_source, tick, 'ae tick_source_error) source_ops" where
  "arrow_tick_ops cast =
     \<lparr>so_peek = source_peek, so_next = source_next (tick_format cast), so_symbol_id = as_symbol_id\<rparr>"

definition arrow_l3_ops ::
  "'ae cast_fn \<Rightarrow> ((cached_l3_batch, l3_update, 'ae) arrow_source, l3_update, 'ae tick_source_error) source_ops" where
  "arrow_l3_ops cast =
     \<lparr>so_peek = source_peek, so_next = source_next (l3_format cast), so_symbol_id = as_symbol_id\<rparr>"

section \<open>Exchanges\<close>

text \<open>
  \<open>exchange_mut\<close> returns the simulator of a symbol, inserting a new one when there is none.
  \<open>exchange_entry\<close> is what it returns and \<open>with_exchange\<close> a method call on it: the changed
  simulator is stored back under the symbol.
\<close>

definition exchange_entry :: "('st, 's, 'rng, 'src, 'l3) engine \<Rightarrow> u32 \<Rightarrow> 'st exchange" where
  "exchange_entry g symbol_id =
     (case hm_get (eg_exchanges g) symbol_id of
        Some x \<Rightarrow> x
      | None \<Rightarrow>
          if symbol_id \<in> eg_l3_depth_symbols g then exchange_new_l3 (eg_queue_model g)
          else exchange_new (eg_queue_model g))"

definition with_exchange ::
  "u32 \<Rightarrow> ('st exchange \<Rightarrow> 'a \<times> 'st exchange) \<Rightarrow> ('st, 's, 'rng, 'src, 'l3) engine
    \<Rightarrow> 'a \<times> ('st, 's, 'rng, 'src, 'l3) engine" where
  "with_exchange symbol_id f g =
     (let (r, x) = f (exchange_entry g symbol_id)
      in (r, g\<lparr>eg_exchanges := hm_insert symbol_id x (eg_exchanges g)\<rparr>))"

definition mixed_depth :: "u32 \<Rightarrow> ('te, 'e) engine_error" where
  "mixed_depth symbol_id = Internal (''mixed L2/L3 depth for symbol_id '' @ show_nat symbol_id)"

definition mark_l2_depth ::
  "u32 \<Rightarrow> ('st, 's, 'rng, 'src, 'l3) engine
    \<Rightarrow> (('te, 'e) engine_error + unit) \<times> ('st, 's, 'rng, 'src, 'l3) engine" where
  "mark_l2_depth symbol_id g =
     (if symbol_id \<in> eg_l3_depth_symbols g then (Inl (mixed_depth symbol_id), g)
      else (Inr (), g\<lparr>eg_l2_depth_symbols := insert symbol_id (eg_l2_depth_symbols g)\<rparr>))"

definition mark_l3_depth ::
  "u32 \<Rightarrow> ('st, 's, 'rng, 'src, 'l3) engine
    \<Rightarrow> (('te, 'e) engine_error + unit) \<times> ('st, 's, 'rng, 'src, 'l3) engine" where
  "mark_l3_depth symbol_id g =
     (if symbol_id \<in> eg_l2_depth_symbols g then (Inl (mixed_depth symbol_id), g)
      else (Inr (), g\<lparr>eg_l3_depth_symbols := insert symbol_id (eg_l3_depth_symbols g)\<rparr>))"

section \<open>Events and fills\<close>

definition push_event ::
  "ts_sim_ns \<Rightarrow> event_kind \<Rightarrow> ('st, 's, 'rng, 'src, 'l3) engine \<Rightarrow> ('st, 's, 'rng, 'src, 'l3) engine" where
  "push_event ts kind g =
     g\<lparr>eg_next_event_seq := u64_wrapping_succ (eg_next_event_seq g),
       eg_queue := eq_push \<lparr>ev_id = EventId ts (eg_next_event_seq g), ev_kind = kind\<rparr> (eg_queue g)\<rparr>"

text \<open>
  Booking a fill, as the \<open>Tick\<close> and the \<open>OrderAck\<close> handler do: the account realises the PnL, the
  fee is subtracted, and the trade log and the risk guard see the net amount.
\<close>

definition book_fill ::
  "ts_exchange_ns \<Rightarrow> order \<Rightarrow> i64 \<Rightarrow> i64 \<Rightarrow> i64 \<Rightarrow> ('st, 's, 'rng, 'src, 'l3) engine
    \<Rightarrow> ('st, 's, 'rng, 'src, 'l3) engine" where
  "book_fill ts ord qty price fee g =
     (let (pnl, account') = on_fill ord qty price (eg_account g);
          net_pnl = saturating_sub pnl fee
      in g\<lparr>eg_account := account', eg_trade_log := push_pnl_delta ts net_pnl (eg_trade_log g),
           eg_risk_guard := update_pnl net_pnl (eg_risk_guard g)\<rparr>)"

definition book_funding ::
  "funding_event \<Rightarrow> i64 \<Rightarrow> ('st, 's, 'rng, 'src, 'l3) engine \<Rightarrow> ('st, 's, 'rng, 'src, 'l3) engine" where
  "book_funding ev mark g =
     (let (pnl, account') = apply_funding ev mark (eg_account g)
      in g\<lparr>eg_account := account',
           eg_trade_log := push_pnl_event \<lparr>pe_ts_exchange = fu_ts_exchange ev, pe_pnl = pnl\<rparr> (eg_trade_log g),
           eg_risk_guard := update_pnl pnl (eg_risk_guard g)\<rparr>)"

definition log_fill :: "trade_fill \<Rightarrow> ('st, 's, 'rng, 'src, 'l3) engine \<Rightarrow> ('st, 's, 'rng, 'src, 'l3) engine" where
  "log_fill fill g = g\<lparr>eg_trade_log := push_fill fill (eg_trade_log g)\<rparr>"

definition order_latency ::
  "('s, 'e, 'rng, 'src, 'l3, 'te) engine_env \<Rightarrow> ('st, 's, 'rng, 'src, 'l3) engine
    \<Rightarrow> ts_sim_ns \<times> ('st, 's, 'rng, 'src, 'l3) engine" where
  "order_latency env g =
     (let (dt, rng') = lm_sample_order_latency (en_latency env) (eg_now_ts_sim g) (eg_rng g)
      in (saturating_add (eg_now_ts_sim g) (max dt 0), g\<lparr>eg_rng := rng'\<rparr>))"

section \<open>Commands of the strategy\<close>

definition risk_rejection :: "order \<Rightarrow> string \<Rightarrow> order_report" where
  "risk_rejection ord reason =
     \<lparr>rp_order_id = od_order_id ord, rp_client_order_id = od_client_order_id ord,
      rp_last_fill_qty = 0, rp_last_fill_price = 0, rp_filled_qty = 0,
      rp_remaining_qty = od_qty ord, rp_reason = Some reason,
      rp_symbol_id = od_symbol_id ord, rp_status = Rejected\<rparr>"

definition handle_submit ::
  "order \<Rightarrow> ts_local_ns \<Rightarrow> ('st, 's, 'rng, 'src, 'l3) engine \<Rightarrow> ('st, 's, 'rng, 'src, 'l3) engine" where
  "handle_submit ord0 ts_local g0 =
     (let order_id = eg_next_order_id g0;
          ord = ord0\<lparr>od_ts_submit := ts_local, od_order_id := order_id\<rparr>;
          g = g0\<lparr>eg_next_order_id := u64_wrapping_succ order_id\<rparr>
      in case check_order (eg_risk_guard g) ord (hm_len (eg_order_symbol_by_id g))
                (position_qty (eg_account g) (od_symbol_id ord)) of
           Some reason \<Rightarrow>
             push_event (saturating_add ts_local (cf_order_update_latency_ns (eg_config g)))
               (OrderReportEvent (risk_rejection ord reason)) g
         | None \<Rightarrow>
             push_event ts_local (OrderEvent ord)
               (g\<lparr>eg_order_symbol_by_id :=
                    hm_insert order_id (od_symbol_id ord) (eg_order_symbol_by_id g)\<rparr>))"

definition handle_command ::
  "ts_local_ns \<Rightarrow> command \<Rightarrow> ('st, 's, 'rng, 'src, 'l3) engine \<Rightarrow> ('st, 's, 'rng, 'src, 'l3) engine" where
  "handle_command ts_local c g =
     (case c of
        SubmitOrder ord \<Rightarrow> handle_submit ord ts_local g
      | CancelOrder order_id \<Rightarrow> push_event ts_local (OrderCancel order_id) g)"

definition handle_commands ::
  "command list \<Rightarrow> ts_local_ns \<Rightarrow> ('st, 's, 'rng, 'src, 'l3) engine \<Rightarrow> ('st, 's, 'rng, 'src, 'l3) engine" where
  "handle_commands commands ts_local g = fold (handle_command ts_local) commands g"

text \<open>
  One call of a strategy callback with a fresh context; the commands are handled when it
  succeeds and dropped with the error when it fails.
\<close>

definition call_strategy ::
  "('x, 's, 'e) callback \<Rightarrow> 'x \<Rightarrow> ts_local_ns \<Rightarrow> ('st, 's, 'rng, 'src, 'l3) engine
    \<Rightarrow> ('e + unit) \<times> ('st, 's, 'rng, 'src, 'l3) engine" where
  "call_strategy callback x ts g =
     (let (result, cx, s') = callback x (context_new ts (eg_market g)) (eg_strategy g);
          g' = g\<lparr>eg_strategy := s'\<rparr>
      in case result of
           Inl e \<Rightarrow> (Inl e, g')
         | Inr _ \<Rightarrow> (Inr (), handle_commands (into_commands cx) ts g'))"

end
