(* ===== verification/EngineStep.thy ===== *)
theory EngineStep
  imports EngineState
begin

text \<open>
  \<open>Engine::step\<close> and \<open>Engine::run\<close>: the ingestion of source rows that are due, one function
  per arm of the event dispatch, the batch wake-up and the run loop. The two loops are partial
  functions, so that a source or a strategy that never comes to an end is the value \<open>None\<close>.
\<close>

section \<open>Ingestion\<close>

text \<open>The rebuild of a heap: every source is peeked in turn, up to the first error.\<close>

fun peek_all ::
  "('src, 'row, 'te) source_ops \<Rightarrow> ('row \<Rightarrow> i64 \<times> u64) \<Rightarrow> usize \<Rightarrow> 'src list \<Rightarrow> peeked_event list
    \<Rightarrow> ('te + unit) \<times> 'src list \<times> peeked_event list" where
  "peek_all ops key i [] heap = (Inr (), [], heap)"
| "peek_all ops key i (src # srcs) heap =
     (case so_peek ops src of
        (Inl e, src') \<Rightarrow> (Inl e, src' # srcs, heap)
      | (Inr row, src') \<Rightarrow>
          let heap' = (case row of
                None \<Rightarrow> heap
              | Some r \<Rightarrow>
                  heap_push \<lparr>pk_ts = fst (key r), pk_seq = snd (key r), pk_source_idx = i\<rparr> heap);
              (result, srcs', heap'') = peek_all ops key (Suc i) srcs heap'
          in (result, src' # srcs', heap''))"

definition tick_key :: "tick \<Rightarrow> i64 \<times> u64" where
  "tick_key t = (tk_ts_exchange t, tk_seq t)"

definition l3_key :: "l3_update \<Rightarrow> i64 \<times> u64" where
  "l3_key u = (l3_ts_exchange u, l3_seq u)"

definition init_source_heap ::
  "('s, 'e, 'rng, 'src, 'l3, 'te) engine_env \<Rightarrow> ('st, 's, 'rng, 'src, 'l3) engine
    \<Rightarrow> (('te, 'e) engine_error + unit) \<times> ('st, 's, 'rng, 'src, 'l3) engine" where
  "init_source_heap env g =
     (if eg_is_source_heap_initialized g then (Inr (), g)
      else
        case peek_all (en_tick_ops env) tick_key 0 (eg_sources g) [] of
          (Inl e, srcs, heap) \<Rightarrow>
            (Inl (TickSourceErr e), g\<lparr>eg_sources := srcs, eg_source_heap := heap\<rparr>)
        | (Inr _, srcs, heap) \<Rightarrow>
            (Inr (), g\<lparr>eg_sources := srcs, eg_source_heap := heap,
                       eg_is_source_heap_initialized := True\<rparr>))"

definition init_l3_source_heap ::
  "('s, 'e, 'rng, 'src, 'l3, 'te) engine_env \<Rightarrow> ('st, 's, 'rng, 'src, 'l3) engine
    \<Rightarrow> (('te, 'e) engine_error + unit) \<times> ('st, 's, 'rng, 'src, 'l3) engine" where
  "init_l3_source_heap env g =
     (if eg_is_l3_source_heap_initialized g then (Inr (), g)
      else
        case peek_all (en_l3_ops env) l3_key 0 (eg_l3_sources g) [] of
          (Inl e, srcs, heap) \<Rightarrow>
            (Inl (TickSourceErr e), g\<lparr>eg_l3_sources := srcs, eg_l3_source_heap := heap\<rparr>)
        | (Inr _, srcs, heap) \<Rightarrow>
            (Inr (), g\<lparr>eg_l3_sources := srcs, eg_l3_source_heap := heap,
                       eg_is_l3_source_heap_initialized := True\<rparr>))"

text \<open>\<open>BinaryHeap::pop\<close> with the result dropped.\<close>

definition heap_drop :: "peeked_event list \<Rightarrow> peeked_event list" where
  "heap_drop h = (case heap_pop peeked_cmp h of None \<Rightarrow> h | Some (_, h') \<Rightarrow> h')"

text \<open>
  Taking one row of a source: the heap entry goes, the row is read, the events of the row are
  scheduled by \<open>schedule\<close>, and the source's next row enters the heap.
\<close>

definition schedule_tick :: "tick \<Rightarrow> ('st, 's, 'rng, 'src, 'l3) engine \<Rightarrow> ('st, 's, 'rng, 'src, 'l3) engine" where
  "schedule_tick t g =
     (let delivery_ts =
            (if tk_ts_local t = 0
             then add_i64 (tk_ts_exchange t) (cf_feed_latency_ns (eg_config g)) else tk_ts_local t)
      in push_event delivery_ts (TickDelivery (t\<lparr>tk_ts_local := delivery_ts\<rparr>))
           (push_event (tk_ts_exchange t) (TickEvent t) g))"

definition ingest_tick ::
  "('s, 'e, 'rng, 'src, 'l3, 'te) engine_env \<Rightarrow> usize \<Rightarrow> ('st, 's, 'rng, 'src, 'l3) engine
    \<Rightarrow> (('te, 'e) engine_error + unit) \<times> ('st, 's, 'rng, 'src, 'l3) engine" where
  "ingest_tick env idx g =
     (let ops = en_tick_ops env;
          g1 = g\<lparr>eg_source_heap := heap_drop (eg_source_heap g)\<rparr>;
          (row, src) = so_next ops (eg_sources g1 ! idx);
          g2 = g1\<lparr>eg_sources := (eg_sources g1)[idx := src]\<rparr>
      in case row of
           Inl e \<Rightarrow> (Inl (TickSourceErr e), g2)
         | Inr None \<Rightarrow>
             (Inl (Internal (''source '' @ show_nat idx @ '' was queued but had no next tick'')), g2)
         | Inr (Some t) \<Rightarrow>
             let g3 = schedule_tick t g2;
                 (peeked, src') = so_peek ops (eg_sources g3 ! idx);
                 g4 = g3\<lparr>eg_sources := (eg_sources g3)[idx := src']\<rparr>
             in (case peeked of
                   Inl e \<Rightarrow> (Inl (TickSourceErr e), g4)
                 | Inr None \<Rightarrow> (Inr (), g4)
                 | Inr (Some n) \<Rightarrow>
                     (Inr (), g4\<lparr>eg_source_heap :=
                        heap_push \<lparr>pk_ts = tk_ts_exchange n, pk_seq = tk_seq n, pk_source_idx = idx\<rparr>
                          (eg_source_heap g4)\<rparr>)))"

definition ingest_l3 ::
  "('s, 'e, 'rng, 'src, 'l3, 'te) engine_env \<Rightarrow> usize \<Rightarrow> ('st, 's, 'rng, 'src, 'l3) engine
    \<Rightarrow> (('te, 'e) engine_error + unit) \<times> ('st, 's, 'rng, 'src, 'l3) engine" where
  "ingest_l3 env idx g =
     (let ops = en_l3_ops env;
          g1 = g\<lparr>eg_l3_source_heap := heap_drop (eg_l3_source_heap g)\<rparr>;
          (row, src) = so_next ops (eg_l3_sources g1 ! idx);
          g2 = g1\<lparr>eg_l3_sources := (eg_l3_sources g1)[idx := src]\<rparr>
      in case row of
           Inl e \<Rightarrow> (Inl (TickSourceErr e), g2)
         | Inr None \<Rightarrow>
             (Inl (Internal (''l3 source '' @ show_nat idx @ '' was queued but had no next update'')), g2)
         | Inr (Some u) \<Rightarrow>
             let g3 = push_event (l3_ts_exchange u) (L3UpdateEvent u) g2;
                 (peeked, src') = so_peek ops (eg_l3_sources g3 ! idx);
                 g4 = g3\<lparr>eg_l3_sources := (eg_l3_sources g3)[idx := src']\<rparr>
             in (case peeked of
                   Inl e \<Rightarrow> (Inl (TickSourceErr e), g4)
                 | Inr None \<Rightarrow> (Inr (), g4)
                 | Inr (Some n) \<Rightarrow>
                     (Inr (), g4\<lparr>eg_l3_source_heap :=
                        heap_push \<lparr>pk_ts = l3_ts_exchange n, pk_seq = l3_seq n, pk_source_idx = idx\<rparr>
                          (eg_l3_source_heap g4)\<rparr>)))"

text \<open>
  Which source is due: an L3 row goes first when it is not later than the head of the queue and
  not after the first tick by time and sequence number.
\<close>

datatype due = DueL3 usize | DueTick usize | NotDue

definition next_queue_ts :: "('st, 's, 'rng, 'src, 'l3) engine \<Rightarrow> ts_sim_ns" where
  "next_queue_ts g = (case eq_peek (eg_queue g) of None \<Rightarrow> i64_max | Some e \<Rightarrow> ts_sim e)"

definition l3_is_next_source :: "peeked_event \<Rightarrow> peeked_event option \<Rightarrow> bool" where
  "l3_is_next_source pe tick_head =
     (case tick_head of
        None \<Rightarrow> True
      | Some t \<Rightarrow> pk_ts pe < pk_ts t \<or> (pk_ts pe = pk_ts t \<and> pk_seq pe \<le> pk_seq t))"

definition due_tick :: "('st, 's, 'rng, 'src, 'l3) engine \<Rightarrow> due" where
  "due_tick g =
     (case heap_peek peeked_cmp (eg_source_heap g) of
        None \<Rightarrow> NotDue
      | Some pe \<Rightarrow> if pk_ts pe \<le> next_queue_ts g then DueTick (pk_source_idx pe) else NotDue)"

definition due_source :: "('st, 's, 'rng, 'src, 'l3) engine \<Rightarrow> due" where
  "due_source g =
     (case heap_peek peeked_cmp (eg_l3_source_heap g) of
        None \<Rightarrow> due_tick g
      | Some pe \<Rightarrow>
          if pk_ts pe \<le> next_queue_ts g \<and>
             l3_is_next_source pe (heap_peek peeked_cmp (eg_source_heap g))
          then DueL3 (pk_source_idx pe) else due_tick g)"

text \<open>One round of the loop: \<open>True\<close> is its \<open>continue\<close>, \<open>False\<close> its end.\<close>

definition ingest_round ::
  "('s, 'e, 'rng, 'src, 'l3, 'te) engine_env \<Rightarrow> ('st, 's, 'rng, 'src, 'l3) engine
    \<Rightarrow> (('te, 'e) engine_error + bool) \<times> ('st, 's, 'rng, 'src, 'l3) engine" where
  "ingest_round env g =
     (case init_source_heap env g of
        (Inl e, g1) \<Rightarrow> (Inl e, g1)
      | (Inr _, g1) \<Rightarrow>
          (case init_l3_source_heap env g1 of
             (Inl e, g2) \<Rightarrow> (Inl e, g2)
           | (Inr _, g2) \<Rightarrow>
               (case due_source g2 of
                  DueL3 idx \<Rightarrow> apfst (map_sum id (\<lambda>_. True)) (ingest_l3 env idx g2)
                | DueTick idx \<Rightarrow> apfst (map_sum id (\<lambda>_. True)) (ingest_tick env idx g2)
                | NotDue \<Rightarrow> (Inr False, g2))))"

partial_function (option) ingest ::
  "('s, 'e, 'rng, 'src, 'l3, 'te) engine_env \<Rightarrow> ('st, 's, 'rng, 'src, 'l3) engine
    \<Rightarrow> ((('te, 'e) engine_error + unit) \<times> ('st, 's, 'rng, 'src, 'l3) engine) option" where
  "ingest env g =
     (case ingest_round env g of
        (Inl e, g') \<Rightarrow> Some (Inl e, g')
      | (Inr again, g') \<Rightarrow> if again then ingest env g' else Some (Inr (), g'))"

declare ingest.simps [code]

section \<open>Events\<close>

text \<open>
  How an arm of the dispatch ends: it falls through to the wake-up check, with the flag it sets,
  returns the event at once, or fails.
\<close>

datatype ('te, 'e) handled = Handled bool | ReturnedEarly | Failed "('te, 'e) engine_error"

definition fall_through ::
  "bool \<Rightarrow> ('e + unit) \<times> 'g \<Rightarrow> ('te, 'e) handled \<times> 'g" where
  "fall_through wakeup r = apfst (case_sum (\<lambda>e. Failed (StrategyErr e)) (\<lambda>_. Handled wakeup)) r"

subsection \<open>Trades and deliveries\<close>

definition trade_fill_of :: "ts_exchange_ns \<Rightarrow> order_report \<Rightarrow> order \<Rightarrow> i64 \<Rightarrow> bool \<Rightarrow> trade_fill" where
  "trade_fill_of ts r ord fee taker =
     \<lparr>tf_ts_exchange = ts, tf_order_id = rp_order_id r, tf_price = rp_last_fill_price r,
      tf_qty = rp_last_fill_qty r, tf_fee = fee, tf_symbol_id = rp_symbol_id r,
      tf_side = od_side ord, tf_is_taker = taker\<rparr>"

text \<open>The pairs the two lists \<open>fills\<close> and \<open>trade_fills\<close> hold in lock-step.\<close>

definition maker_fills ::
  "i64 \<Rightarrow> ts_exchange_ns \<Rightarrow> 'st exchange \<Rightarrow> order_report list \<Rightarrow> (order \<times> trade_fill) list" where
  "maker_fills fee_bps ts x reports =
     List.map_filter
       (\<lambda>r. if rp_last_fill_qty r > 0
            then map_option
                   (\<lambda>ord. (ord, trade_fill_of ts r ord
                      (compute_fee (rp_last_fill_price r) (rp_last_fill_qty r) fee_bps) False))
                   (get_order x (rp_order_id r))
            else None) reports"

definition handle_tick :: "tick \<Rightarrow> ('st, 's, 'rng, 'src, 'l3) engine \<Rightarrow> ('st, 's, 'rng, 'src, 'l3) engine" where
  "handle_tick t g =
     (let g1 = g\<lparr>eg_truth_last_trade_by_symbol :=
                 hm_insert (tk_symbol_id t) t (eg_truth_last_trade_by_symbol g)\<rparr>;
          (reports, g2) = with_exchange (tk_symbol_id t) (on_trade t []) g1;
          fills = maker_fills (cf_maker_fee_bps (eg_config g2)) (tk_ts_exchange t)
                    (exchange_entry g2 (tk_symbol_id t)) reports;
          g3 = fold (\<lambda>(_, tf). log_fill tf) fills g2;
          g4 = fold (\<lambda>(ord, tf). book_fill (tk_ts_exchange t) ord (tf_qty tf) (tf_price tf) (tf_fee tf)) fills g3;
          ts_delivery = add_i64 (tk_ts_exchange t) (cf_order_update_latency_ns (eg_config g4))
      in fold (\<lambda>r. push_event ts_delivery (OrderReportEvent r)) reports g4)"

definition start_batch_timer :: "ts_local_ns \<Rightarrow> ('st, 's, 'rng, 'src, 'l3) engine \<Rightarrow> ('st, 's, 'rng, 'src, 'l3) engine" where
  "start_batch_timer ts_local g =
     (if eg_active_batch_timer_id g = None \<and> cf_max_batch_ns (eg_config g) > 0 then
        let timer_id = eg_next_timer_id g
        in push_event (add_i64 ts_local (cf_max_batch_ns (eg_config g))) (Timer timer_id)
             (g\<lparr>eg_next_timer_id := u64_wrapping_succ timer_id,
                eg_active_batch_timer_id := Some timer_id\<rparr>)
      else g)"

definition handle_tick_delivery ::
  "('s, 'e, 'rng, 'src, 'l3, 'te) engine_env \<Rightarrow> tick \<Rightarrow> ('st, 's, 'rng, 'src, 'l3) engine
    \<Rightarrow> ('te, 'e) handled \<times> ('st, 's, 'rng, 'src, 'l3) engine" where
  "handle_tick_delivery env t g =
     (let g1 = g\<lparr>eg_market := on_tick_delivery t (eg_market g)\<rparr>
      in case cf_mode (eg_config g1) of
           TickMode \<Rightarrow>
             fall_through False (call_strategy (st_on_tick (en_strategy env)) t (tk_ts_local t) g1)
         | BatchMode \<Rightarrow>
             (Handled False,
              start_batch_timer (tk_ts_local t) (g1\<lparr>eg_tick_buffer := eg_tick_buffer g1 @ [t]\<rparr>)))"

subsection \<open>Depth updates\<close>

definition handle_l2_update ::
  "l2_update \<Rightarrow> ('st, 's, 'rng, 'src, 'l3) engine \<Rightarrow> ('te, 'e) handled \<times> ('st, 's, 'rng, 'src, 'l3) engine" where
  "handle_l2_update u g =
     (case mark_l2_depth (l2_symbol_id u) g of
        (Inl e, g1) \<Rightarrow> (Failed e, g1)
      | (Inr _, g1) \<Rightarrow>
          (Handled False, snd (with_exchange (l2_symbol_id u) (\<lambda>x. ((), apply_l2_update u x)) g1)))"

definition handle_l3_update ::
  "l3_update \<Rightarrow> ('st, 's, 'rng, 'src, 'l3) engine \<Rightarrow> ('te, 'e) handled \<times> ('st, 's, 'rng, 'src, 'l3) engine" where
  "handle_l3_update u g =
     (case mark_l3_depth (l3_symbol_id u) g of
        (Inl e, g1) \<Rightarrow> (Failed e, g1)
      | (Inr _, g1) \<Rightarrow>
          apfst (case_sum (\<lambda>msg. Failed (Internal msg)) (\<lambda>_. Handled False))
            (with_exchange (l3_symbol_id u) (apply_l3_update u) g1))"

subsection \<open>Orders\<close>

definition handle_order ::
  "('s, 'e, 'rng, 'src, 'l3, 'te) engine_env \<Rightarrow> order \<Rightarrow> ('st, 's, 'rng, 'src, 'l3) engine
    \<Rightarrow> ('st, 's, 'rng, 'src, 'l3) engine" where
  "handle_order env ord g =
     (let (_, g1) = with_exchange (od_symbol_id ord) (submit_order ord) g;
          (ts_ack, g2) = order_latency env g1
      in push_event ts_ack (OrderAck (od_order_id ord)) g2)"

text \<open>The taker fill of a market order, when the report carries one and the order is known.\<close>

definition book_taker ::
  "order_report \<Rightarrow> order option \<Rightarrow> ('st, 's, 'rng, 'src, 'l3) engine \<Rightarrow> ('st, 's, 'rng, 'src, 'l3) engine" where
  "book_taker r maybe_order g =
     (case maybe_order of
        None \<Rightarrow> g
      | Some ord \<Rightarrow>
          if rp_last_fill_qty r > 0 then
            let fee = compute_fee (rp_last_fill_price r) (rp_last_fill_qty r)
                        (cf_taker_fee_bps (eg_config g));
                ts = eg_now_ts_sim g
            in book_fill ts ord (rp_last_fill_qty r) (rp_last_fill_price r) fee
                 (log_fill (trade_fill_of ts r ord fee True) g)
          else g)"

definition report_ts :: "('st, 's, 'rng, 'src, 'l3) engine \<Rightarrow> ts_sim_ns" where
  "report_ts g = saturating_add (eg_now_ts_sim g) (cf_order_update_latency_ns (eg_config g))"

definition fill_market_order ::
  "u64 \<Rightarrow> u32 \<Rightarrow> ('st, 's, 'rng, 'src, 'l3) engine \<Rightarrow> ('st, 's, 'rng, 'src, 'l3) engine" where
  "fill_market_order order_id symbol_id g =
     (let fallback_price = map_option tk_price (hm_get (eg_truth_last_trade_by_symbol g) symbol_id);
          maybe_order = get_order (exchange_entry g symbol_id) order_id;
          (maybe_report, g1) =
            with_exchange symbol_id (fill_market_immediately order_id fallback_price) g
      in case maybe_report of
           None \<Rightarrow> g1
         | Some r \<Rightarrow>
             let g2 = book_taker r maybe_order g1;
                 ts_delivery = report_ts g2;
                 g3 = push_event ts_delivery (OrderReportEvent r) g2
             in if rp_status r = PartiallyFilled then
                  let (maybe_cancel, g4) =
                        with_exchange symbol_id (force_cancel_partial_fill order_id) g3
                  in (case maybe_cancel of
                        None \<Rightarrow> g4
                      | Some c \<Rightarrow> push_event ts_delivery (OrderReportEvent c) g4)
                else g3)"

definition ack_limit_order ::
  "u64 \<Rightarrow> u32 \<Rightarrow> ('st, 's, 'rng, 'src, 'l3) engine \<Rightarrow> ('st, 's, 'rng, 'src, 'l3) engine" where
  "ack_limit_order order_id symbol_id g =
     (case with_exchange symbol_id (ack_new order_id) g of
        (Inl _, g1) \<Rightarrow> g1
      | (Inr r, g1) \<Rightarrow> push_event (report_ts g1) (OrderReportEvent r) g1)"

definition handle_order_ack ::
  "u64 \<Rightarrow> ('st, 's, 'rng, 'src, 'l3) engine \<Rightarrow> ('te, 'e) handled \<times> ('st, 's, 'rng, 'src, 'l3) engine" where
  "handle_order_ack order_id g =
     (case hm_get (eg_order_symbol_by_id g) order_id of
        None \<Rightarrow> (ReturnedEarly, g)
      | Some symbol_id \<Rightarrow>
          let (known, g1) = with_exchange symbol_id (\<lambda>x. (get_order x order_id, x)) g;
              is_market = (case known of None \<Rightarrow> False | Some ord \<Rightarrow> od_order_type ord = Market)
          in (Handled False,
              if is_market then fill_market_order order_id symbol_id g1
              else ack_limit_order order_id symbol_id g1))"

definition handle_order_cancel ::
  "('s, 'e, 'rng, 'src, 'l3, 'te) engine_env \<Rightarrow> u64 \<Rightarrow> ('st, 's, 'rng, 'src, 'l3) engine
    \<Rightarrow> ('te, 'e) handled \<times> ('st, 's, 'rng, 'src, 'l3) engine" where
  "handle_order_cancel env order_id g =
     (case hm_get (eg_order_symbol_by_id g) order_id of
        None \<Rightarrow> (ReturnedEarly, g)
      | Some symbol_id \<Rightarrow>
          (Handled False,
           case with_exchange symbol_id (cancel_order order_id) g of
             (Inl _, g1) \<Rightarrow> g1
           | (Inr _, g1) \<Rightarrow>
               let (ts_ack, g2) = order_latency env g1
               in push_event ts_ack (OrderCancelAck order_id) g2))"

definition handle_order_cancel_ack ::
  "u64 \<Rightarrow> ('st, 's, 'rng, 'src, 'l3) engine \<Rightarrow> ('st, 's, 'rng, 'src, 'l3) engine" where
  "handle_order_cancel_ack order_id g =
     (case hm_get (eg_order_symbol_by_id g) order_id of
        None \<Rightarrow> g
      | Some symbol_id \<Rightarrow>
          (case with_exchange symbol_id (ack_cancel order_id) g of
             (Inl _, g1) \<Rightarrow> g1
           | (Inr r, g1) \<Rightarrow>
               push_event (add_i64 (eg_now_ts_sim g1) (cf_order_update_latency_ns (eg_config g1)))
                 (OrderReportEvent r) g1))"

subsection \<open>Reports, funding and timers\<close>

definition forget_order :: "order_report \<Rightarrow> ('st, 's, 'rng, 'src, 'l3) engine \<Rightarrow> ('st, 's, 'rng, 'src, 'l3) engine" where
  "forget_order r g =
     (if is_terminal (rp_status r) then
        let g1 = (case hm_get (eg_order_symbol_by_id g) (rp_order_id r) of
                    None \<Rightarrow> g
                  | Some symbol_id \<Rightarrow>
                      snd (with_exchange symbol_id (\<lambda>x. ((), remove_order (rp_order_id r) x)) g))
        in g1\<lparr>eg_order_symbol_by_id := hm_remove (rp_order_id r) (eg_order_symbol_by_id g1)\<rparr>
      else g)"

definition handle_order_report ::
  "('s, 'e, 'rng, 'src, 'l3, 'te) engine_env \<Rightarrow> order_report \<Rightarrow> ('st, 's, 'rng, 'src, 'l3) engine
    \<Rightarrow> ('te, 'e) handled \<times> ('st, 's, 'rng, 'src, 'l3) engine" where
  "handle_order_report env r g =
     (let g1 = forget_order r g
      in case cf_mode (eg_config g1) of
           TickMode \<Rightarrow>
             fall_through False
               (call_strategy (st_on_order_update (en_strategy env)) r (eg_now_ts_sim g1) g1)
         | BatchMode \<Rightarrow> (Handled True, g1\<lparr>eg_report_buffer := eg_report_buffer g1 @ [r]\<rparr>))"

definition funding_mark_price :: "('st, 's, 'rng, 'src, 'l3) engine \<Rightarrow> u32 \<Rightarrow> i64 option" where
  "funding_mark_price g symbol_id =
     or_else (map_option tk_price (hm_get (eg_truth_last_trade_by_symbol g) symbol_id))
       (Option.bind (hm_get (eg_exchanges g) symbol_id) mark_price)"

definition handle_funding ::
  "('s, 'e, 'rng, 'src, 'l3, 'te) engine_env \<Rightarrow> funding_event \<Rightarrow> ('st, 's, 'rng, 'src, 'l3) engine
    \<Rightarrow> ('te, 'e) handled \<times> ('st, 's, 'rng, 'src, 'l3) engine" where
  "handle_funding env ev g =
     (let g1 = (case funding_mark_price g (fu_symbol_id ev) of
                  None \<Rightarrow> g | Some mark \<Rightarrow> book_funding ev mark g)
      in fall_through (cf_mode (eg_config g1) = BatchMode)
           (call_strategy (st_on_funding (en_strategy env)) ev (eg_now_ts_sim g1) g1))"

definition handle_timer ::
  "u64 \<Rightarrow> ('st, 's, 'rng, 'src, 'l3) engine \<Rightarrow> ('te, 'e) handled \<times> ('st, 's, 'rng, 'src, 'l3) engine" where
  "handle_timer timer_id g =
     (if cf_mode (eg_config g) = BatchMode \<and> eg_active_batch_timer_id g = Some timer_id
      then (Handled True, g\<lparr>eg_active_batch_timer_id := None\<rparr>)
      else (Handled False, g))"

section \<open>Dispatch, wake-up and step\<close>

definition dispatch ::
  "('s, 'e, 'rng, 'src, 'l3, 'te) engine_env \<Rightarrow> event_kind \<Rightarrow> ('st, 's, 'rng, 'src, 'l3) engine
    \<Rightarrow> ('te, 'e) handled \<times> ('st, 's, 'rng, 'src, 'l3) engine" where
  "dispatch env kind g =
     (case kind of
        TickEvent t \<Rightarrow> (Handled False, handle_tick t g)
      | TickDelivery t \<Rightarrow> handle_tick_delivery env t g
      | L2UpdateEvent u \<Rightarrow> handle_l2_update u g
      | L3UpdateEvent u \<Rightarrow> handle_l3_update u g
      | OrderEvent ord \<Rightarrow> (Handled False, handle_order env ord g)
      | OrderAck order_id \<Rightarrow> handle_order_ack order_id g
      | OrderCancel order_id \<Rightarrow> handle_order_cancel env order_id g
      | OrderCancelAck order_id \<Rightarrow> (Handled False, handle_order_cancel_ack order_id g)
      | OrderReportEvent r \<Rightarrow> handle_order_report env r g
      | Funding ev \<Rightarrow> handle_funding env ev g
      | Timer timer_id \<Rightarrow> handle_timer timer_id g)"

definition flush_callbacks ::
  "('s, 'e, 'rng, 'src, 'l3, 'te) engine_env \<Rightarrow> strategy_context \<Rightarrow> ('st, 's, 'rng, 'src, 'l3) engine
    \<Rightarrow> ('e + strategy_context) \<times> ('st, 's, 'rng, 'src, 'l3) engine" where
  "flush_callbacks env cx g =
     (let st = en_strategy env;
          (r1, cx1, s1) =
            (if eg_tick_buffer g = [] then (Inr (), cx, eg_strategy g)
             else st_on_ticks st (eg_tick_buffer g) cx (eg_strategy g));
          g1 = g\<lparr>eg_strategy := s1\<rparr>
      in case r1 of
           Inl e \<Rightarrow> (Inl e, g1)
         | Inr _ \<Rightarrow>
             let g2 = g1\<lparr>eg_tick_buffer := []\<rparr>;
                 (r2, cx2, s2) =
                   (if eg_report_buffer g2 = [] then (Inr (), cx1, eg_strategy g2)
                    else st_on_order_updates st (eg_report_buffer g2) cx1 (eg_strategy g2));
                 g3 = g2\<lparr>eg_strategy := s2\<rparr>
             in (case r2 of
                   Inl e \<Rightarrow> (Inl e, g3)
                 | Inr _ \<Rightarrow> (Inr cx2, g3\<lparr>eg_report_buffer := []\<rparr>)))"

definition auto_tune_batch ::
  "('s, 'e, 'rng, 'src, 'l3, 'te) engine_env \<Rightarrow> u64 \<Rightarrow> ('st, 's, 'rng, 'src, 'l3) engine
    \<Rightarrow> ('st, 's, 'rng, 'src, 'l3) engine" where
  "auto_tune_batch env total_items g =
     (if cf_mode (eg_config g) = BatchMode \<and> cf_auto_tune (eg_config g) \<and> total_items > 0 then
        let tuner = record_batch (en_elapsed env (eg_clock_reads g)) total_items (eg_tuner g)
        in g\<lparr>eg_tuner := tuner, eg_clock_reads := Suc (eg_clock_reads g),
             eg_config := (eg_config g)\<lparr>cf_max_batch_ns := current_batch_ns tuner\<rparr>\<rparr>
      else g)"

definition flush_strategy ::
  "('s, 'e, 'rng, 'src, 'l3, 'te) engine_env \<Rightarrow> ts_local_ns \<Rightarrow> ('st, 's, 'rng, 'src, 'l3) engine
    \<Rightarrow> (('te, 'e) engine_error + unit) \<times> ('st, 's, 'rng, 'src, 'l3) engine" where
  "flush_strategy env ts_local g =
     (if eg_tick_buffer g = [] \<and> eg_report_buffer g = [] then (Inr (), g)
      else
        let g1 = g\<lparr>eg_active_batch_timer_id := None\<rparr>;
            total_items = length (eg_tick_buffer g1) + length (eg_report_buffer g1)
        in case flush_callbacks env (context_new ts_local (eg_market g1)) g1 of
             (Inl e, g2) \<Rightarrow> (Inl (StrategyErr e), g2)
           | (Inr cx, g2) \<Rightarrow>
               (Inr (), auto_tune_batch env total_items (handle_commands (into_commands cx) ts_local g2)))"

definition batch_wakeup ::
  "('s, 'e, 'rng, 'src, 'l3, 'te) engine_env \<Rightarrow> bool \<Rightarrow> ('st, 's, 'rng, 'src, 'l3) engine
    \<Rightarrow> (('te, 'e) engine_error + unit) \<times> ('st, 's, 'rng, 'src, 'l3) engine" where
  "batch_wakeup env wakeup_requested g =
     (if cf_mode (eg_config g) = BatchMode \<and> (wakeup_requested \<or> eg_pending_wakeup g) then
        if map_option ts_sim (eq_peek (eg_queue g)) \<noteq> Some (eg_now_ts_sim g) then
          (case flush_strategy env (eg_now_ts_sim g) g of
             (Inl e, g1) \<Rightarrow> (Inl e, g1)
           | (Inr _, g1) \<Rightarrow> (Inr (), g1\<lparr>eg_pending_wakeup := False\<rparr>))
        else (Inr (), g\<lparr>eg_pending_wakeup := True\<rparr>)
      else (Inr (), g))"

text \<open>The part of \<open>step\<close> after the ingestion loop.\<close>

definition process_next ::
  "('s, 'e, 'rng, 'src, 'l3, 'te) engine_env \<Rightarrow> ('st, 's, 'rng, 'src, 'l3) engine
    \<Rightarrow> (('te, 'e) engine_error + event option) \<times> ('st, 's, 'rng, 'src, 'l3) engine" where
  "process_next env g =
     (case eq_pop (eg_queue g) of
        None \<Rightarrow> (Inr None, g)
      | Some (ev, queue') \<Rightarrow>
          let g1 = g\<lparr>eg_queue := queue', eg_now_ts_sim := ts_sim ev\<rparr>
          in (case dispatch env (ev_kind ev) g1 of
                (Failed e, g2) \<Rightarrow> (Inl e, g2)
              | (ReturnedEarly, g2) \<Rightarrow> (Inr (Some ev), g2)
              | (Handled wakeup, g2) \<Rightarrow>
                  apfst (map_sum id (\<lambda>_. Some ev)) (batch_wakeup env wakeup g2)))"

definition engine_step ::
  "('s, 'e, 'rng, 'src, 'l3, 'te) engine_env \<Rightarrow> ('st, 's, 'rng, 'src, 'l3) engine
    \<Rightarrow> ((('te, 'e) engine_error + event option) \<times> ('st, 's, 'rng, 'src, 'l3) engine) option" where
  "engine_step env g =
     (case ingest env g of
        None \<Rightarrow> None
      | Some (Inl e, g1) \<Rightarrow> Some (Inl e, g1)
      | Some (Inr _, g1) \<Rightarrow> Some (process_next env g1))"

partial_function (option) engine_run ::
  "('s, 'e, 'rng, 'src, 'l3, 'te) engine_env \<Rightarrow> ('st, 's, 'rng, 'src, 'l3) engine
    \<Rightarrow> ((('te, 'e) engine_error + unit) \<times> ('st, 's, 'rng, 'src, 'l3) engine) option" where
  "engine_run env g =
     (case engine_step env g of
        None \<Rightarrow> None
      | Some (Inl e, g1) \<Rightarrow> Some (Inl e, g1)
      | Some (Inr (Some _), g1) \<Rightarrow> engine_run env g1
      | Some (Inr None, g1) \<Rightarrow>
          if cf_mode (eg_config g1) = BatchMode \<and> (eg_tick_buffer g1 \<noteq> [] \<or> eg_report_buffer g1 \<noteq> [])
          then (case flush_strategy env (eg_now_ts_sim g1) g1 of
                  (Inl e, g2) \<Rightarrow> Some (Inl e, g2)
                | (Inr _, g2) \<Rightarrow> engine_run env g2)
          else Some (Inr (), g1))"

declare engine_run.simps [code]

end
