(* ===== verification/EngineActs.thy ===== *)
theory EngineActs
  imports EngineStep
begin

text \<open>
  The handlers of the engine, seen as sequences of elementary acts. \<open>engine_act\<close> lists the ways
  a handler may touch the state that the engine's invariants speak about: scheduling an event,
  accepting or refusing an order, booking a PnL, and so on. \<open>dispatch_acts\<close> and its companions
  show once that every arm of the dispatch, the batch wake-up and the flush are such sequences,
  in their error cases too; an invariant is then proved act by act. The flag \<open>timed\<close> says
  whether scheduling into the past is excluded, which needs the assumptions of \<open>timely\<close>.
\<close>

section \<open>No overflow of time\<close>

abbreviation max_delay :: i64 where "max_delay \<equiv> 4611686018427387903"

text \<open>
  The clock and the configured delays are at most \<open>2 ^ 62\<close>, so that their sums do not wrap, and
  no delay is negative.
\<close>

definition timely :: "('st, 's, 'rng, 'src, 'l3) engine \<Rightarrow> bool" where
  "timely g \<longleftrightarrow>
     in_i64 (eg_now_ts_sim g) \<and> eg_now_ts_sim g \<le> max_delay \<and>
     0 \<le> cf_order_update_latency_ns (eg_config g) \<and> cf_order_update_latency_ns (eg_config g) \<le> max_delay \<and>
     0 \<le> cf_feed_latency_ns (eg_config g) \<and> cf_feed_latency_ns (eg_config g) \<le> max_delay \<and>
     cf_max_batch_ns (eg_config g) \<le> max_delay \<and> tuner_ok (eg_tuner g)"

lemma timely_report_ts:
  assumes "timely g"
  shows "eg_now_ts_sim g \<le> add_i64 (eg_now_ts_sim g) (cf_order_update_latency_ns (eg_config g))"
    and "eg_now_ts_sim g \<le> report_ts g"
  using assms by (auto simp: timely_def report_ts_def add_i64_exact saturating_add_exact in_i64_def)

lemma saturating_add_ge: "in_i64 a \<Longrightarrow> 0 \<le> d \<Longrightarrow> a \<le> saturating_add a d"
  by (auto simp: saturating_add_def clamp_i64_def in_i64_def)

lemma timely_order_latency:
  assumes "timely g" and "order_latency env g = (ts, g')"
  shows "eg_now_ts_sim g \<le> ts"
  using assms by (auto simp: order_latency_def timely_def intro!: saturating_add_ge split: prod.splits)

section \<open>Elementary acts\<close>

definition reaction :: "event_kind \<Rightarrow> bool" where
  "reaction k \<longleftrightarrow>
     (case k of
        OrderAck _ \<Rightarrow> True | OrderCancel _ \<Rightarrow> True | OrderCancelAck _ \<Rightarrow> True
      | OrderReportEvent _ \<Rightarrow> True | Timer _ \<Rightarrow> True | _ \<Rightarrow> False)"

lemma reaction_simps [simp]:
  "reaction (OrderAck i)" "reaction (OrderCancel i)" "reaction (OrderCancelAck i)"
  "reaction (OrderReportEvent r)" "reaction (Timer n)"
  "\<not> reaction (TickEvent t)" "\<not> reaction (TickDelivery t)" "\<not> reaction (L2UpdateEvent u)"
  "\<not> reaction (L3UpdateEvent v)" "\<not> reaction (OrderEvent ord)" "\<not> reaction (Funding ev)"
  by (simp_all add: reaction_def)

text \<open>A change of the remaining fields: everything the acts below track is the same.\<close>

definition quiet :: "('st, 's, 'rng, 'src, 'l3) engine \<Rightarrow> ('st, 's, 'rng, 'src, 'l3) engine \<Rightarrow> bool" where
  "quiet g g' \<longleftrightarrow>
     eg_queue g' = eg_queue g \<and> eg_next_event_seq g' = eg_next_event_seq g \<and>
     eg_now_ts_sim g' = eg_now_ts_sim g \<and> eg_order_symbol_by_id g' = eg_order_symbol_by_id g \<and>
     eg_next_order_id g' = eg_next_order_id g \<and> eg_account g' = eg_account g \<and>
     eg_trade_log g' = eg_trade_log g \<and> eg_risk_guard g' = eg_risk_guard g \<and>
     eg_queue_model g' = eg_queue_model g \<and> eg_exchanges g' = eg_exchanges g \<and>
     eg_market g' = eg_market g \<and> set (eg_tick_buffer g') \<subseteq> set (eg_tick_buffer g) \<and>
     eg_sources g' = eg_sources g \<and> eg_source_heap g' = eg_source_heap g \<and>
     eg_is_source_heap_initialized g' = eg_is_source_heap_initialized g \<and>
     eg_l3_sources g' = eg_l3_sources g \<and> eg_l3_source_heap g' = eg_l3_source_heap g \<and>
     eg_is_l3_source_heap_initialized g' = eg_is_l3_source_heap_initialized g \<and>
     (timely g \<longrightarrow> timely g')"

definition tick_known :: "('st, 's, 'rng, 'src, 'l3) engine \<Rightarrow> tick \<Rightarrow> bool" where
  "tick_known g t \<longleftrightarrow> tk_ts_local t \<le> eg_now_ts_sim g \<and> tk_ts_exchange t \<le> eg_now_ts_sim g"

inductive engine_act ::
  "bool \<Rightarrow> ('st, 's, 'rng, 'src, 'l3) engine \<Rightarrow> ('st, 's, 'rng, 'src, 'l3) engine \<Rightarrow> bool" for timed where
  act_quiet: "quiet g g' \<Longrightarrow> engine_act timed g g'"
| act_push: "reaction kind \<Longrightarrow> (timed \<Longrightarrow> eg_now_ts_sim g \<le> ts) \<Longrightarrow>
    engine_act timed g (push_event ts kind g)"
| act_submit: "od_order_id ord = eg_next_order_id g \<Longrightarrow>
    check_order (eg_risk_guard g) ord (hm_len (eg_order_symbol_by_id g)) pos = None \<Longrightarrow>
    (timed \<Longrightarrow> eg_now_ts_sim g \<le> ts) \<Longrightarrow>
    engine_act timed g (push_event ts (OrderEvent ord)
      (g\<lparr>eg_next_order_id := u64_wrapping_succ (eg_next_order_id g),
         eg_order_symbol_by_id :=
           hm_insert (eg_next_order_id g) (od_symbol_id ord) (eg_order_symbol_by_id g)\<rparr>))"
| act_refuse: "engine_act timed g (g\<lparr>eg_next_order_id := u64_wrapping_succ (eg_next_order_id g)\<rparr>)"
| act_exchange: "engine_act timed g (g\<lparr>eg_exchanges := hm_insert symbol_id x (eg_exchanges g)\<rparr>)"
| act_book: "engine_act timed g (book_fill ts ord qty price fee g)"
| act_funding: "engine_act timed g (book_funding ev mark g)"
| act_log: "engine_act timed g (log_fill fill g)"
| act_forget: "engine_act timed g (g\<lparr>eg_order_symbol_by_id := hm_remove i (eg_order_symbol_by_id g)\<rparr>)"
| act_deliver: "(timed \<Longrightarrow> tick_known g t) \<Longrightarrow>
    engine_act timed g (g\<lparr>eg_market := on_tick_delivery t (eg_market g)\<rparr>)"
| act_buffer: "(timed \<Longrightarrow> tick_known g t) \<Longrightarrow>
    engine_act timed g (g\<lparr>eg_tick_buffer := eg_tick_buffer g @ [t]\<rparr>)"

abbreviation engine_acts ::
  "bool \<Rightarrow> ('st, 's, 'rng, 'src, 'l3) engine \<Rightarrow> ('st, 's, 'rng, 'src, 'l3) engine \<Rightarrow> bool" where
  "engine_acts timed \<equiv> (engine_act timed)\<^sup>*\<^sup>*"

lemma push_event_simps [simp]:
  "eg_config (push_event ts k g) = eg_config g"
  "eg_now_ts_sim (push_event ts k g) = eg_now_ts_sim g"
  "eg_tuner (push_event ts k g) = eg_tuner g"
  "eg_order_symbol_by_id (push_event ts k g) = eg_order_symbol_by_id g"
  "eg_next_order_id (push_event ts k g) = eg_next_order_id g"
  "eg_account (push_event ts k g) = eg_account g"
  "eg_trade_log (push_event ts k g) = eg_trade_log g"
  "eg_risk_guard (push_event ts k g) = eg_risk_guard g"
  "eg_exchanges (push_event ts k g) = eg_exchanges g"
  "eg_queue_model (push_event ts k g) = eg_queue_model g"
  "eg_market (push_event ts k g) = eg_market g"
  "eg_tick_buffer (push_event ts k g) = eg_tick_buffer g"
  "eg_report_buffer (push_event ts k g) = eg_report_buffer g"
  "eg_strategy (push_event ts k g) = eg_strategy g"
  "eg_pending_wakeup (push_event ts k g) = eg_pending_wakeup g"
  "eg_sources (push_event ts k g) = eg_sources g"
  "eg_source_heap (push_event ts k g) = eg_source_heap g"
  "eg_is_source_heap_initialized (push_event ts k g) = eg_is_source_heap_initialized g"
  "eg_l3_sources (push_event ts k g) = eg_l3_sources g"
  "eg_l3_source_heap (push_event ts k g) = eg_l3_source_heap g"
  "eg_is_l3_source_heap_initialized (push_event ts k g) = eg_is_l3_source_heap_initialized g"
  by (simp_all add: push_event_def)

lemma push_event_timely [simp]: "timely (push_event ts k g) = timely g"
  by (simp add: timely_def)

lemma book_simps [simp]:
  "eg_now_ts_sim (book_fill ts ord q p fee g) = eg_now_ts_sim g"
  "eg_config (book_fill ts ord q p fee g) = eg_config g"
  "eg_tuner (book_fill ts ord q p fee g) = eg_tuner g"
  "eg_now_ts_sim (book_funding ev mark g) = eg_now_ts_sim g"
  "eg_config (book_funding ev mark g) = eg_config g"
  "eg_tuner (book_funding ev mark g) = eg_tuner g"
  by (simp_all add: book_fill_def book_funding_def case_prod_beta Let_def)

lemma act_keeps_time: "engine_act timed g g' \<Longrightarrow> eg_now_ts_sim g' = eg_now_ts_sim g \<and> (timely g \<longrightarrow> timely g')"
  by (induction rule: engine_act.induct) (auto simp: quiet_def timely_def log_fill_def)

lemma acts_keep_time:
  assumes "engine_acts timed g g'"
  shows "eg_now_ts_sim g' = eg_now_ts_sim g" and "timely g \<Longrightarrow> timely g'"
  using assms by (induction rule: rtranclp_induct) (auto dest: act_keeps_time)

section \<open>Sequences of acts\<close>

lemma acts_one: "engine_act timed g g' \<Longrightarrow> engine_acts timed g g'"
  by (rule r_into_rtranclp)

lemma acts_refl: "engine_acts timed g g"
  by (rule rtranclp.rtrancl_refl)

lemma acts_quiet: "quiet g g' \<Longrightarrow> engine_acts timed g g'"
  by (intro acts_one act_quiet)

text \<open>Continuing a sequence: the assumptions on time carry over to the next state.\<close>

lemma acts_then:
  assumes "engine_acts timed g g1" and "timed \<Longrightarrow> timely g"
    and "(timed \<Longrightarrow> timely g1) \<Longrightarrow> eg_now_ts_sim g1 = eg_now_ts_sim g \<Longrightarrow> engine_acts timed g1 g2"
  shows "engine_acts timed g g2"
proof -
  from assms(1) have "eg_now_ts_sim g1 = eg_now_ts_sim g" and "timely g \<Longrightarrow> timely g1"
    by (rule acts_keep_time)+
  with assms(2,3) have "engine_acts timed g1 g2" by simp
  with assms(1) show ?thesis by (rule rtranclp_trans)
qed

lemma acts_fold:
  assumes "\<And>x g'. x \<in> set xs \<Longrightarrow> (timed \<Longrightarrow> timely g') \<Longrightarrow> eg_now_ts_sim g' = eg_now_ts_sim g \<Longrightarrow>
      engine_acts timed g' (f x g')"
    and "timed \<Longrightarrow> timely g"
  shows "engine_acts timed g (fold f xs g)"
  using assms
proof (induction xs arbitrary: g)
  case (Cons x xs)
  have first: "engine_acts timed g (f x g)" using Cons.prems by simp
  show ?case
    unfolding fold_simps
  proof (rule acts_then [OF first Cons.prems(2)])
    assume t: "timed \<Longrightarrow> timely (f x g)" and n: "eg_now_ts_sim (f x g) = eg_now_ts_sim g"
    show "engine_acts timed (f x g) (fold f xs (f x g))"
      by (rule Cons.IH) (use Cons.prems(1) t n in auto)
  qed auto
qed (simp add: acts_refl)

lemma acts_push:
  "reaction kind \<Longrightarrow> (timed \<Longrightarrow> eg_now_ts_sim g \<le> ts) \<Longrightarrow> engine_acts timed g (push_event ts kind g)"
  by (intro acts_one act_push)

text \<open>A call on an exchange changes the exchanges only.\<close>

lemma with_exchange_fields:
  assumes "with_exchange s f g = (r, g')"
  shows "eg_now_ts_sim g' = eg_now_ts_sim g" and "eg_config g' = eg_config g"
    and "eg_tuner g' = eg_tuner g" and "eg_order_symbol_by_id g' = eg_order_symbol_by_id g"
    and "eg_truth_last_trade_by_symbol g' = eg_truth_last_trade_by_symbol g"
    and "timely g' = timely g"
  using assms by (auto simp: with_exchange_def timely_def split: prod.splits)

lemma with_exchange_acts: "with_exchange s f g = (r, g') \<Longrightarrow> engine_acts timed g g'"
  by (auto simp: with_exchange_def intro: acts_one act_exchange split: prod.splits)

lemma with_exchange_snd_acts: "engine_acts timed g (snd (with_exchange s f g))"
  by (rule with_exchange_acts [of _ _ _ "fst (with_exchange s f g)"]) simp

text \<open>Quiet changes of the handlers.\<close>

lemma quiet_simps [simp]:
  "quiet g (g\<lparr>eg_strategy := s\<rparr>)" "quiet g (g\<lparr>eg_rng := r\<rparr>)"
  "quiet g (g\<lparr>eg_truth_last_trade_by_symbol := m\<rparr>)" "quiet g (g\<lparr>eg_report_buffer := rs\<rparr>)"
  "quiet g (g\<lparr>eg_active_batch_timer_id := tid\<rparr>)" "quiet g (g\<lparr>eg_next_timer_id := n\<rparr>)"
  "quiet g (g\<lparr>eg_next_timer_id := n, eg_active_batch_timer_id := tid\<rparr>)"
  "quiet g (g\<lparr>eg_pending_wakeup := b\<rparr>)" "quiet g (g\<lparr>eg_tick_buffer := []\<rparr>)"
  "quiet g (g\<lparr>eg_l2_depth_symbols := d\<rparr>)" "quiet g (g\<lparr>eg_l3_depth_symbols := d\<rparr>)"
  "quiet g g"
  by (simp_all add: quiet_def timely_def)

lemma order_latency_acts: "order_latency env g = (ts, g') \<Longrightarrow> engine_acts timed g g'"
  by (auto simp: order_latency_def intro!: acts_quiet split: prod.splits)

lemma order_latency_now:
  "order_latency env g = (ts, g') \<Longrightarrow>
     eg_now_ts_sim g' = eg_now_ts_sim g \<and> eg_config g' = eg_config g \<and> timely g' = timely g"
  by (auto simp: order_latency_def timely_def split: prod.splits)

section \<open>Commands\<close>

lemma handle_submit_acts:
  assumes "timed \<Longrightarrow> timely g" and "timed \<Longrightarrow> ts = eg_now_ts_sim g"
  shows "engine_acts timed g (handle_submit ord0 ts g)"
proof -
  let ?ord = "ord0\<lparr>od_ts_submit := ts, od_order_id := eg_next_order_id g\<rparr>"
  let ?g1 = "g\<lparr>eg_next_order_id := u64_wrapping_succ (eg_next_order_id g)\<rparr>"
  let ?pos = "position_qty (eg_account g) (od_symbol_id ?ord)"
  show ?thesis
  proof (cases "check_order (eg_risk_guard g) ?ord (hm_len (eg_order_symbol_by_id g)) ?pos")
    case None
    then show ?thesis
      using act_submit [of ?ord g ?pos timed ts] assms(2)
      by (auto simp: handle_submit_def Let_def intro!: acts_one)
  next
    case (Some reason)
    have "eg_now_ts_sim ?g1 \<le> saturating_add ts (cf_order_update_latency_ns (eg_config ?g1))" if timed
      using timely_report_ts(2) [OF assms(1) [OF that]] assms(2) [OF that] by (simp add: report_ts_def)
    then have "engine_acts timed ?g1
      (push_event (saturating_add ts (cf_order_update_latency_ns (eg_config ?g1)))
        (OrderReportEvent (risk_rejection ?ord reason)) ?g1)"
      by (intro acts_push) auto
    moreover have "engine_acts timed g ?g1" by (intro acts_one act_refuse)
    ultimately show ?thesis
      using Some by (simp add: handle_submit_def Let_def)
  qed
qed

lemma handle_command_acts:
  assumes "timed \<Longrightarrow> timely g" and "timed \<Longrightarrow> ts = eg_now_ts_sim g"
  shows "engine_acts timed g (handle_command ts c g)"
  using assms by (cases c) (auto simp: handle_command_def intro!: handle_submit_acts acts_push)

lemma handle_commands_acts:
  assumes "timed \<Longrightarrow> timely g" and "timed \<Longrightarrow> ts = eg_now_ts_sim g"
  shows "engine_acts timed g (handle_commands cs ts g)"
  unfolding handle_commands_def using assms by (intro acts_fold handle_command_acts) auto

lemma call_strategy_acts:
  assumes "timed \<Longrightarrow> timely g" and "timed \<Longrightarrow> ts = eg_now_ts_sim g"
  shows "engine_acts timed g (snd (call_strategy cb x ts g))"
proof -
  obtain r cx s where cb: "cb x (context_new ts (eg_market g)) (eg_strategy g) = (r, cx, s)"
    by (cases "cb x (context_new ts (eg_market g)) (eg_strategy g)") auto
  let ?g1 = "g\<lparr>eg_strategy := s\<rparr>"
  have q: "engine_acts timed g ?g1" by (simp add: acts_quiet)
  have "engine_acts timed g (handle_commands (into_commands cx) ts ?g1)"
    by (rule acts_then [OF q assms(1)]) (use assms(2) in \<open>auto intro!: handle_commands_acts\<close>)
  with q show ?thesis by (cases r) (auto simp: call_strategy_def cb)
qed

end
