(* ===== verification/EngineDispatch.thy ===== *)
theory EngineDispatch
  imports EngineActs
begin

text \<open>
  Every arm of the dispatch of \<open>Engine::step\<close>, the flush and the batch wake-up as sequences of
  elementary acts. \<open>event_ok\<close> is what the ingestion loop guarantees about the market events it
  schedules, and what the handlers of these events need to know to stay in time.
\<close>

definition event_ok :: "event \<Rightarrow> bool" where
  "event_ok ev \<longleftrightarrow>
     (case ev_kind ev of
        TickEvent t \<Rightarrow> tk_ts_exchange t = ts_sim ev
      | TickDelivery t \<Rightarrow> tk_ts_local t = ts_sim ev \<and> tk_ts_exchange t \<le> ts_sim ev
      | _ \<Rightarrow> True)"

section \<open>Trades\<close>

lemma fold_log_acts: "engine_acts timed g (fold (\<lambda>(_, tf). log_fill tf) fills g)"
proof (induction fills arbitrary: g)
  case (Cons x fills)
  have "engine_acts timed g (log_fill (snd x) g)" by (intro acts_one act_log)
  then show ?case
    using rtranclp_trans [OF _ Cons.IH [of "log_fill (snd x) g"]] by (simp add: case_prod_beta)
qed (simp add: acts_refl)

lemma fold_book_acts:
  "engine_acts timed g (fold (\<lambda>(ord, tf). book_fill ts ord (tf_qty tf) (tf_price tf) (tf_fee tf)) fills g)"
proof (induction fills arbitrary: g)
  case (Cons x fills)
  let ?g1 = "book_fill ts (fst x) (tf_qty (snd x)) (tf_price (snd x)) (tf_fee (snd x)) g"
  have "engine_acts timed g ?g1" by (intro acts_one act_book)
  then show ?case using rtranclp_trans [OF _ Cons.IH [of ?g1]] by (simp add: case_prod_beta)
qed (simp add: acts_refl)

lemma fold_report_acts:
  assumes "timed \<Longrightarrow> timely g" and "timed \<Longrightarrow> eg_now_ts_sim g \<le> ts"
  shows "engine_acts timed g (fold (\<lambda>r. push_event ts (OrderReportEvent r)) rs g)"
  using assms by (intro acts_fold acts_push) auto

lemma acts_config:
  assumes "engine_acts timed g g'" and "timed \<Longrightarrow> timely g"
  shows "timed \<Longrightarrow> timely g'"
  using acts_keep_time(2) [OF assms(1)] assms(2) by blast

lemma handle_tick_acts:
  assumes "timed \<Longrightarrow> timely g" and "timed \<Longrightarrow> tk_ts_exchange t = eg_now_ts_sim g"
  shows "engine_acts timed g (handle_tick t g)"
proof -
  let ?g1 = "g\<lparr>eg_truth_last_trade_by_symbol := hm_insert (tk_symbol_id t) t (eg_truth_last_trade_by_symbol g)\<rparr>"
  obtain reports g2 where g2: "with_exchange (tk_symbol_id t) (on_trade t []) ?g1 = (reports, g2)"
    by (cases "with_exchange (tk_symbol_id t) (on_trade t []) ?g1") auto
  define fills where "fills = maker_fills (cf_maker_fee_bps (eg_config g2)) (tk_ts_exchange t)
      (exchange_entry g2 (tk_symbol_id t)) reports"
  define g3 where "g3 = fold (\<lambda>(_, tf). log_fill tf) fills g2"
  define g4 where "g4 = fold (\<lambda>(ord, tf). book_fill (tk_ts_exchange t) ord (tf_qty tf) (tf_price tf) (tf_fee tf)) fills g3"
  have "engine_acts timed g ?g1" by (simp add: acts_quiet)
  also have "engine_acts timed ?g1 g2" using g2 by (rule with_exchange_acts)
  also have "engine_acts timed g2 g3" unfolding g3_def by (rule fold_log_acts)
  also have "engine_acts timed g3 g4" unfolding g4_def by (rule fold_book_acts)
  finally have upto: "engine_acts timed g g4" .
  show ?thesis
    unfolding handle_tick_def Let_def g2 prod.case fills_def [symmetric] g3_def [symmetric] g4_def [symmetric]
  proof (rule acts_then [OF upto assms(1)])
    assume t4: "timed \<Longrightarrow> timely g4" and n4: "eg_now_ts_sim g4 = eg_now_ts_sim g"
    have "timed \<Longrightarrow> eg_now_ts_sim g4 \<le> add_i64 (tk_ts_exchange t) (cf_order_update_latency_ns (eg_config g4))"
      using timely_report_ts(1) [of g4] t4 n4 assms(2) by simp
    with t4 show "engine_acts timed g4
        (fold (\<lambda>r. push_event (add_i64 (tk_ts_exchange t) (cf_order_update_latency_ns (eg_config g4)))
           (OrderReportEvent r)) reports g4)"
      by (rule fold_report_acts)
  qed auto
qed

lemma start_batch_timer_acts:
  assumes "timed \<Longrightarrow> timely g" and "timed \<Longrightarrow> ts = eg_now_ts_sim g"
  shows "engine_acts timed g (start_batch_timer ts g)"
proof (cases "eg_active_batch_timer_id g = None \<and> cf_max_batch_ns (eg_config g) > 0")
  case True
  let ?g1 = "g\<lparr>eg_next_timer_id := u64_wrapping_succ (eg_next_timer_id g),
               eg_active_batch_timer_id := Some (eg_next_timer_id g)\<rparr>"
  have q: "engine_acts timed g ?g1" by (simp add: acts_quiet)
  have "eg_now_ts_sim g \<le> add_i64 ts (cf_max_batch_ns (eg_config g))" if timed
    using assms(1) [OF that] assms(2) [OF that] True
    by (auto simp: timely_def add_i64_exact in_i64_def)
  then have "engine_acts timed ?g1 (push_event (add_i64 ts (cf_max_batch_ns (eg_config g))) (Timer (eg_next_timer_id g)) ?g1)"
    by (intro acts_push) auto
  with q have "engine_acts timed g (push_event (add_i64 ts (cf_max_batch_ns (eg_config g))) (Timer (eg_next_timer_id g)) ?g1)"
    by (rule rtranclp_trans)
  with True show ?thesis by (simp add: start_batch_timer_def Let_def)
next
  case False
  then show ?thesis unfolding start_batch_timer_def if_not_P [OF False] by (simp add: acts_refl)
qed

lemma snd_fall_through [simp]: "snd (fall_through b r) = snd r"
  by (simp add: fall_through_def)

lemma handle_tick_delivery_acts:
  assumes "timed \<Longrightarrow> timely g" and "timed \<Longrightarrow> tk_ts_local t = eg_now_ts_sim g"
    and "timed \<Longrightarrow> tk_ts_exchange t \<le> eg_now_ts_sim g"
  shows "engine_acts timed g (snd (handle_tick_delivery env t g))"
proof -
  let ?g1 = "g\<lparr>eg_market := on_tick_delivery t (eg_market g)\<rparr>"
  let ?g2 = "?g1\<lparr>eg_tick_buffer := eg_tick_buffer ?g1 @ [t]\<rparr>"
  have a1: "engine_acts timed g ?g1"
    using assms by (intro acts_one act_deliver) (simp add: tick_known_def)
  have a2: "engine_acts timed ?g1 ?g2"
    using assms by (intro acts_one act_buffer) (simp add: tick_known_def)
  have t1: "timed \<Longrightarrow> timely ?g1" and t2: "timed \<Longrightarrow> timely ?g2" using assms(1) by (auto simp: timely_def)
  have d1: "engine_acts timed ?g1
      (snd (call_strategy (st_on_tick (en_strategy env)) t (tk_ts_local t) ?g1))"
    by (rule call_strategy_acts [OF t1]) (use assms(2) in auto)
  have d2: "engine_acts timed ?g2 (start_batch_timer (tk_ts_local t) ?g2)"
    by (rule start_batch_timer_acts [OF t2]) (use assms(2) in auto)
  from rtranclp_trans [OF a1 d1] rtranclp_trans [OF a1 rtranclp_trans [OF a2 d2]]
  show ?thesis by (simp add: handle_tick_delivery_def Let_def split: engine_mode.split)
qed

section \<open>Depth\<close>

lemma handle_l2_update_acts: "engine_acts timed g (snd (handle_l2_update u g))"
proof (cases "l2_symbol_id u \<in> eg_l3_depth_symbols g")
  case False
  let ?g1 = "g\<lparr>eg_l2_depth_symbols := insert (l2_symbol_id u) (eg_l2_depth_symbols g)\<rparr>"
  have "engine_acts timed g ?g1" by (simp add: acts_quiet)
  from rtranclp_trans [OF this with_exchange_snd_acts] False show ?thesis
    by (simp add: handle_l2_update_def mark_l2_depth_def)
qed (simp add: handle_l2_update_def mark_l2_depth_def acts_refl)

lemma handle_l3_update_acts: "engine_acts timed g (snd (handle_l3_update u g))"
proof (cases "l3_symbol_id u \<in> eg_l2_depth_symbols g")
  case False
  let ?g1 = "g\<lparr>eg_l3_depth_symbols := insert (l3_symbol_id u) (eg_l3_depth_symbols g)\<rparr>"
  have "engine_acts timed g ?g1" by (simp add: acts_quiet)
  from rtranclp_trans [OF this with_exchange_snd_acts] False show ?thesis
    by (simp add: handle_l3_update_def mark_l3_depth_def)
qed (simp add: handle_l3_update_def mark_l3_depth_def acts_refl)

section \<open>Orders\<close>

lemma handle_order_acts:
  assumes "timed \<Longrightarrow> timely g"
  shows "engine_acts timed g (handle_order env ord g)"
proof -
  obtain r g1 where g1: "with_exchange (od_symbol_id ord) (submit_order ord) g = (r, g1)"
    by (cases "with_exchange (od_symbol_id ord) (submit_order ord) g") auto
  obtain ts g2 where g2: "order_latency env g1 = (ts, g2)" by (cases "order_latency env g1") auto
  have "engine_acts timed g g1" using g1 by (rule with_exchange_acts)
  also have "engine_acts timed g1 g2" using g2 by (rule order_latency_acts)
  also have "engine_acts timed g2 (push_event ts (OrderAck (od_order_id ord)) g2)"
    using timely_order_latency [OF _ g2] order_latency_now [OF g2] with_exchange_fields [OF g1] assms
    by (intro acts_push) auto
  finally show ?thesis by (simp add: handle_order_def g1 g2)
qed

lemma book_taker_acts: "engine_acts timed g (book_taker r mo g)"
proof -
  have "engine_acts timed g (log_fill tf g)" for tf by (intro acts_one act_log)
  moreover have "engine_acts timed g' (book_fill ts ord q p fee g')" for ts ord q p fee and g' :: "('a, 'b, 'c, 'd, 'e) engine"
    by (intro acts_one act_book)
  ultimately have "engine_acts timed g (book_fill ts ord q p fee (log_fill tf g))" for ts ord q p fee tf
    by (rule rtranclp_trans)
  then show ?thesis by (auto simp: book_taker_def Let_def acts_refl split: option.split)
qed

lemma push_report_acts:
  assumes "timed \<Longrightarrow> timely g"
  shows "engine_acts timed g (push_event (report_ts g) (OrderReportEvent r) g)"
  using assms timely_report_ts(2) [of g] by (intro acts_push) auto

lemma report_ts_push [simp]: "report_ts (push_event ts k g) = report_ts g"
  by (simp add: report_ts_def)

lemma report_ts_exchange: "with_exchange s f g = (r, g') \<Longrightarrow> report_ts g' = report_ts g"
  by (simp add: report_ts_def with_exchange_fields)

lemma fill_market_order_acts:
  assumes "timed \<Longrightarrow> timely g"
  shows "engine_acts timed g (fill_market_order i s g)"
proof -
  let ?fill = "fill_market_immediately i (map_option tk_price (hm_get (eg_truth_last_trade_by_symbol g) s))"
  let ?mo = "get_order (exchange_entry g s) i"
  obtain mr g1 where g1: "with_exchange s ?fill g = (mr, g1)" by (cases "with_exchange s ?fill g") auto
  have a1: "engine_acts timed g g1" using g1 by (rule with_exchange_acts)
  show ?thesis
  proof (cases mr)
    case None
    with a1 g1 show ?thesis by (simp add: fill_market_order_def)
  next
    case (Some r)
    let ?g2 = "book_taker r ?mo g1"
    let ?g3 = "push_event (report_ts ?g2) (OrderReportEvent r) ?g2"
    have a2: "engine_acts timed g ?g2" using a1 book_taker_acts by (rule rtranclp_trans)
    then have t2: "timed \<Longrightarrow> timely ?g2" using assms by (rule acts_config)
    have a3: "engine_acts timed g ?g3" by (rule rtranclp_trans [OF a2 push_report_acts [OF t2]])
    obtain mc g4 where g4: "with_exchange s (force_cancel_partial_fill i) ?g3 = (mc, g4)"
      by (cases "with_exchange s (force_cancel_partial_fill i) ?g3") auto
    have a4: "engine_acts timed g g4" using a3 with_exchange_acts [OF g4] by (rule rtranclp_trans)
    then have t4: "timed \<Longrightarrow> timely g4" using assms by (rule acts_config)
    have "report_ts ?g2 = report_ts g4" using report_ts_exchange [OF g4] by simp
    then have a5: "engine_acts timed g (push_event (report_ts ?g2) (OrderReportEvent c) g4)" for c
      using rtranclp_trans [OF a4 push_report_acts [OF t4]] by simp
    from a3 a4 a5 Some g1 g4 show ?thesis
      by (simp add: fill_market_order_def Let_def split: option.split)
  qed
qed

lemma ack_limit_order_acts:
  assumes "timed \<Longrightarrow> timely g"
  shows "engine_acts timed g (ack_limit_order i s g)"
proof -
  obtain r g1 where g1: "with_exchange s (ack_new i) g = (r, g1)" by (cases "with_exchange s (ack_new i) g") auto
  have a1: "engine_acts timed g g1" using g1 by (rule with_exchange_acts)
  then have t1: "timed \<Longrightarrow> timely g1" using assms by (rule acts_config)
  from a1 rtranclp_trans [OF a1 push_report_acts [OF t1]] show ?thesis
    by (simp add: ack_limit_order_def g1 split: sum.split)
qed

lemma handle_order_ack_acts:
  assumes "timed \<Longrightarrow> timely g"
  shows "engine_acts timed g (snd (handle_order_ack i g))"
proof (cases "hm_get (eg_order_symbol_by_id g) i")
  case (Some s)
  obtain k g1 where g1: "with_exchange s (\<lambda>x. (get_order x i, x)) g = (k, g1)"
    by (cases "with_exchange s (\<lambda>x. (get_order x i, x)) g") auto
  have a1: "engine_acts timed g g1" using g1 by (rule with_exchange_acts)
  then have t1: "timed \<Longrightarrow> timely g1" using assms by (rule acts_config)
  from rtranclp_trans [OF a1 fill_market_order_acts [OF t1]] rtranclp_trans [OF a1 ack_limit_order_acts [OF t1]]
  show ?thesis by (auto simp: handle_order_ack_def Some g1 split: option.split)
qed (simp add: handle_order_ack_def acts_refl)

lemma handle_order_cancel_acts:
  assumes "timed \<Longrightarrow> timely g"
  shows "engine_acts timed g (snd (handle_order_cancel env i g))"
proof (cases "hm_get (eg_order_symbol_by_id g) i")
  case (Some s)
  obtain r g1 where g1: "with_exchange s (cancel_order i) g = (r, g1)"
    by (cases "with_exchange s (cancel_order i) g") auto
  obtain ts g2 where g2: "order_latency env g1 = (ts, g2)" by (cases "order_latency env g1") auto
  have a1: "engine_acts timed g g1" using g1 by (rule with_exchange_acts)
  also have "engine_acts timed g1 g2" using g2 by (rule order_latency_acts)
  also have "engine_acts timed g2 (push_event ts (OrderCancelAck i) g2)"
    using timely_order_latency [OF _ g2] order_latency_now [OF g2] with_exchange_fields [OF g1] assms
    by (intro acts_push) auto
  finally show ?thesis using a1 by (simp add: handle_order_cancel_def Some g1 g2 split: sum.split)
qed (simp add: handle_order_cancel_def acts_refl)

lemma handle_order_cancel_ack_acts:
  assumes "timed \<Longrightarrow> timely g"
  shows "engine_acts timed g (handle_order_cancel_ack i g)"
proof (cases "hm_get (eg_order_symbol_by_id g) i")
  case (Some s)
  obtain r g1 where g1: "with_exchange s (ack_cancel i) g = (r, g1)"
    by (cases "with_exchange s (ack_cancel i) g") auto
  have a1: "engine_acts timed g g1" using g1 by (rule with_exchange_acts)
  then have t1: "timed \<Longrightarrow> timely g1" using assms by (rule acts_config)
  have "engine_acts timed g1 (push_event (add_i64 (eg_now_ts_sim g1) (cf_order_update_latency_ns (eg_config g1)))
      (OrderReportEvent rep) g1)" for rep
    using t1 timely_report_ts(1) [of g1] by (intro acts_push) auto
  from a1 rtranclp_trans [OF a1 this] show ?thesis
    by (simp add: handle_order_cancel_ack_def Some g1 split: sum.split)
qed (simp add: handle_order_cancel_ack_def acts_refl)

section \<open>Reports, funding, timers\<close>

lemma forget_order_acts: "engine_acts timed g (forget_order r g)"
proof -
  have f: "engine_acts timed g' (g'\<lparr>eg_order_symbol_by_id := hm_remove i (eg_order_symbol_by_id g')\<rparr>)"
    for i and g' :: "('a, 'b, 'c, 'd, 'e) engine"
    by (intro acts_one act_forget)
  from f [of g] rtranclp_trans [OF with_exchange_snd_acts f] show ?thesis
    by (auto simp: forget_order_def Let_def acts_refl split: option.split)
qed

lemma handle_order_report_acts:
  assumes "timed \<Longrightarrow> timely g"
  shows "engine_acts timed g (snd (handle_order_report env r g))"
proof -
  let ?g1 = "forget_order r g"
  have a1: "engine_acts timed g ?g1" by (rule forget_order_acts)
  then have t1: "timed \<Longrightarrow> timely ?g1" using assms by (rule acts_config)
  have "engine_acts timed ?g1
      (snd (call_strategy (st_on_order_update (en_strategy env)) r (eg_now_ts_sim ?g1) ?g1))"
    using t1 by (intro call_strategy_acts) auto
  moreover have "engine_acts timed ?g1 (?g1\<lparr>eg_report_buffer := eg_report_buffer ?g1 @ [r]\<rparr>)"
    by (simp add: acts_quiet)
  ultimately show ?thesis using rtranclp_trans [OF a1]
    by (simp add: handle_order_report_def Let_def split: engine_mode.split)
qed

lemma handle_funding_acts:
  assumes "timed \<Longrightarrow> timely g"
  shows "engine_acts timed g (snd (handle_funding env ev g))"
proof -
  define g1 where "g1 = (case funding_mark_price g (fu_symbol_id ev) of
      None \<Rightarrow> g | Some mark \<Rightarrow> book_funding ev mark g)"
  have a1: "engine_acts timed g g1"
    by (auto simp: g1_def acts_refl intro: acts_one act_funding split: option.split)
  then have t1: "timed \<Longrightarrow> timely g1" using assms by (rule acts_config)
  have "engine_acts timed g1
      (snd (call_strategy (st_on_funding (en_strategy env)) ev (eg_now_ts_sim g1) g1))"
    using t1 by (intro call_strategy_acts) auto
  from rtranclp_trans [OF a1 this] show ?thesis
    by (simp add: handle_funding_def g1_def [symmetric])
qed

lemma handle_timer_acts: "engine_acts timed g (snd (handle_timer i g))"
  by (simp add: handle_timer_def acts_quiet)

section \<open>The dispatch\<close>

theorem dispatch_acts:
  assumes "timed \<Longrightarrow> timely g"
    and "timed \<Longrightarrow> event_ok \<lparr>ev_id = EventId (eg_now_ts_sim g) n, ev_kind = kind\<rparr>"
  shows "engine_acts timed g (snd (dispatch env kind g))"
proof -
  note hs = handle_tick_acts handle_tick_delivery_acts handle_l2_update_acts handle_l3_update_acts
    handle_order_acts handle_order_ack_acts handle_order_cancel_acts handle_order_cancel_ack_acts
    handle_order_report_acts handle_funding_acts handle_timer_acts
  show ?thesis
    using assms by (cases kind) (auto simp: dispatch_def event_ok_def ts_sim_def intro!: hs)
qed

section \<open>Flush and wake-up\<close>

lemma flush_callbacks_shape:
  "\<exists>s ts rs. snd (flush_callbacks env cx g) = g\<lparr>eg_strategy := s, eg_tick_buffer := ts, eg_report_buffer := rs\<rparr> \<and>
     set ts \<subseteq> set (eg_tick_buffer g)"
proof -
  let ?st = "en_strategy env"
  obtain r1 cx1 s1 where 1: "(if eg_tick_buffer g = [] then (Inr (), cx, eg_strategy g)
      else st_on_ticks ?st (eg_tick_buffer g) cx (eg_strategy g)) = (r1, cx1, s1)"
    by (rule prod_cases3)
  obtain r2 cx2 s2 where 2: "(if eg_report_buffer g = [] then (Inr (), cx1, s1)
      else st_on_order_updates ?st (eg_report_buffer g) cx1 s1) = (r2, cx2, s2)"
    by (rule prod_cases3)
  have same: "g\<lparr>eg_strategy := s\<rparr> = g\<lparr>eg_strategy := s, eg_tick_buffer := eg_tick_buffer g,
      eg_report_buffer := eg_report_buffer g\<rparr>"
    "g\<lparr>eg_strategy := s, eg_tick_buffer := []\<rparr> = g\<lparr>eg_strategy := s, eg_tick_buffer := [],
      eg_report_buffer := eg_report_buffer g\<rparr>" for s
    by simp_all
  show ?thesis
  proof (cases r1)
    case (Inl e)
    then have "snd (flush_callbacks env cx g) = g\<lparr>eg_strategy := s1\<rparr>"
      by (simp add: flush_callbacks_def 1 Let_def)
    from trans [OF this same(1)] show ?thesis by blast
  next
    case (Inr u)
    have "snd (flush_callbacks env cx g) =
        g\<lparr>eg_strategy := s2, eg_tick_buffer := [],
          eg_report_buffer := (case r2 of Inl _ \<Rightarrow> eg_report_buffer g | Inr _ \<Rightarrow> [])\<rparr>"
      using Inr 2 same(2) [of s2] by (auto simp: flush_callbacks_def 1 Let_def split: sum.split)
    then show ?thesis
      by (intro exI [of _ s2] exI [of _ "[]"] exI [of _ "case r2 of Inl _ \<Rightarrow> eg_report_buffer g | Inr _ \<Rightarrow> []"])
        simp
  qed
qed

lemma flush_callbacks_quiet: "quiet g (snd (flush_callbacks env cx g))"
proof -
  obtain s ts rs where f: "snd (flush_callbacks env cx g) =
      g\<lparr>eg_strategy := s, eg_tick_buffer := ts, eg_report_buffer := rs\<rparr>" and "set ts \<subseteq> set (eg_tick_buffer g)"
    using flush_callbacks_shape [of env cx g] by blast
  then show ?thesis unfolding f by (simp add: quiet_def timely_def)
qed

lemma auto_tune_quiet: "quiet g (auto_tune_batch env n g)"
proof (cases "cf_mode (eg_config g) = BatchMode \<and> cf_auto_tune (eg_config g) \<and> n > 0")
  case True
  define tuner where "tuner = record_batch (en_elapsed env (eg_clock_reads g)) n (eg_tuner g)"
  have "tuner_ok tuner \<and> current_batch_ns tuner \<le> max_delay" if "timely g"
  proof -
    have "tuner_ok tuner" using that by (simp add: tuner_def timely_def record_batch_ok)
    then show ?thesis by (auto simp: tuner_ok_def current_batch_ns_def)
  qed
  with True show ?thesis
    by (auto simp: auto_tune_batch_def Let_def quiet_def tuner_def [symmetric] timely_def)
qed (auto simp: auto_tune_batch_def quiet_def)

lemma flush_strategy_acts:
  assumes "timed \<Longrightarrow> timely g" and "timed \<Longrightarrow> ts = eg_now_ts_sim g"
  shows "engine_acts timed g (snd (flush_strategy env ts g))"
proof -
  let ?g1 = "g\<lparr>eg_active_batch_timer_id := None\<rparr>"
  obtain r g2 where g2: "flush_callbacks env (context_new ts (eg_market ?g1)) ?g1 = (r, g2)"
    by (cases "flush_callbacks env (context_new ts (eg_market ?g1)) ?g1") auto
  have a1: "engine_acts timed g ?g1" by (simp add: acts_quiet)
  have "quiet ?g1 g2" using flush_callbacks_quiet [of ?g1 env "context_new ts (eg_market ?g1)"] g2 by simp
  then have a2: "engine_acts timed g g2" using rtranclp_trans [OF a1 acts_quiet] by blast
  have t2: "timed \<Longrightarrow> timely g2" using a2 assms(1) by (rule acts_config)
  have n2: "eg_now_ts_sim g2 = eg_now_ts_sim g" using a2 by (rule acts_keep_time)
  have a3: "engine_acts timed g (handle_commands cs ts g2)" for cs
    using rtranclp_trans [OF a2 handle_commands_acts [OF t2]] assms(2) n2 by simp
  have a4: "engine_acts timed g (auto_tune_batch env n (handle_commands cs ts g2))" for cs n
    using a3 acts_quiet [OF auto_tune_quiet] by (rule rtranclp_trans)
  show ?thesis
    using a2 a4 g2 by (auto simp: flush_strategy_def Let_def acts_refl split: sum.split)
qed

lemma batch_wakeup_acts:
  assumes "timed \<Longrightarrow> timely g"
  shows "engine_acts timed g (snd (batch_wakeup env w g))"
proof -
  obtain r g1 where g1: "flush_strategy env (eg_now_ts_sim g) g = (r, g1)"
    by (cases "flush_strategy env (eg_now_ts_sim g) g") auto
  have a1: "engine_acts timed g g1"
    using flush_strategy_acts [of timed g "eg_now_ts_sim g" env] assms g1 by simp
  have "engine_acts timed g (g1\<lparr>eg_pending_wakeup := False\<rparr>)"
    using a1 acts_quiet [of g1 "g1\<lparr>eg_pending_wakeup := False\<rparr>"] by (auto intro: rtranclp_trans)
  then show ?thesis
    using a1 g1 by (auto simp: batch_wakeup_def acts_refl intro!: acts_quiet split: sum.split)
qed

text \<open>The whole of \<open>step\<close> after the event has been taken from the queue.\<close>

lemma process_next_acts:
  assumes "process_next env g = (r, g')" and "eq_pop (eg_queue g) = Some (ev, q)"
    and "timed \<Longrightarrow> timely (g\<lparr>eg_queue := q, eg_now_ts_sim := ts_sim ev\<rparr>)" and "timed \<Longrightarrow> event_ok ev"
  shows "engine_acts timed (g\<lparr>eg_queue := q, eg_now_ts_sim := ts_sim ev\<rparr>) g'"
proof -
  let ?g1 = "g\<lparr>eg_queue := q, eg_now_ts_sim := ts_sim ev\<rparr>"
  obtain h g2 where g2: "dispatch env (ev_kind ev) ?g1 = (h, g2)"
    by (cases "dispatch env (ev_kind ev) ?g1") auto
  have "ev = \<lparr>ev_id = EventId (eg_now_ts_sim ?g1) (seq ev), ev_kind = ev_kind ev\<rparr>"
    by (simp add: ts_sim_def seq_def)
  then have "engine_acts timed ?g1 (snd (dispatch env (ev_kind ev) ?g1))"
    using assms(3,4) by (intro dispatch_acts [of _ _ "seq ev"]) auto
  then have a2: "engine_acts timed ?g1 g2" using g2 by simp
  then have t2: "timed \<Longrightarrow> timely g2" using assms(3) by (rule acts_config)
  have "engine_acts timed ?g1 (snd (batch_wakeup env w g2))" for w
    by (rule rtranclp_trans [OF a2 batch_wakeup_acts [OF t2]])
  moreover have "g' = g2 \<or> (\<exists>w. g' = snd (batch_wakeup env w g2))"
    using g2 assms(1,2) by (auto simp: process_next_def Let_def apfst_def map_prod_def case_prod_beta split: handled.splits)
  ultimately show ?thesis using a2 by blast
qed

end
