(* ===== verification/EngineInv.thy ===== *)
theory EngineInv
  imports EngineDispatch
begin

text \<open>
  Invariants of the engine that need no assumption on the data: what a run of the engine, with
  any strategy, any latency model, any sources and any market events, can never do. \<open>eg_reach\<close>
  is the set of the states an engine can be in, failed steps included.
\<close>

section \<open>What ingestion leaves alone\<close>

definition books_same :: "('st, 's, 'rng, 'src, 'l3) engine \<Rightarrow> ('st, 's, 'rng, 'src, 'l3) engine \<Rightarrow> bool" where
  "books_same g g' \<longleftrightarrow>
     eg_order_symbol_by_id g' = eg_order_symbol_by_id g \<and> eg_next_order_id g' = eg_next_order_id g \<and>
     eg_account g' = eg_account g \<and> eg_trade_log g' = eg_trade_log g \<and>
     eg_risk_guard g' = eg_risk_guard g \<and> eg_exchanges g' = eg_exchanges g \<and>
     eg_market g' = eg_market g \<and> eg_tick_buffer g' = eg_tick_buffer g \<and>
     eg_report_buffer g' = eg_report_buffer g \<and> eg_strategy g' = eg_strategy g \<and>
     eg_now_ts_sim g' = eg_now_ts_sim g \<and> eg_config g' = eg_config g \<and> eg_tuner g' = eg_tuner g \<and>
     eg_pending_wakeup g' = eg_pending_wakeup g \<and>
     (\<forall>ev ord. ev_kind ev = OrderEvent ord \<longrightarrow>
        (ev \<in># eq_events (eg_queue g') \<longleftrightarrow> ev \<in># eq_events (eg_queue g)))"

lemma books_same_refl: "books_same g g"
  by (simp add: books_same_def)

lemma books_same_trans: "books_same g g1 \<Longrightarrow> books_same g1 g2 \<Longrightarrow> books_same g g2"
  by (simp add: books_same_def)

lemma push_queue [simp]:
  "eq_events (eg_queue (push_event ts k g)) =
     add_mset \<lparr>ev_id = EventId ts (eg_next_event_seq g), ev_kind = k\<rparr> (eq_events (eg_queue g))"
  by (simp add: push_event_def)

lemma push_books_same: "(\<And>ord. k \<noteq> OrderEvent ord) \<Longrightarrow> books_same g (push_event ts k g)"
  by (auto simp: books_same_def)

lemma source_update_books_same:
  "books_same g (g\<lparr>eg_sources := a\<rparr>)" "books_same g (g\<lparr>eg_source_heap := h\<rparr>)"
  "books_same g (g\<lparr>eg_l3_sources := b\<rparr>)" "books_same g (g\<lparr>eg_l3_source_heap := h\<rparr>)"
  "books_same g (g\<lparr>eg_sources := a, eg_source_heap := h\<rparr>)"
  "books_same g (g\<lparr>eg_l3_sources := b, eg_l3_source_heap := h\<rparr>)"
  "books_same g (g\<lparr>eg_sources := a, eg_source_heap := h, eg_is_source_heap_initialized := i\<rparr>)"
  "books_same g (g\<lparr>eg_l3_sources := b, eg_l3_source_heap := h, eg_is_l3_source_heap_initialized := i\<rparr>)"
  by (simp_all add: books_same_def)

lemma init_source_heap_same: "init_source_heap env g = (r, g') \<Longrightarrow> books_same g g'"
  by (auto simp: init_source_heap_def source_update_books_same books_same_refl
      split: if_splits prod.splits sum.splits)

lemma init_l3_source_heap_same: "init_l3_source_heap env g = (r, g') \<Longrightarrow> books_same g g'"
  by (auto simp: init_l3_source_heap_def source_update_books_same books_same_refl
      split: if_splits prod.splits sum.splits)

lemma schedule_tick_same: "books_same g (schedule_tick t g)"
  unfolding schedule_tick_def Let_def
  by (rule books_same_trans [OF push_books_same push_books_same]) simp_all

lemma ingest_tick_same: "books_same g (snd (ingest_tick env idx g))"
proof -
  define g2 where "g2 = g\<lparr>eg_source_heap := heap_drop (eg_source_heap g),
      eg_sources := (eg_sources g)[idx := snd (so_next (en_tick_ops env) (eg_sources g ! idx))]\<rparr>"
  have 2: "books_same g g2" by (simp add: g2_def books_same_def)
  have 3: "books_same g (schedule_tick t g2)" for t
    using 2 schedule_tick_same by (rule books_same_trans)
  have 4: "books_same g ((schedule_tick t g2)\<lparr>eg_sources := s\<rparr>)" for t s
    using 3 source_update_books_same(1) by (rule books_same_trans)
  have 5: "books_same g ((schedule_tick t g2)\<lparr>eg_sources := s, eg_source_heap := h\<rparr>)" for t s h
    using 3 source_update_books_same(5) by (rule books_same_trans)
  show ?thesis
    using 2 4 5 unfolding ingest_tick_def Let_def g2_def
    by (auto split: prod.splits sum.splits option.splits)
qed

lemma ingest_l3_same: "books_same g (snd (ingest_l3 env idx g))"
proof -
  define g2 where "g2 = g\<lparr>eg_l3_source_heap := heap_drop (eg_l3_source_heap g),
      eg_l3_sources := (eg_l3_sources g)[idx := snd (so_next (en_l3_ops env) (eg_l3_sources g ! idx))]\<rparr>"
  have 2: "books_same g g2" by (simp add: g2_def books_same_def)
  have 3: "books_same g (push_event ts (L3UpdateEvent u) g2)" for ts u
    using 2 by (rule books_same_trans) (rule push_books_same, simp)
  have 4: "books_same g ((push_event ts (L3UpdateEvent u) g2)\<lparr>eg_l3_sources := s\<rparr>)" for ts u s
    using 3 source_update_books_same(3) by (rule books_same_trans)
  have 5: "books_same g ((push_event ts (L3UpdateEvent u) g2)\<lparr>eg_l3_sources := s, eg_l3_source_heap := h\<rparr>)" for ts u s h
    using 3 source_update_books_same(6) by (rule books_same_trans)
  show ?thesis
    using 2 4 5 unfolding ingest_l3_def Let_def g2_def
    by (auto split: prod.splits sum.splits option.splits)
qed

lemma ingest_round_same:
  assumes "ingest_round env g = (r, g')"
  shows "books_same g g'"
proof -
  obtain r1 g1 where 1: "init_source_heap env g = (r1, g1)" by (cases "init_source_heap env g") auto
  obtain r2 g2 where 2: "init_l3_source_heap env g1 = (r2, g2)" by (cases "init_l3_source_heap env g1") auto
  have s1: "books_same g g1" using 1 by (rule init_source_heap_same)
  have s2: "books_same g g2" using s1 init_l3_source_heap_same [OF 2] by (rule books_same_trans)
  have s3: "books_same g (snd (ingest_tick env i g2))" "books_same g (snd (ingest_l3 env i g2))" for i
    using s2 ingest_tick_same ingest_l3_same by (blast intro: books_same_trans)+
  have "g' = g1 \<or> g' = g2 \<or> (\<exists>i. g' = snd (ingest_tick env i g2)) \<or> (\<exists>i. g' = snd (ingest_l3 env i g2))"
    using assms 1 2
    by (auto simp: ingest_round_def apfst_def map_prod_def case_prod_beta split: sum.splits due.splits)
  with s1 s2 s3 show ?thesis by blast
qed

text \<open>Invariants of the ingestion loop, and the round it ends with.\<close>

lemma ingest_rule:
  assumes ret: "ingest env g = Some (r, g')" and init: "I g"
    and round: "\<And>g r g'. I g \<Longrightarrow> ingest_round env g = (r, g') \<Longrightarrow> I g'"
  shows "I g' \<and> (\<forall>u. r = Inr u \<longrightarrow> (\<exists>g1. I g1 \<and> ingest_round env g1 = (Inr False, g')))"
proof -
  have "env = env \<longrightarrow> I g \<longrightarrow>
      I (snd y) \<and> (\<forall>u. fst y = Inr u \<longrightarrow> (\<exists>g1. I g1 \<and> ingest_round env g1 = (Inr False, snd y)))"
    if "ingest env g = Some y" for y
  proof (rule ingest.raw_induct [where P = "\<lambda>env' g y. env' = env \<longrightarrow> I g \<longrightarrow>
        I (snd y) \<and> (\<forall>u. fst y = Inr u \<longrightarrow> (\<exists>g1. I g1 \<and> ingest_round env g1 = (Inr False, snd y)))",
        OF _ that])
    fix f env' g y
    assume IH: "\<And>env' g y. f env' g = Some y \<Longrightarrow> env' = env \<longrightarrow> I g \<longrightarrow>
        I (snd y) \<and> (\<forall>u. fst y = Inr u \<longrightarrow> (\<exists>g1. I g1 \<and> ingest_round env g1 = (Inr False, snd y)))"
      and eq: "(case ingest_round env' g of
          (Inl e, g') \<Rightarrow> Some (Inl e, g')
        | (Inr again, g') \<Rightarrow> if again then f env' g' else Some (Inr (), g')) = Some y"
    show "env' = env \<longrightarrow> I g \<longrightarrow>
        I (snd y) \<and> (\<forall>u. fst y = Inr u \<longrightarrow> (\<exists>g1. I g1 \<and> ingest_round env g1 = (Inr False, snd y)))"
    proof (intro impI)
    assume env: "env' = env" and ig: "I g"
    obtain r g1 where r: "ingest_round env g = (r, g1)" by (cases "ingest_round env g") auto
    have i1: "I g1" using ig r by (rule round)
    show "I (snd y) \<and> (\<forall>u. fst y = Inr u \<longrightarrow> (\<exists>g1. I g1 \<and> ingest_round env g1 = (Inr False, snd y)))"
      using eq IH [of env g1 y] r i1 ig env by (auto split: sum.splits if_splits)
    qed
  qed
  with ret init show ?thesis by fastforce
qed

lemma ingest_same:
  assumes "ingest env g = Some (r, g')"
  shows "books_same g g'"
  using ingest_rule [where I = "books_same g", OF assms books_same_refl]
  by (blast intro: books_same_trans ingest_round_same)

section \<open>Reachable engines\<close>

definition feed_event :: "event_kind \<Rightarrow> bool" where
  "feed_event k \<longleftrightarrow> \<not> reaction k \<and> (\<forall>ord. k \<noteq> OrderEvent ord)"

inductive eg_reach ::
  "('s, 'e, 'rng, 'src, 'l3, 'te) engine_env \<Rightarrow> ('st, 's, 'rng, 'src, 'l3) engine \<Rightarrow> bool" for env where
  reach_new: "eg_reach env (engine_new env qm s cfg)"
| reach_tick_source: "eg_reach env g \<Longrightarrow> eg_reach env (add_tick_source src g)"
| reach_l3_source: "eg_reach env g \<Longrightarrow> eg_reach env (add_l3_source env l3 g)"
| reach_push: "eg_reach env g \<Longrightarrow> feed_event k \<Longrightarrow> eg_reach env (push_event ts k g)"
| reach_step: "eg_reach env g \<Longrightarrow> engine_step env g = Some (r, g') \<Longrightarrow> eg_reach env g'"
| reach_flush: "eg_reach env g \<Longrightarrow> flush_strategy env (eg_now_ts_sim g) g = (r', g') \<Longrightarrow> eg_reach env g'"

text \<open>A property that every step and every flush keeps holds when the run loop returns.\<close>

lemma run_rule:
  assumes ret: "engine_run env g = Some y" and init: "I g"
    and step: "\<And>g r g'. I g \<Longrightarrow> engine_step env g = Some (r, g') \<Longrightarrow> I g'"
    and flush: "\<And>g r g'. I g \<Longrightarrow> flush_strategy env (eg_now_ts_sim g) g = (r, g') \<Longrightarrow> I g'"
  shows "I (snd y)"
proof -
  have "env = env \<longrightarrow> I g \<longrightarrow> I (snd y)"
  proof (rule engine_run.raw_induct [where P = "\<lambda>env' g y. env' = env \<longrightarrow> I g \<longrightarrow> I (snd y)",
        OF _ ret], intro impI, goal_cases)
    case (1 f env' g y)
    show ?case
    proof (cases "engine_step env g")
      case (Some z)
      obtain r g1 where z: "z = (r, g1)" by (cases z)
      have i1: "I g1" using 1(4) Some unfolding z by (rule step)
      obtain r2 g2 where f: "flush_strategy env (eg_now_ts_sim g1) g1 = (r2, g2)"
        by (cases "flush_strategy env (eg_now_ts_sim g1) g1") auto
      have i2: "I g2" using i1 f by (rule flush)
      consider (err) e where "r = Inl e" | (event) ev where "r = Inr (Some ev)"
        | (flushed) "r = Inr None" "cf_mode (eg_config g1) = BatchMode \<and> (eg_tick_buffer g1 \<noteq> [] \<or> eg_report_buffer g1 \<noteq> [])"
        | (stop) "r = Inr None" "\<not> (cf_mode (eg_config g1) = BatchMode \<and> (eg_tick_buffer g1 \<noteq> [] \<or> eg_report_buffer g1 \<noteq> []))"
        by (metis sum.exhaust option.exhaust)
      then show ?thesis
      proof cases
        case flushed
        with 1(2,3) Some z f have "(case (r2, g2) of (Inl e, g2) \<Rightarrow> Some (Inl e, g2) | (Inr _, g2) \<Rightarrow> f env' g2) = Some y"
          by simp
        with 1(1) [of env' g2 y] 1(3) i2 show ?thesis by (cases r2) auto
      qed (use 1 Some z i1 in \<open>auto simp del: de_Morgan_conj\<close>)
    qed (use 1 in simp)
  qed
  with init show ?thesis by blast
qed

lemma run_reach: "engine_run env g = Some (r, g') \<Longrightarrow> eg_reach env g \<Longrightarrow> eg_reach env g'"
  by (drule run_rule [where I = "eg_reach env"]) (auto intro: reach_step reach_flush)

text \<open>
  How an invariant is proved: it holds in a new engine, the calls of the user keep it, it only
  looks at the books that ingestion leaves alone and not at the clock or the queue, and every
  act keeps it.
\<close>

lemma step_invariant:
  assumes same: "\<And>g g'. I g \<Longrightarrow> books_same g g' \<Longrightarrow> I g'"
    and pop: "\<And>g q n ev. I g \<Longrightarrow> eq_pop (eg_queue g) = Some (ev, q) \<Longrightarrow> I (g\<lparr>eg_queue := q, eg_now_ts_sim := n\<rparr>)"
    and act: "\<And>g g'. I g \<Longrightarrow> engine_act False g g' \<Longrightarrow> I g'"
    and step: "engine_step env g = Some (r, g')" and init: "I g"
  shows "I g'"
proof -
  have acts: "I g2" if "engine_acts False g1 g2" and "I g1" for g1 g2
    using that by (induction rule: rtranclp_induct) (auto intro: act)
  obtain ri g1 where i: "ingest env g = Some (ri, g1)" using step by (auto simp: engine_step_def split: option.splits)
  have i1: "I g1" using init ingest_same [OF i] by (rule same)
  have "I g'" if "process_next env g1 = (r', g')" for r'
  proof (cases "eq_pop (eg_queue g1)")
    case None
    with that i1 show ?thesis by (simp add: process_next_def)
  next
    case (Some p)
    obtain ev q where p: "p = (ev, q)" by (cases p)
    have "engine_acts False (g1\<lparr>eg_queue := q, eg_now_ts_sim := ts_sim ev\<rparr>) g'"
      using that Some unfolding p by (rule process_next_acts) simp_all
    then show ?thesis using pop [OF i1] Some p by (blast intro: acts)
  qed
  with step i i1 show ?thesis by (auto simp: engine_step_def split: sum.splits)
qed

lemma flush_invariant:
  assumes act: "\<And>g g'. I g \<Longrightarrow> engine_act False g g' \<Longrightarrow> I g'"
    and flush: "flush_strategy env ts g = (r, g')" and init: "I g"
  shows "I g'"
proof -
  have "engine_acts False g g'" using flush_strategy_acts [of False g ts env] flush by simp
  then show ?thesis using init by (induction rule: rtranclp_induct) (auto intro: act)
qed

end
