(* ===== verification/EngineSamples.thy ===== *)
theory EngineSamples
  imports EngineStep
begin

text \<open>
  A small engine for the witnesses: a source is a list of rows, the order latency is a constant
  10 ns, and the strategy buys once, on the first tick it sees.
\<close>

type_synonym sample_env =
  "(bool, unit, unit, tick list, l3_update list, unit) engine_env"
type_synonym sample_engine =
  "(conservative_state, bool, unit, tick list, l3_update list) engine"

definition list_ops :: "('row list, 'row, unit) source_ops" where
  "list_ops = \<lparr>so_peek = (\<lambda>s. (Inr (first s), s)), so_next = (\<lambda>s. (Inr (first s), tl s)),
                so_symbol_id = (\<lambda>_. 1)\<rparr>"

interpretation list_rows: row_source "so_peek list_ops" "so_next list_ops" "(=)"
  by unfold_locales (simp_all add: list_ops_def)

definition buy_order :: "i64 \<Rightarrow> i64 \<Rightarrow> order" where
  "buy_order price qty =
     \<lparr>od_order_id = 0, od_client_order_id = 7, od_ts_submit = 0, od_seq = 0, od_price = price,
      od_qty = qty, od_symbol_id = 1, od_side = Buy, od_order_type = Limit\<rparr>"

definition buy_once :: "(tick, bool, unit) callback" where
  "buy_once t cx bought =
     (Inr (), if bought then cx else cx_submit_order (buy_order 100 5) cx, True)"

definition ignore_report :: "(order_report, bool, unit) callback" where
  "ignore_report r cx s = (Inr (), cx, s)"

definition sample_env :: sample_env where
  "sample_env =
     \<lparr>en_strategy = strategy_with_defaults buy_once ignore_report,
      en_latency = constant_model \<lparr>cl_feed_latency_ns = 0, cl_order_latency_ns = 10\<rparr>,
      en_tick_ops = list_ops, en_l3_ops = list_ops, en_make_rng = (\<lambda>_. ()),
      en_elapsed = (\<lambda>_. 0)\<rparr>"

definition sell_tick :: "i64 \<Rightarrow> u64 \<Rightarrow> tick" where
  "sell_tick ts sq =
     \<lparr>tk_ts_exchange = ts, tk_ts_local = ts, tk_seq = sq, tk_price = 100, tk_qty = 3,
      tk_symbol_id = 1, tk_side = Sell, tk_flags = 0\<rparr>"

definition sample_config :: engine_config where
  "sample_config = engine_config_default\<lparr>cf_max_open_orders := 2, cf_max_loss := -50\<rparr>"

definition sample_engine :: sample_engine where
  "sample_engine =
     add_tick_source [sell_tick 100 0, sell_tick 110 1, sell_tick 120 2]
       (engine_new sample_env conservative_queue False sample_config)"

text \<open>The state after a number of steps.\<close>

fun run_steps :: "nat \<Rightarrow> ('s, 'e, 'rng, 'src, 'l3, 'te) engine_env \<Rightarrow>
    ('st, 's, 'rng, 'src, 'l3) engine \<Rightarrow> ('st, 's, 'rng, 'src, 'l3) engine" where
  "run_steps 0 env g = g"
| "run_steps (Suc n) env g =
     (case engine_step env g of None \<Rightarrow> g | Some (_, g') \<Rightarrow> run_steps n env g')"

end
