(* ===== verification/EngineTermination.thy ===== *)
theory EngineTermination
  imports EngineInv EngineSamples
begin

text \<open>
  Termination of \<open>Engine::run\<close>. The run loop has no bound of its own: it ends because the sources
  are finite and because the strategy stops sending orders. The theory makes this precise. The
  rows left and the trades in the queue decrease lexicographically before a potential that counts
  the strategy's remaining commands, the other events by the length of the chain they can start,
  and the buffered deliveries.
\<close>

section \<open>Strategies that stop\<close>

text \<open>
  A budget bounds the number of commands a strategy will still send: a callback pays for the
  commands it adds.
\<close>

definition within_budget :: "('s \<Rightarrow> nat) \<Rightarrow> ('x, 's, 'e) callback \<Rightarrow> bool" where
  "within_budget budget cb \<longleftrightarrow>
     (\<forall>x cx s r cx' s'. cb x cx s = (r, cx', s') \<longrightarrow>
        length (cx_commands cx') + budget s' \<le> length (cx_commands cx) + budget s)"

lemma within_budgetD:
  "within_budget budget cb \<Longrightarrow> cb x cx s = (r, cx', s') \<Longrightarrow>
     length (cx_commands cx') + budget s' \<le> length (cx_commands cx) + budget s"
  by (simp add: within_budget_def)

locale bounded_strategy =
  fixes st :: "('s, 'e) strategy" and budget :: "'s \<Rightarrow> nat"
  assumes on_tick: "within_budget budget (st_on_tick st)"
    and on_ticks: "within_budget budget (st_on_ticks st)"
    and on_order_update: "within_budget budget (st_on_order_update st)"
    and on_order_updates: "within_budget budget (st_on_order_updates st)"
    and on_funding: "within_budget budget (st_on_funding st)"

text \<open>The provided methods stay within the budget of the required ones.\<close>

lemma each_callback_budget:
  assumes "within_budget budget cb"
  shows "within_budget budget (each_callback cb)"
proof -
  have "length (cx_commands cx') + budget s' \<le> length (cx_commands cx) + budget s"
    if "each_callback cb xs cx s = (r, cx', s')" for xs cx s r cx' s'
    using that
  proof (induction xs arbitrary: cx s)
    case (Cons x xs)
    obtain r1 cx1 s1 where 1: "cb x cx s = (r1, cx1, s1)" by (cases "cb x cx s") auto
    have "length (cx_commands cx1) + budget s1 \<le> length (cx_commands cx) + budget s"
      using assms 1 by (rule within_budgetD)
    with Cons 1 show ?case by (cases r1) (auto dest!: Cons.IH)
  qed simp
  then show ?thesis by (simp add: within_budget_def)
qed

lemma default_funding_budget: "within_budget budget default_on_funding"
  by (simp add: within_budget_def default_on_funding_def)

lemma defaults_bounded:
  "within_budget budget on_tick \<Longrightarrow> within_budget budget on_update \<Longrightarrow>
     bounded_strategy (strategy_with_defaults on_tick on_update) budget"
  by unfold_locales
    (simp_all add: strategy_with_defaults_def each_callback_budget default_funding_budget)

section \<open>The potential\<close>

fun weight :: "event_kind \<Rightarrow> nat" where
  "weight (TickEvent _) = 0"
| "weight (TickDelivery _) = 3"
| "weight (L2UpdateEvent _) = 1"
| "weight (L3UpdateEvent _) = 1"
| "weight (OrderEvent _) = 6"
| "weight (OrderAck _) = 5"
| "weight (OrderCancel _) = 4"
| "weight (OrderCancelAck _) = 3"
| "weight (OrderReportEvent _) = 2"
| "weight (Funding _) = 1"
| "weight (Timer _) = 1"

definition potential :: "('s \<Rightarrow> nat) \<Rightarrow> ('st, 's, 'rng, 'src, 'l3) engine \<Rightarrow> nat" where
  "potential budget g =
     7 * budget (eg_strategy g) + (\<Sum>ev\<in>#eq_events (eg_queue g). weight (ev_kind ev)) +
     length (eg_tick_buffer g) + length (eg_report_buffer g)"

definition is_trade :: "event_kind \<Rightarrow> bool" where
  "is_trade k \<longleftrightarrow> (case k of TickEvent _ \<Rightarrow> True | _ \<Rightarrow> False)"

definition trades_queued :: "('st, 's, 'rng, 'src, 'l3) engine \<Rightarrow> nat" where
  "trades_queued g = size {#ev \<in># eq_events (eg_queue g). is_trade (ev_kind ev)#}"

lemma potential_push [simp]:
  "potential budget (push_event ts k g) = potential budget g + weight k"
  by (simp add: potential_def)

lemma potential_with_exchange:
  "with_exchange s f g = (r, g') \<Longrightarrow> potential budget g' = potential budget g"
  by (auto simp: with_exchange_def potential_def split: prod.splits)

lemma potential_snd_with_exchange [simp]:
  "potential budget (snd (with_exchange s f g)) = potential budget g"
  by (rule potential_with_exchange [of s f g "fst (with_exchange s f g)"]) simp

lemma potential_order_latency:
  "order_latency env g = (ts, g') \<Longrightarrow> potential budget g' = potential budget g"
  by (auto simp: order_latency_def potential_def split: prod.splits)

lemma potential_updates [simp]:
  "potential budget (g\<lparr>eg_next_order_id := a\<rparr>) = potential budget g"
  "potential budget (g\<lparr>eg_order_symbol_by_id := b\<rparr>) = potential budget g"
  "potential budget (g\<lparr>eg_next_order_id := a, eg_order_symbol_by_id := b\<rparr>) = potential budget g"
  "potential budget (g\<lparr>eg_market := c\<rparr>) = potential budget g"
  "potential budget (g\<lparr>eg_l2_depth_symbols := d\<rparr>) = potential budget g"
  "potential budget (g\<lparr>eg_l3_depth_symbols := d\<rparr>) = potential budget g"
  "potential budget (g\<lparr>eg_pending_wakeup := e\<rparr>) = potential budget g"
  "potential budget (g\<lparr>eg_active_batch_timer_id := f\<rparr>) = potential budget g"
  "potential budget (g\<lparr>eg_next_timer_id := n\<rparr>) = potential budget g"
  "potential budget (g\<lparr>eg_next_timer_id := n, eg_active_batch_timer_id := f\<rparr>) = potential budget g"
  "potential budget (log_fill tf g) = potential budget g"
  "potential budget (book_fill ts ord q p fee g) = potential budget g"
  "potential budget (book_funding ev mark g) = potential budget g"
  by (simp_all add: potential_def log_fill_def book_fill_def book_funding_def case_prod_beta Let_def)

section \<open>Commands cost what the budget pays\<close>

lemma handle_command_potential: "potential budget (handle_command ts c g) \<le> potential budget g + 6"
  by (auto simp: handle_command_def handle_submit_def Let_def split: command.split option.split)

lemma handle_commands_potential:
  "potential budget (handle_commands cs ts g) \<le> potential budget g + 6 * length cs"
  unfolding handle_commands_def
proof (induction cs arbitrary: g)
  case (Cons c cs)
  from Cons.IH [of "handle_command ts c g"] handle_command_potential [of budget ts c g]
  show ?case by simp
qed simp

lemma potential_strategy:
  "potential budget (g\<lparr>eg_strategy := s\<rparr>) + 7 * budget (eg_strategy g) = potential budget g + 7 * budget s"
  by (simp add: potential_def)

lemma call_strategy_potential:
  assumes "within_budget budget cb"
  shows "potential budget (snd (call_strategy cb x ts g)) \<le> potential budget g"
proof -
  obtain r cx s where cb: "cb x (context_new ts (eg_market g)) (eg_strategy g) = (r, cx, s)"
    by (cases "cb x (context_new ts (eg_market g)) (eg_strategy g)") auto
  have "length (cx_commands cx) + budget s \<le> budget (eg_strategy g)"
    using within_budgetD [OF assms cb] by (simp add: context_new_def)
  with potential_strategy [where budget = budget and g = g and s = s]
    handle_commands_potential [of budget "into_commands cx" ts "g\<lparr>eg_strategy := s\<rparr>"]
  show ?thesis by (auto simp: call_strategy_def cb into_commands_def Let_def split: sum.split)
qed

section \<open>Every arm of the dispatch spends its event\<close>

lemma start_batch_timer_potential: "potential budget (start_batch_timer ts g) \<le> potential budget g + 1"
  by (simp add: start_batch_timer_def Let_def)

lemma potential_buffers:
  "potential budget (g\<lparr>eg_tick_buffer := eg_tick_buffer g @ [t]\<rparr>) = potential budget g + 1"
  "potential budget (g\<lparr>eg_market := m, eg_tick_buffer := eg_tick_buffer g @ [t]\<rparr>) = potential budget g + 1"
  "potential budget (g\<lparr>eg_report_buffer := eg_report_buffer g @ [rep]\<rparr>) = potential budget g + 1"
  by (simp_all add: potential_def)

lemma book_taker_potential [simp]: "potential budget (book_taker r mo g) = potential budget g"
  by (simp add: book_taker_def Let_def split: option.split)

lemma fill_market_order_potential:
  "potential budget (fill_market_order i s g) \<le> potential budget g + 4"
proof -
  let ?fill = "fill_market_immediately i (map_option tk_price (hm_get (eg_truth_last_trade_by_symbol g) s))"
  obtain mr g1 where g1: "with_exchange s ?fill g = (mr, g1)" by (cases "with_exchange s ?fill g") auto
  note p1 = potential_with_exchange [OF g1, of budget]
  show ?thesis
  proof (cases mr)
    case (Some r)
    let ?g2 = "book_taker r (get_order (exchange_entry g s) i) g1"
    let ?g3 = "push_event (report_ts ?g2) (OrderReportEvent r) ?g2"
    obtain mc g4 where g4: "with_exchange s (force_cancel_partial_fill i) ?g3 = (mc, g4)"
      by (cases "with_exchange s (force_cancel_partial_fill i) ?g3") auto
    from potential_with_exchange [OF g4, of budget] Some p1 show ?thesis
      by (simp add: fill_market_order_def Let_def g1 g4 split: option.split)
  qed (simp add: fill_market_order_def Let_def g1 p1)
qed

lemma ack_limit_order_potential: "potential budget (ack_limit_order i s g) \<le> potential budget g + 2"
  by (auto simp: ack_limit_order_def potential_with_exchange split: sum.split prod.split)

lemma handle_order_ack_potential: "potential budget (snd (handle_order_ack i g)) < potential budget g + 5"
proof (cases "hm_get (eg_order_symbol_by_id g) i")
  case (Some s)
  obtain k g1 where g1: "with_exchange s (\<lambda>x. (get_order x i, x)) g = (k, g1)"
    by (cases "with_exchange s (\<lambda>x. (get_order x i, x)) g") auto
  from fill_market_order_potential [of budget i s g1] ack_limit_order_potential [of budget i s g1]
    potential_with_exchange [OF g1, of budget]
  show ?thesis by (auto simp: handle_order_ack_def Some g1)
qed (simp add: handle_order_ack_def)

lemma handle_order_potential: "potential budget (handle_order env ord g) = potential budget g + 5"
  by (simp add: handle_order_def case_prod_beta Let_def
      potential_order_latency [OF prod.collapse [symmetric]])

lemma handle_order_cancel_potential:
  "potential budget (snd (handle_order_cancel env i g)) < potential budget g + 4"
proof (cases "hm_get (eg_order_symbol_by_id g) i")
  case (Some s)
  obtain r g1 where g1: "with_exchange s (cancel_order i) g = (r, g1)"
    by (cases "with_exchange s (cancel_order i) g") auto
  obtain ts g2 where g2: "order_latency env g1 = (ts, g2)" by (cases "order_latency env g1") auto
  from potential_with_exchange [OF g1, of budget] potential_order_latency [OF g2, of budget]
  show ?thesis by (simp add: handle_order_cancel_def Some g1 g2 split: sum.split)
qed (simp add: handle_order_cancel_def)

lemma handle_order_cancel_ack_potential:
  "potential budget (handle_order_cancel_ack i g) < potential budget g + 3"
proof (cases "hm_get (eg_order_symbol_by_id g) i")
  case (Some s)
  obtain r g1 where g1: "with_exchange s (ack_cancel i) g = (r, g1)"
    by (cases "with_exchange s (ack_cancel i) g") auto
  from potential_with_exchange [OF g1, of budget]
  show ?thesis by (simp add: handle_order_cancel_ack_def Some g1 split: sum.split)
qed (simp add: handle_order_cancel_ack_def)

lemma forget_order_potential [simp]: "potential budget (forget_order r g) = potential budget g"
  by (simp add: forget_order_def Let_def split: option.split)

context bounded_strategy begin

lemma dispatch_potential:
  assumes "en_strategy env = st" and "\<not> is_trade kind"
  shows "potential budget (snd (dispatch env kind g)) < potential budget g + weight kind"
proof (cases kind)
  case (TickDelivery t)
  have "potential budget (snd (call_strategy (st_on_tick st) t (tk_ts_local t) (g\<lparr>eg_market := on_tick_delivery t (eg_market g)\<rparr>)))
      \<le> potential budget g"
    using call_strategy_potential [OF on_tick, of t "tk_ts_local t" "g\<lparr>eg_market := on_tick_delivery t (eg_market g)\<rparr>"]
    by simp
  with start_batch_timer_potential [of budget "tk_ts_local t" "g\<lparr>eg_market := on_tick_delivery t (eg_market g), eg_tick_buffer := eg_tick_buffer g @ [t]\<rparr>"]
  show ?thesis
    by (auto simp: TickDelivery dispatch_def handle_tick_delivery_def Let_def assms(1) potential_buffers
        split: engine_mode.split)
next
  case (OrderReportEvent r)
  have "potential budget (snd (call_strategy (st_on_order_update st) r (eg_now_ts_sim (forget_order r g)) (forget_order r g)))
      \<le> potential budget g"
    using call_strategy_potential [OF on_order_update, of r "eg_now_ts_sim (forget_order r g)" "forget_order r g"]
    by simp
  then show ?thesis
    by (auto simp: OrderReportEvent dispatch_def handle_order_report_def Let_def assms(1) potential_buffers
        split: engine_mode.split)
next
  case (Funding ev)
  define g1 where "g1 = (case funding_mark_price g (fu_symbol_id ev) of
      None \<Rightarrow> g | Some mark \<Rightarrow> book_funding ev mark g)"
  have "potential budget g1 = potential budget g" by (simp add: g1_def split: option.split)
  then show ?thesis
    using call_strategy_potential [OF on_funding, of ev "eg_now_ts_sim g1" g1]
    by (simp add: Funding dispatch_def handle_funding_def Let_def assms(1) g1_def [symmetric])
qed (use assms(2) in \<open>auto simp: is_trade_def dispatch_def handle_l2_update_def handle_l3_update_def
      mark_l2_depth_def mark_l3_depth_def handle_order_potential handle_order_ack_potential
      handle_order_cancel_potential handle_order_cancel_ack_potential handle_timer_def\<close>)

lemma flush_callbacks_potential:
  assumes "en_strategy env = st" and "flush_callbacks env cx g = (res, g')" and "cx_commands cx = []"
  shows "potential budget g' \<le> potential budget g"
    and "res = Inr cx' \<Longrightarrow> potential budget g' + 6 * length (cx_commands cx') +
      length (eg_tick_buffer g) + length (eg_report_buffer g) \<le> potential budget g"
proof -
  obtain r1 cx1 s1 where 1: "(if eg_tick_buffer g = [] then (Inr (), cx, eg_strategy g)
      else st_on_ticks st (eg_tick_buffer g) cx (eg_strategy g)) = (r1, cx1, s1)"
    by (rule prod_cases3)
  obtain r2 cx2 s2 where 2: "(if eg_report_buffer g = [] then (Inr (), cx1, s1)
      else st_on_order_updates st (eg_report_buffer g) cx1 s1) = (r2, cx2, s2)"
    by (rule prod_cases3)
  have b1: "length (cx_commands cx1) + budget s1 \<le> budget (eg_strategy g)"
    using 1 assms(3) within_budgetD [OF on_ticks, of "eg_tick_buffer g" cx "eg_strategy g" r1 cx1 s1]
    by (auto split: if_splits)
  have b2: "length (cx_commands cx2) + budget s2 \<le> length (cx_commands cx1) + budget s1"
    using 2 within_budgetD [OF on_order_updates, of "eg_report_buffer g" cx1 s1 r2 cx2 s2]
    by (auto split: if_splits)
  note def = flush_callbacks_def assms(1) 1 Let_def
  have "(\<exists>e. res = Inl e \<and> potential budget g' \<le> potential budget g) \<or>
      (res = Inr cx2 \<and> potential budget g' + 6 * length (cx_commands cx2) +
        length (eg_tick_buffer g) + length (eg_report_buffer g) \<le> potential budget g)"
  proof (cases r1)
    case (Inl e)
    then show ?thesis using assms(2) b1 by (auto simp: def potential_def)
  next
    case (Inr u)
    then show ?thesis using assms(2) b1 b2 2
      by (cases r2; cases "eg_report_buffer g = []") (auto simp: def potential_def)
  qed
  then show "potential budget g' \<le> potential budget g"
    and "res = Inr cx' \<Longrightarrow> potential budget g' + 6 * length (cx_commands cx') +
      length (eg_tick_buffer g) + length (eg_report_buffer g) \<le> potential budget g"
    by auto
qed

lemma potential_auto_tune [simp]: "potential budget (auto_tune_batch env n g) = potential budget g"
  by (simp add: auto_tune_batch_def potential_def Let_def)

lemma flush_potential:
  assumes "en_strategy env = st" and "flush_strategy env ts g = (r, g')"
  shows "potential budget g' \<le> potential budget g"
    and "r = Inr u \<Longrightarrow> eg_tick_buffer g \<noteq> [] \<or> eg_report_buffer g \<noteq> [] \<Longrightarrow>
      potential budget g' < potential budget g"
proof -
  let ?g1 = "g\<lparr>eg_active_batch_timer_id := None\<rparr>"
  obtain res g2 where f: "flush_callbacks env (context_new ts (eg_market ?g1)) ?g1 = (res, g2)"
    by (cases "flush_callbacks env (context_new ts (eg_market ?g1)) ?g1") auto
  have cx: "cx_commands (context_new ts (eg_market ?g1)) = []" by (simp add: context_new_def)
  note p = flush_callbacks_potential [OF assms(1) f cx]
  have p1: "potential budget g2 \<le> potential budget g" using p(1) by simp
  have p2: "potential budget (handle_commands (into_commands cx') ts g2) +
      length (eg_tick_buffer g) + length (eg_report_buffer g) \<le> potential budget g" if "res = Inr cx'" for cx'
    using p(2) [OF that] handle_commands_potential [of budget "into_commands cx'" ts g2]
    by (simp add: into_commands_def)
  show "potential budget g' \<le> potential budget g"
    using assms(2) p1 p2 f
    by (auto simp: flush_strategy_def Let_def split: if_splits sum.splits dest: add_leD1)
  show "potential budget g' < potential budget g"
    if "r = Inr u" and "eg_tick_buffer g \<noteq> [] \<or> eg_report_buffer g \<noteq> []"
  proof -
    from that assms(2) f obtain cx' where "res = Inr cx'"
      and g': "g' = auto_tune_batch env (length (eg_tick_buffer g) + length (eg_report_buffer g))
        (handle_commands (into_commands cx') ts g2)"
      by (auto simp: flush_strategy_def Let_def split: sum.splits if_splits)
    have "0 < length (eg_tick_buffer g) + length (eg_report_buffer g)" using that(2) by auto
    with p2 [OF \<open>res = Inr cx'\<close>] show ?thesis unfolding g' potential_auto_tune by linarith
  qed
qed

lemma batch_wakeup_potential:
  assumes "en_strategy env = st"
  shows "potential budget (snd (batch_wakeup env w g)) \<le> potential budget g"
proof -
  obtain r g1 where f: "flush_strategy env (eg_now_ts_sim g) g = (r, g1)"
    by (cases "flush_strategy env (eg_now_ts_sim g) g") auto
  from flush_potential(1) [OF assms f] show ?thesis
    by (auto simp: batch_wakeup_def f split: sum.split)
qed

end

section \<open>What the acts leave alone\<close>

definition sources_same :: "('st, 's, 'rng, 'src, 'l3) engine \<Rightarrow> ('st, 's, 'rng, 'src, 'l3) engine \<Rightarrow> bool" where
  "sources_same g g' \<longleftrightarrow>
     trades_queued g' = trades_queued g \<and>
     eg_sources g' = eg_sources g \<and> eg_source_heap g' = eg_source_heap g \<and>
     eg_is_source_heap_initialized g' = eg_is_source_heap_initialized g \<and>
     eg_l3_sources g' = eg_l3_sources g \<and> eg_l3_source_heap g' = eg_l3_source_heap g \<and>
     eg_is_l3_source_heap_initialized g' = eg_is_l3_source_heap_initialized g"

lemma trades_push [simp]:
  "trades_queued (push_event ts k g) = trades_queued g + (if is_trade k then 1 else 0)"
  by (simp add: trades_queued_def)

lemma act_sources_same: "engine_act timed g g' \<Longrightarrow> sources_same g g'"
proof (induction rule: engine_act.induct)
  case (act_push kind g ts)
  then have "\<not> is_trade kind" by (auto simp: is_trade_def split: event_kind.splits)
  then show ?case by (simp add: sources_same_def)
qed (auto simp: sources_same_def quiet_def trades_queued_def is_trade_def log_fill_def book_fill_def
    book_funding_def case_prod_beta Let_def push_event_def)

lemma acts_sources_same: "engine_acts timed g g' \<Longrightarrow> sources_same g g'"
  by (induction rule: rtranclp_induct) (auto simp: sources_same_def dest!: act_sources_same)

end
