(* ===== verification/EngineRun.thy ===== *)
theory EngineRun
  imports EngineTermination
begin

text \<open>
  The run loop returns. \<open>engine_world\<close> puts the contracts of the engine's environment together:
  the strategy keeps to a budget and the sources hold finite lists of rows. Ingestion consumes
  rows, a trade leaves the queue, and every other event lowers the potential, so the pair of
  rows-and-trades and potential decreases lexicographically with every step.
\<close>

section \<open>Sources with finitely many rows\<close>

definition rows_left ::
  "('src \<Rightarrow> tick list \<Rightarrow> bool) \<Rightarrow> ('l3 \<Rightarrow> l3_update list \<Rightarrow> bool) \<Rightarrow>
   ('st, 's, 'rng, 'src, 'l3) engine \<Rightarrow> nat \<Rightarrow> bool" where
  "rows_left tick_rows l3_rows g n \<longleftrightarrow>
     (\<exists>tss lss. list_all2 tick_rows (eg_sources g) tss \<and> list_all2 l3_rows (eg_l3_sources g) lss \<and>
        n = sum_list (map length tss) + sum_list (map length lss))"

lemma rows_leftI:
  "list_all2 tick_rows (eg_sources g) tss \<Longrightarrow> list_all2 l3_rows (eg_l3_sources g) lss \<Longrightarrow>
     n = sum_list (map length tss) + sum_list (map length lss) \<Longrightarrow> rows_left tick_rows l3_rows g n"
  by (auto simp: rows_left_def)

definition heap_ok :: "('st, 's, 'rng, 'src, 'l3) engine \<Rightarrow> bool" where
  "heap_ok g \<longleftrightarrow>
     (eg_is_source_heap_initialized g \<longrightarrow>
        (\<forall>p\<in>set (eg_source_heap g). pk_source_idx p < length (eg_sources g))) \<and>
     (eg_is_l3_source_heap_initialized g \<longrightarrow>
        (\<forall>p\<in>set (eg_l3_source_heap g). pk_source_idx p < length (eg_l3_sources g)))"

lemma heap_drop_subset: "set (heap_drop h) \<subseteq> set h"
  by (auto simp: heap_drop_def heap_pop_def split: option.splits dest: set_remove1_subset [THEN subsetD])

lemma heap_ok_new: "heap_ok (engine_new env qm s cfg)"
  by (simp add: heap_ok_def engine_new_def)

lemma heap_ok_add: "heap_ok g \<Longrightarrow> heap_ok (add_tick_source src g)" "heap_ok g \<Longrightarrow> heap_ok (add_l3_source env l3 g)"
  by (simp_all add: heap_ok_def add_tick_source_def add_l3_source_def)

lemma schedule_tick_fields [simp]:
  "eg_sources (schedule_tick t g) = eg_sources g" "eg_l3_sources (schedule_tick t g) = eg_l3_sources g"
  "eg_source_heap (schedule_tick t g) = eg_source_heap g"
  "eg_l3_source_heap (schedule_tick t g) = eg_l3_source_heap g"
  "eg_is_source_heap_initialized (schedule_tick t g) = eg_is_source_heap_initialized g"
  "eg_is_l3_source_heap_initialized (schedule_tick t g) = eg_is_l3_source_heap_initialized g"
  "trades_queued (schedule_tick t g) = Suc (trades_queued g)"
  by (simp_all add: schedule_tick_def Let_def is_trade_def)

lemma heap_ok_drop:
  "heap_ok g \<Longrightarrow> heap_ok (g\<lparr>eg_source_heap := heap_drop (eg_source_heap g), eg_sources := (eg_sources g)[i := x]\<rparr>)"
  "heap_ok g \<Longrightarrow> heap_ok (g\<lparr>eg_l3_source_heap := heap_drop (eg_l3_source_heap g), eg_l3_sources := (eg_l3_sources g)[i := y]\<rparr>)"
  using heap_drop_subset [of "eg_source_heap g"] heap_drop_subset [of "eg_l3_source_heap g"]
  by (auto simp: heap_ok_def)

context row_source begin

lemma peek_all_holds:
  "list_all2 holds srcs rows \<Longrightarrow> so_peek ops = peek \<Longrightarrow> peek_all ops key i srcs heap = (r, srcs', heap') \<Longrightarrow>
     r = Inr () \<and> list_all2 holds srcs' rows \<and>
     (\<forall>p\<in>set heap'. p \<in> set heap \<or> pk_source_idx p < i + length srcs)"
proof (induction srcs arbitrary: rows i heap r srcs' heap')
  case (Cons src srcs)
  then obtain rs rest where rows: "rows = rs # rest" "holds src rs" "list_all2 holds srcs rest"
    by (cases rows) auto
  obtain src1 where peek: "peek src = (Inr (first rs), src1)" "holds src1 rs"
    using peek_holds [OF rows(2)] by blast
  define heap1 where "heap1 = (case first rs of
      None \<Rightarrow> heap
    | Some r \<Rightarrow> heap_push \<lparr>pk_ts = fst (key r), pk_seq = snd (key r), pk_source_idx = i\<rparr> heap)"
  obtain r2 srcs2 heap2 where 2: "peek_all ops key (Suc i) srcs heap1 = (r2, srcs2, heap2)"
    by (rule prod_cases3)
  from Cons.IH [OF rows(3) Cons.prems(2) 2]
  have ih: "r2 = Inr ()" "list_all2 holds srcs2 rest"
    "\<forall>p\<in>set heap2. p \<in> set heap1 \<or> pk_source_idx p < Suc i + length srcs"
    by auto
  have "\<forall>p\<in>set heap1. p \<in> set heap \<or> pk_source_idx p = i"
    by (auto simp: heap1_def heap_push_def split: option.splits)
  with ih Cons.prems(2,3) peek rows(1) 2 show ?case
    by (auto simp: heap1_def [symmetric])
qed auto

text \<open>One row taken from source \<open>i\<close> of a list of sources.\<close>

lemma next_row:
  assumes "list_all2 holds srcs rows" and "i < length srcs" and "next (srcs ! i) = (r, src)"
  obtains (none) "r = Inr None"
    | (row) row where "r = Inr (Some row)" and "list_all2 holds (srcs[i := src]) (rows[i := tl (rows ! i)])"
        and "Suc (sum_list (map length (rows[i := tl (rows ! i)]))) = sum_list (map length rows)"
proof -
  have len: "length rows = length srcs" using assms(1) by (simp add: list_all2_lengthD)
  have h: "holds (srcs ! i) (rows ! i)" using assms(1,2) by (rule list_all2_nthD)
  obtain s' where n: "next (srcs ! i) = (Inr (first (rows ! i)), s')" "holds s' (tl (rows ! i))"
    using next_holds [OF h] by blast
  show thesis
  proof (cases "rows ! i")
    case Nil
    with n assms(3) show thesis by (intro none) simp
  next
    case (Cons row rest)
    have "list_all2 holds (srcs[i := src]) (rows[i := tl (rows ! i)])"
      using assms n by (intro list_all2_update_cong) auto
    moreover have "Suc (sum_list (map length (rows[i := tl (rows ! i)]))) = sum_list (map length rows)"
    proof -
      have "length (rows ! i) \<le> sum_list (map length rows)"
        using assms(2) len by (intro member_le_sum_list) auto
      with Cons assms(2) len show ?thesis
        by (simp add: map_update sum_list_update)
    qed
    ultimately show thesis using n(1) assms(3) Cons by (intro row) simp_all
  qed
qed

lemma peek_row:
  assumes "list_all2 holds srcs rows" and "i < length srcs" and "peek (srcs ! i) = (r, src)"
  obtains row where "r = Inr row" and "list_all2 holds (srcs[i := src]) rows"
proof -
  have len: "length rows = length srcs" using assms(1) by (simp add: list_all2_lengthD)
  have h: "holds (srcs ! i) (rows ! i)" using assms(1,2) by (rule list_all2_nthD)
  obtain s' where n: "peek (srcs ! i) = (Inr (first (rows ! i)), s')" "holds s' (rows ! i)"
    using peek_holds [OF h] by blast
  have "list_all2 holds (srcs[i := src]) (rows[i := rows ! i])"
    using assms n by (intro list_all2_update_cong) auto
  with n assms(3) show thesis by (intro that) auto
qed

end

section \<open>The environment's contracts\<close>

locale engine_world =
  fixes env :: "('s, 'e, 'rng, 'src, 'l3, 'te) engine_env"
    and budget :: "'s \<Rightarrow> nat"
    and tick_rows :: "'src \<Rightarrow> tick list \<Rightarrow> bool"
    and l3_rows :: "'l3 \<Rightarrow> l3_update list \<Rightarrow> bool"
  assumes strategy_law: "bounded_strategy (en_strategy env) budget"
    and tick_law: "row_source (so_peek (en_tick_ops env)) (so_next (en_tick_ops env)) tick_rows"
    and l3_law: "row_source (so_peek (en_l3_ops env)) (so_next (en_l3_ops env)) l3_rows"
begin

lemma init_source_heap_ok:
  assumes "init_source_heap env g = (r, g')" and "rows_left tick_rows l3_rows g n" and "heap_ok g"
  shows "r = Inr () \<and> rows_left tick_rows l3_rows g' n \<and> heap_ok g' \<and> eg_is_source_heap_initialized g' \<and>
    trades_queued g' = trades_queued g \<and> potential budget g' = potential budget g"
proof (cases "eg_is_source_heap_initialized g")
  case False
  from assms(2) obtain tss lss where h: "list_all2 tick_rows (eg_sources g) tss"
      "list_all2 l3_rows (eg_l3_sources g) lss" "n = sum_list (map length tss) + sum_list (map length lss)"
    by (auto simp: rows_left_def)
  obtain r1 srcs heap where p: "peek_all (en_tick_ops env) tick_key 0 (eg_sources g) [] = (r1, srcs, heap)"
    by (rule prod_cases3)
  from row_source.peek_all_holds [OF tick_law h(1) refl p]
  have 1: "r1 = Inr ()" "list_all2 tick_rows srcs tss" "\<forall>q\<in>set heap. pk_source_idx q < length (eg_sources g)"
    by auto
  have "length srcs = length (eg_sources g)" using 1(2) h(1) by (auto dest!: list_all2_lengthD)
  moreover have "rows_left tick_rows l3_rows (g\<lparr>eg_sources := srcs, eg_source_heap := heap, eg_is_source_heap_initialized := True\<rparr>) n"
    using 1(2) h(2) h(3) by (intro rows_leftI) auto
  ultimately show ?thesis using 1(1,3) assms(1,3) False p
    by (auto simp: init_source_heap_def heap_ok_def trades_queued_def potential_def)
qed (use assms in \<open>simp add: init_source_heap_def\<close>)

lemma init_l3_source_heap_ok:
  assumes "init_l3_source_heap env g = (r, g')" and "rows_left tick_rows l3_rows g n" and "heap_ok g"
  shows "r = Inr () \<and> rows_left tick_rows l3_rows g' n \<and> heap_ok g' \<and> eg_is_l3_source_heap_initialized g' \<and>
    eg_is_source_heap_initialized g' = eg_is_source_heap_initialized g \<and>
    trades_queued g' = trades_queued g \<and> potential budget g' = potential budget g"
proof (cases "eg_is_l3_source_heap_initialized g")
  case False
  from assms(2) obtain tss lss where h: "list_all2 tick_rows (eg_sources g) tss"
      "list_all2 l3_rows (eg_l3_sources g) lss" "n = sum_list (map length tss) + sum_list (map length lss)"
    by (auto simp: rows_left_def)
  obtain r1 srcs heap where p: "peek_all (en_l3_ops env) l3_key 0 (eg_l3_sources g) [] = (r1, srcs, heap)"
    by (rule prod_cases3)
  from row_source.peek_all_holds [OF l3_law h(2) refl p]
  have 1: "r1 = Inr ()" "list_all2 l3_rows srcs lss" "\<forall>q\<in>set heap. pk_source_idx q < length (eg_l3_sources g)"
    by auto
  have "length srcs = length (eg_l3_sources g)" using 1(2) h(2) by (auto dest!: list_all2_lengthD)
  moreover have "rows_left tick_rows l3_rows (g\<lparr>eg_l3_sources := srcs, eg_l3_source_heap := heap, eg_is_l3_source_heap_initialized := True\<rparr>) n"
    using h(1) 1(2) h(3) by (intro rows_leftI) auto
  ultimately show ?thesis using 1(1,3) assms(1,3) False p
    by (auto simp: init_l3_source_heap_def heap_ok_def trades_queued_def potential_def)
qed (use assms in \<open>simp add: init_l3_source_heap_def\<close>)

lemma ingest_tick_ok:
  assumes "ingest_tick env i g = (r, g')" and "rows_left tick_rows l3_rows g n" and "heap_ok g"
    and "i < length (eg_sources g)"
  shows "(\<exists>e. r = Inl e) \<or> (r = Inr () \<and> (\<exists>m. n = Suc m \<and> rows_left tick_rows l3_rows g' m) \<and> heap_ok g' \<and>
    trades_queued g' = Suc (trades_queued g))"
proof -
  from assms(2) obtain tss lss where h: "list_all2 tick_rows (eg_sources g) tss"
      "list_all2 l3_rows (eg_l3_sources g) lss" "n = sum_list (map length tss) + sum_list (map length lss)"
    by (auto simp: rows_left_def)
  let ?ops = "en_tick_ops env"
  obtain row src where nx: "so_next ?ops (eg_sources g ! i) = (row, src)" by (cases "so_next ?ops (eg_sources g ! i)") auto
  define g2 where "g2 = g\<lparr>eg_source_heap := heap_drop (eg_source_heap g), eg_sources := (eg_sources g)[i := src]\<rparr>"
  have ok2: "heap_ok g2" unfolding g2_def using assms(3) by (rule heap_ok_drop)
  show ?thesis
  proof (cases rule: row_source.next_row [OF tick_law h(1) assms(4) nx, case_names none row])
    case none
    with assms(1) nx show ?thesis by (auto simp: ingest_tick_def Let_def)
  next
    case (row t)
    let ?tss = "tss[i := tl (tss ! i)]"
    define g3 where "g3 = schedule_tick t g2"
    have h3: "list_all2 tick_rows (eg_sources g3) ?tss" using row(2) by (simp add: g3_def g2_def)
    have len3: "i < length (eg_sources g3)" using assms(4) by (simp add: g3_def g2_def)
    obtain pr src' where pk: "so_peek ?ops (eg_sources g3 ! i) = (pr, src')"
      by (cases "so_peek ?ops (eg_sources g3 ! i)") auto
    define g4 where "g4 = g3\<lparr>eg_sources := (eg_sources g3)[i := src']\<rparr>"
    from row_source.peek_row [OF tick_law h3 len3 pk]
    obtain nrow where pr: "pr = Inr nrow" and h4: "list_all2 tick_rows ((eg_sources g3)[i := src']) ?tss" by blast
    define g5 where "g5 = (case nrow of None \<Rightarrow> g4 | Some n' \<Rightarrow> g4\<lparr>eg_source_heap :=
        heap_push \<lparr>pk_ts = tk_ts_exchange n', pk_seq = tk_seq n', pk_source_idx = i\<rparr> (eg_source_heap g4)\<rparr>)"
    have rg: "r = Inr () \<and> g' = g5"
      using assms(1) nx row(1) pk pr
      by (auto simp: ingest_tick_def Let_def g2_def g3_def g4_def g5_def split: option.splits)
    have ok4: "heap_ok g4" using ok2 by (simp add: heap_ok_def g4_def g3_def)
    have "heap_ok g5" using ok4 len3
      by (auto simp: g5_def heap_ok_def g4_def heap_push_def split: option.split)
    moreover have "trades_queued g5 = Suc (trades_queued g)"
      by (simp add: g5_def g4_def g3_def g2_def trades_queued_def is_trade_def schedule_tick_def Let_def split: option.split)
    moreover have "rows_left tick_rows l3_rows g5 (sum_list (map length ?tss) + sum_list (map length lss))"
      using h4 h(2) by (intro rows_leftI) (auto simp: g5_def g4_def g3_def g2_def split: option.split)
    moreover have "n = Suc (sum_list (map length ?tss) + sum_list (map length lss))"
      using row(3) h(3) by simp
    ultimately show ?thesis using rg by blast
  qed
qed

lemma ingest_l3_ok:
  assumes "ingest_l3 env i g = (r, g')" and "rows_left tick_rows l3_rows g n" and "heap_ok g"
    and "i < length (eg_l3_sources g)"
  shows "(\<exists>e. r = Inl e) \<or> (r = Inr () \<and> (\<exists>m. n = Suc m \<and> rows_left tick_rows l3_rows g' m) \<and> heap_ok g' \<and>
    trades_queued g' = trades_queued g)"
proof -
  from assms(2) obtain tss lss where h: "list_all2 tick_rows (eg_sources g) tss"
      "list_all2 l3_rows (eg_l3_sources g) lss" "n = sum_list (map length tss) + sum_list (map length lss)"
    by (auto simp: rows_left_def)
  let ?ops = "en_l3_ops env"
  obtain row src where nx: "so_next ?ops (eg_l3_sources g ! i) = (row, src)" by (cases "so_next ?ops (eg_l3_sources g ! i)") auto
  define g2 where "g2 = g\<lparr>eg_l3_source_heap := heap_drop (eg_l3_source_heap g), eg_l3_sources := (eg_l3_sources g)[i := src]\<rparr>"
  have ok2: "heap_ok g2" unfolding g2_def using assms(3) by (rule heap_ok_drop)
  show ?thesis
  proof (cases rule: row_source.next_row [OF l3_law h(2) assms(4) nx, case_names none row])
    case none
    with assms(1) nx show ?thesis by (auto simp: ingest_l3_def Let_def)
  next
    case (row u)
    let ?lss = "lss[i := tl (lss ! i)]"
    define g3 where "g3 = push_event (l3_ts_exchange u) (L3UpdateEvent u) g2"
    have h3: "list_all2 l3_rows (eg_l3_sources g3) ?lss" using row(2) by (simp add: g3_def g2_def)
    have len3: "i < length (eg_l3_sources g3)" using assms(4) by (simp add: g3_def g2_def)
    obtain pr src' where pk: "so_peek ?ops (eg_l3_sources g3 ! i) = (pr, src')"
      by (cases "so_peek ?ops (eg_l3_sources g3 ! i)") auto
    define g4 where "g4 = g3\<lparr>eg_l3_sources := (eg_l3_sources g3)[i := src']\<rparr>"
    from row_source.peek_row [OF l3_law h3 len3 pk]
    obtain nrow where pr: "pr = Inr nrow" and h4: "list_all2 l3_rows ((eg_l3_sources g3)[i := src']) ?lss" by blast
    define g5 where "g5 = (case nrow of None \<Rightarrow> g4 | Some n' \<Rightarrow> g4\<lparr>eg_l3_source_heap :=
        heap_push \<lparr>pk_ts = l3_ts_exchange n', pk_seq = l3_seq n', pk_source_idx = i\<rparr> (eg_l3_source_heap g4)\<rparr>)"
    have rg: "r = Inr () \<and> g' = g5"
      using assms(1) nx row(1) pk pr
      by (auto simp: ingest_l3_def Let_def g2_def g3_def g4_def g5_def split: option.splits)
    have ok4: "heap_ok g4" using ok2 by (simp add: heap_ok_def g4_def g3_def)
    have "heap_ok g5" using ok4 len3
      by (auto simp: g5_def heap_ok_def g4_def heap_push_def split: option.split)
    moreover have "trades_queued g5 = trades_queued g"
      by (simp add: g5_def g4_def g3_def g2_def trades_queued_def is_trade_def push_event_def split: option.split)
    moreover have "rows_left tick_rows l3_rows g5 (sum_list (map length tss) + sum_list (map length ?lss))"
      using h4 h(1) by (intro rows_leftI) (auto simp: g5_def g4_def g3_def g2_def split: option.split)
    moreover have "n = Suc (sum_list (map length tss) + sum_list (map length ?lss))"
      using row(3) h(3) by simp
    ultimately show ?thesis using rg by blast
  qed
qed

lemma due_in_range:
  assumes "heap_ok g" and "eg_is_source_heap_initialized g" and "eg_is_l3_source_heap_initialized g"
  shows "due_source g = DueTick i \<Longrightarrow> i < length (eg_sources g)"
    and "due_source g = DueL3 i \<Longrightarrow> i < length (eg_l3_sources g)"
  using assms
  by (auto simp: due_source_def due_tick_def heap_ok_def dest!: heap_peek_in split: option.splits if_splits)

text \<open>One round: an error, the end of the loop with nothing changed that counts, or a row less.\<close>

lemma ingest_round_ok:
  assumes "ingest_round env g = (r, g')" and "rows_left tick_rows l3_rows g n" and "heap_ok g"
  shows "(\<exists>e. r = Inl e) \<or>
    (r = Inr False \<and> rows_left tick_rows l3_rows g' n \<and> heap_ok g' \<and> trades_queued g' = trades_queued g \<and>
      potential budget g' = potential budget g) \<or>
    (r = Inr True \<and> heap_ok g' \<and> (\<exists>m. n = Suc m \<and> rows_left tick_rows l3_rows g' m) \<and>
      trades_queued g' \<le> Suc (trades_queued g))"
proof -
  obtain r1 g1 where 1: "init_source_heap env g = (r1, g1)" by (cases "init_source_heap env g") auto
  note s1 = init_source_heap_ok [OF 1 assms(2,3)]
  obtain r2 g2 where 2: "init_l3_source_heap env g1 = (r2, g2)" by (cases "init_l3_source_heap env g1") auto
  from s1 have s2: "r2 = Inr () \<and> rows_left tick_rows l3_rows g2 n \<and> heap_ok g2 \<and>
      eg_is_l3_source_heap_initialized g2 \<and> eg_is_source_heap_initialized g2 \<and>
      trades_queued g2 = trades_queued g \<and> potential budget g2 = potential budget g"
    using init_l3_source_heap_ok [OF 2, of n] by simp
  show ?thesis
  proof (cases "due_source g2")
    case (DueL3 i)
    obtain r3 g3 where 3: "ingest_l3 env i g2 = (r3, g3)" by (cases "ingest_l3 env i g2") auto
    have "i < length (eg_l3_sources g2)" using due_in_range(2) [OF _ _ _ DueL3] s2 by blast
    with ingest_l3_ok [OF 3, of n] s2 show ?thesis
      using assms(1) 1 2 3 s1 DueL3 by (auto simp: ingest_round_def)
  next
    case (DueTick i)
    obtain r3 g3 where 3: "ingest_tick env i g2 = (r3, g3)" by (cases "ingest_tick env i g2") auto
    have "i < length (eg_sources g2)" using due_in_range(1) [OF _ _ _ DueTick] s2 by blast
    with ingest_tick_ok [OF 3, of n] s2 show ?thesis
      using assms(1) 1 2 3 s1 DueTick by (auto simp: ingest_round_def)
  next
    case NotDue
    with assms(1) 1 2 s1 s2 show ?thesis by (simp add: ingest_round_def)
  qed
qed

text \<open>The ingestion loop returns, and what it consumed shows in the rows and the trades.\<close>

lemma ingest_returns:
  assumes "rows_left tick_rows l3_rows g n" and "heap_ok g"
  shows "\<exists>r g'. ingest env g = Some (r, g') \<and>
    (r = Inr () \<longrightarrow> heap_ok g' \<and> (\<exists>m. rows_left tick_rows l3_rows g' m \<and>
       (2 * m + trades_queued g' < 2 * n + trades_queued g \<or>
        (2 * m + trades_queued g' = 2 * n + trades_queued g \<and> potential budget g' = potential budget g))))"
  using assms
proof (induction n arbitrary: g rule: less_induct)
  case (less n)
  obtain r g1 where r: "ingest_round env g = (r, g1)" by (cases "ingest_round env g") auto
  from ingest_round_ok [OF r less.prems] consider
      (err) e where "r = Inl e"
    | (stop) "r = Inr False" "rows_left tick_rows l3_rows g1 n" "heap_ok g1" "trades_queued g1 = trades_queued g"
        "potential budget g1 = potential budget g"
    | (again) m where "r = Inr True" "heap_ok g1" "n = Suc m" "rows_left tick_rows l3_rows g1 m"
        "trades_queued g1 \<le> Suc (trades_queued g)"
    by blast
  then show ?case
  proof cases
    case again
    then have "m < n" by simp
    from less.IH [OF this again(4,2)] obtain r' g' where i: "ingest env g1 = Some (r', g')"
      and ok: "r' = Inr () \<longrightarrow> heap_ok g' \<and> (\<exists>k. rows_left tick_rows l3_rows g' k \<and>
        (2 * k + trades_queued g' < 2 * m + trades_queued g1 \<or>
         (2 * k + trades_queued g' = 2 * m + trades_queued g1 \<and> potential budget g' = potential budget g1)))"
      by blast
    have "2 * m + trades_queued g1 < 2 * n + trades_queued g" using again by simp
    with ok have "r' = Inr () \<longrightarrow> heap_ok g' \<and> (\<exists>k. rows_left tick_rows l3_rows g' k \<and>
        2 * k + trades_queued g' < 2 * n + trades_queued g)"
      by fastforce
    moreover have "ingest env g = Some (r', g')" using again(1) r i by (simp add: ingest.simps [of env g])
    ultimately show ?thesis by blast
  qed (use r in \<open>auto simp: ingest.simps [of env g]\<close>)
qed

definition rank :: "nat \<Rightarrow> ('st, 's, 'rng, 'src, 'l3) engine \<Rightarrow> nat \<times> nat" where
  "rank n g = (2 * n + trades_queued g, potential budget g)"

abbreviation rank_less :: "((nat \<times> nat) \<times> (nat \<times> nat)) set" where
  "rank_less \<equiv> less_than <*lex*> less_than"

lemma sources_same_rows:
  "sources_same g g' \<Longrightarrow> rows_left tick_rows l3_rows g n \<Longrightarrow> rows_left tick_rows l3_rows g' n"
  "sources_same g g' \<Longrightarrow> heap_ok g \<Longrightarrow> heap_ok g'"
  by (auto simp: sources_same_def rows_left_def heap_ok_def)

lemma process_next_ok:
  assumes "process_next env g = (r, g')" and "rows_left tick_rows l3_rows g n" and "heap_ok g"
  shows "rows_left tick_rows l3_rows g' n \<and> heap_ok g' \<and>
    (case r of Inl _ \<Rightarrow> True | Inr None \<Rightarrow> g' = g | Inr (Some _) \<Rightarrow> (rank n g', rank n g) \<in> rank_less)"
proof (cases "eq_pop (eg_queue g)")
  case None
  with assms show ?thesis by (auto simp: process_next_def)
next
  case (Some p)
  obtain ev q where p: "p = (ev, q)" by (cases p)
  let ?g1 = "g\<lparr>eg_queue := q, eg_now_ts_sim := ts_sim ev\<rparr>"
  have q: "eq_events (eg_queue g) = add_mset ev (eq_events q)"
    using eq_pop_events Some p by blast
  have acts: "engine_acts False ?g1 g'" using assms(1) Some unfolding p by (rule process_next_acts) simp_all
  then have same: "sources_same ?g1 g'" by (rule acts_sources_same)
  have "rows_left tick_rows l3_rows ?g1 n" "heap_ok ?g1"
    using assms(2,3) by (simp_all add: rows_left_def heap_ok_def)
  with same have rows: "rows_left tick_rows l3_rows g' n" "heap_ok g'"
    by (auto intro: sources_same_rows)
  have "(rank n g', rank n g) \<in> rank_less" if ok: "r = Inr (Some ev')" for ev'
  proof (cases "is_trade (ev_kind ev)")
    case True
    have "trades_queued g' < trades_queued g" using same q True by (simp add: sources_same_def trades_queued_def)
    then show ?thesis by (simp add: rank_def)
  next
    case False
    obtain h g2 where d: "dispatch env (ev_kind ev) ?g1 = (h, g2)" by (cases "dispatch env (ev_kind ev) ?g1") auto
    have "potential budget ?g1 + weight (ev_kind ev) = potential budget g" using q by (simp add: potential_def)
    moreover have "potential budget g2 < potential budget ?g1 + weight (ev_kind ev)"
      using bounded_strategy.dispatch_potential [OF strategy_law refl False, of ?g1] d by simp
    moreover have "potential budget g' \<le> potential budget g2"
      using assms(1) ok Some p d bounded_strategy.batch_wakeup_potential [OF strategy_law refl, of _ g2]
      by (auto simp: process_next_def Let_def apfst_def map_prod_def case_prod_beta split: handled.splits)
    moreover have "trades_queued g' = trades_queued g" using same q False by (simp add: sources_same_def trades_queued_def)
    ultimately show ?thesis by (simp add: rank_def)
  qed
  moreover have "map_sum id (\<lambda>_. Some ev) x \<noteq> (Inr None :: ('te, 'e) engine_error + event option)"
    for x :: "('te, 'e) engine_error + unit"
    by (cases x) auto
  then have "r \<noteq> Inr None" using assms(1) Some p
    by (auto simp: process_next_def Let_def apfst_def map_prod_def case_prod_beta split: handled.splits)
  ultimately show ?thesis using rows by (auto split: sum.split option.split)
qed

lemma step_returns:
  assumes "rows_left tick_rows l3_rows g n" and "heap_ok g"
  shows "\<exists>r g'. engine_step env g = Some (r, g') \<and>
    (\<forall>res. r = Inr res \<longrightarrow> heap_ok g' \<and> (\<exists>m. rows_left tick_rows l3_rows g' m \<and>
       (case res of None \<Rightarrow> rank m g' = rank n g \<or> (rank m g', rank n g) \<in> rank_less
        | Some _ \<Rightarrow> (rank m g', rank n g) \<in> rank_less)))"
proof -
  from ingest_returns [OF assms] obtain ri g1 where i: "ingest env g = Some (ri, g1)"
    and ok: "ri = Inr () \<longrightarrow> heap_ok g1 \<and> (\<exists>m. rows_left tick_rows l3_rows g1 m \<and>
       (2 * m + trades_queued g1 < 2 * n + trades_queued g \<or>
        (2 * m + trades_queued g1 = 2 * n + trades_queued g \<and> potential budget g1 = potential budget g)))"
    by blast
  show ?thesis
  proof (cases ri)
    case (Inr u)
    with ok obtain m where m: "heap_ok g1" "rows_left tick_rows l3_rows g1 m"
      and rk: "rank m g1 = rank n g \<or> (rank m g1, rank n g) \<in> rank_less"
      by (auto simp: rank_def)
    obtain r g' where p: "process_next env g1 = (r, g')" by (cases "process_next env g1") auto
    note pn = process_next_ok [OF p m(2,1)]
    have "(rank m g', rank n g) \<in> rank_less" if "(rank m g', rank m g1) \<in> rank_less"
      using that rk by (auto simp: rank_def)
    then have "\<forall>res. r = Inr res \<longrightarrow> heap_ok g' \<and> (\<exists>m. rows_left tick_rows l3_rows g' m \<and>
       (case res of None \<Rightarrow> rank m g' = rank n g \<or> (rank m g', rank n g) \<in> rank_less
        | Some _ \<Rightarrow> (rank m g', rank n g) \<in> rank_less))"
      using pn rk by (auto split: option.splits intro!: exI [of _ m])
    with i Inr p show ?thesis by (auto simp: engine_step_def)
  qed (use i in \<open>auto simp: engine_step_def\<close>)
qed

lemma run_returns:
  assumes "rows_left tick_rows l3_rows g n" and "heap_ok g"
  shows "\<exists>res. engine_run env g = Some res"
  using assms
proof (induction "rank n g" arbitrary: g n rule: wf_induct_rule [OF wf_lex_prod [OF wf_less_than wf_less_than]])
  case (1 g n)
  from step_returns [OF 1(2,3)] obtain r g1 where s: "engine_step env g = Some (r, g1)"
    and ok: "\<forall>res. r = Inr res \<longrightarrow> heap_ok g1 \<and> (\<exists>m. rows_left tick_rows l3_rows g1 m \<and>
       (case res of None \<Rightarrow> rank m g1 = rank n g \<or> (rank m g1, rank n g) \<in> rank_less
        | Some _ \<Rightarrow> (rank m g1, rank n g) \<in> rank_less))"
    by blast
  show ?case
  proof (cases r)
    case (Inl e)
    with s show ?thesis by (simp add: engine_run.simps [of env g])
  next
    case (Inr res)
    with ok obtain m where m: "heap_ok g1" "rows_left tick_rows l3_rows g1 m"
      and rk: "case res of None \<Rightarrow> rank m g1 = rank n g \<or> (rank m g1, rank n g) \<in> rank_less
        | Some _ \<Rightarrow> (rank m g1, rank n g) \<in> rank_less"
      by blast
    show ?thesis
    proof (cases res)
      case (Some ev)
      with rk have "(rank m g1, rank n g) \<in> rank_less" by simp
      from 1(1) [OF this m(2,1)] s Inr Some show ?thesis by (simp add: engine_run.simps [of env g])
    next
      case None
      obtain r2 g2 where f: "flush_strategy env (eg_now_ts_sim g1) g1 = (r2, g2)"
        by (cases "flush_strategy env (eg_now_ts_sim g1) g1") auto
      have "engine_acts False g1 g2" using flush_strategy_acts [of False g1 "eg_now_ts_sim g1" env] f by simp
      then have same: "sources_same g1 g2" by (rule acts_sources_same)
      then have m2: "rows_left tick_rows l3_rows g2 m" "heap_ok g2" using m by (auto intro: sources_same_rows)
      have again: "\<exists>res. engine_run env g2 = Some res"
        if "eg_tick_buffer g1 \<noteq> [] \<or> eg_report_buffer g1 \<noteq> []" and "r2 = Inr u" for u
      proof -
        have "potential budget g2 < potential budget g1"
          by (rule bounded_strategy.flush_potential(2) [OF strategy_law refl f that(2,1)])
        then have "(rank m g2, rank m g1) \<in> rank_less" using same by (simp add: rank_def sources_same_def)
        with rk None have "(rank m g2, rank n g) \<in> rank_less" by (auto simp: rank_def)
        from 1(1) [OF this m2] show ?thesis .
      qed
      then show ?thesis using s Inr None f by (cases r2) (auto simp: engine_run.simps [of env g])
    qed
  qed
qed

end

section \<open>The code's own sources\<close>

definition arrow_env ::
  "('s, 'e) strategy \<Rightarrow> 'rng latency_model \<Rightarrow> 'ae cast_fn \<Rightarrow> (u64 \<Rightarrow> 'rng) \<Rightarrow> (nat \<Rightarrow> i64) \<Rightarrow>
   ('s, 'e, 'rng, (cached_batch, tick, 'ae) arrow_source, (cached_l3_batch, l3_update, 'ae) arrow_source,
    'ae tick_source_error) engine_env" where
  "arrow_env strat lm cast mk clock =
     \<lparr>en_strategy = strat, en_latency = lm, en_tick_ops = arrow_tick_ops cast,
      en_l3_ops = arrow_l3_ops cast, en_make_rng = mk, en_elapsed = clock\<rparr>"

text \<open>Every bounded strategy over the Arrow sources of the code makes a world whose runs end.\<close>

sublocale bounded_strategy \<subseteq>
  arrow_world: engine_world "arrow_env st lm cast mk clock" budget
    "source_holds (tick_format cast)" "source_holds (l3_format cast)"
  for lm :: "'rng latency_model" and cast :: "'ae cast_fn" and mk clock
  by (rule engine_world.intro)
    (simp_all add: arrow_env_def arrow_tick_ops_def arrow_l3_ops_def bounded_strategy_axioms
      arrow_rows.row_source_axioms)

interpretation sample_strategy: bounded_strategy "strategy_with_defaults buy_once ignore_report"
  "\<lambda>bought. if bought then 0 else 1"
  by (rule defaults_bounded)
    (auto simp: within_budget_def buy_once_def ignore_report_def cx_submit_order_def)

interpretation sample_world: engine_world sample_env "\<lambda>bought. if bought then 0 else 1" "(=)" "(=)"
  by (rule engine_world.intro)
    (simp_all add: sample_env_def sample_strategy.bounded_strategy_axioms list_rows.row_source_axioms)

text \<open>
  C1. A run always ends: with sources that hold finitely many rows and a strategy that keeps to
  any finite budget of commands, \<open>run\<close> returns, with a result or an error, from every state the
  engine can be set up in, in both modes, with every queue model and every latency.
\<close>

theorem engine_run_returns:
  assumes "engine_world env budget tick_rows l3_rows"
    and "list_all2 tick_rows (eg_sources g) tss" and "list_all2 l3_rows (eg_l3_sources g) lss"
    and "\<not> eg_is_source_heap_initialized g" and "\<not> eg_is_l3_source_heap_initialized g"
  shows "\<exists>r g'. engine_run env g = Some (r, g')"
proof -
  have "rows_left tick_rows l3_rows g (sum_list (map length tss) + sum_list (map length lss))"
    using assms(2,3) by (intro rows_leftI) auto
  moreover have "heap_ok g" using assms(4,5) by (simp add: heap_ok_def)
  ultimately show ?thesis using engine_world.run_returns [OF assms(1)] by fastforce
qed

theorem engine_run_returns_witness:
  "\<exists>r g'. engine_run sample_env sample_engine = Some (r, g')"
proof -
  have "list_all2 (=) (eg_sources sample_engine) [[sell_tick 100 0, sell_tick 110 1, sell_tick 120 2]] \<and>
      list_all2 (=) (eg_l3_sources sample_engine) []"
    by (simp add: sample_engine_def add_tick_source_def engine_new_def)
  moreover have "\<not> eg_is_source_heap_initialized sample_engine \<and> \<not> eg_is_l3_source_heap_initialized sample_engine"
    by (simp add: sample_engine_def add_tick_source_def engine_new_def)
  ultimately show ?thesis
    using engine_run_returns [OF sample_world.engine_world_axioms] by blast
qed

end
