(* ===== verification/EngineTime.thy ===== *)
theory EngineTime
  imports EngineRun
begin

text \<open>
  Simulated time only moves forward, and nothing reaches the strategy before its time. The
  ingestion loop merges the sources with the event queue: when it stops, every row still in a
  source is later than the next event, because each source's next row stands in the heap and each
  source is in ascending order. The handlers only schedule events from the present on, as the
  timed acts of theory \<open>EngineActs\<close> show.
\<close>

section \<open>The heap of sources\<close>

text \<open>Each source that has rows left has its next row in the heap.\<close>

definition heads_in_heap :: "('row \<Rightarrow> i64) \<Rightarrow> 'row list list \<Rightarrow> peeked_event list \<Rightarrow> bool" where
  "heads_in_heap ts rows heap \<longleftrightarrow>
     (\<forall>j row rest. j < length rows \<longrightarrow> rows ! j = row # rest \<longrightarrow>
        (\<exists>p\<in>set heap. pk_source_idx p = j \<and> pk_ts p = ts row))"

lemma mset_heap_drop: "heap_peek peeked_cmp h = Some p \<Longrightarrow> mset h = add_mset p (mset (heap_drop h))"
  by (auto simp: heap_drop_def heap_pop_def dest: heap_peek_in)

lemma heap_drop_other:
  assumes "heap_peek peeked_cmp h = Some p" and "q \<in> set h" and "q \<noteq> p"
  shows "q \<in> set (heap_drop h)"
proof -
  have "q \<in># add_mset p (mset (heap_drop h))"
    using assms(2) by (simp flip: mset_heap_drop [OF assms(1)])
  with assms(3) show ?thesis by simp
qed

lemma heads_after_take:
  assumes "heads_in_heap ts rows h" and "heap_peek peeked_cmp h = Some p" and "i = pk_source_idx p"
    and "set (heap_drop h) \<subseteq> set h2"
    and "\<And>row rest'. rest = row # rest' \<Longrightarrow> \<exists>q\<in>set h2. pk_source_idx q = i \<and> pk_ts q = ts row"
  shows "heads_in_heap ts (rows[i := rest]) h2"
  unfolding heads_in_heap_def
proof (intro allI impI)
  fix j row rest'
  assume j: "j < length (rows[i := rest])" "rows[i := rest] ! j = row # rest'"
  show "\<exists>q\<in>set h2. pk_source_idx q = j \<and> pk_ts q = ts row"
  proof (cases "j = i")
    case True
    with j assms(5) show ?thesis by simp
  next
    case False
    with j assms(1) obtain q where q: "q \<in> set h" "pk_source_idx q = j" "pk_ts q = ts row"
      by (auto simp: heads_in_heap_def)
    with False assms(3) have "q \<noteq> p" by auto
    from heap_drop_other [OF assms(2) q(1) this] assms(4) q(2,3) show ?thesis by blast
  qed
qed

text \<open>Rows in ascending order, none of them before a time.\<close>

definition rows_from :: "('row \<Rightarrow> i64) \<Rightarrow> i64 \<Rightarrow> 'row list list \<Rightarrow> bool" where
  "rows_from ts n rows \<longleftrightarrow> (\<forall>rs\<in>set rows. sorted (map ts rs) \<and> (\<forall>r\<in>set rs. n \<le> ts r))"

lemma rows_from_take: "rows_from ts n rows \<Longrightarrow> i < length rows \<Longrightarrow> rows_from ts n (rows[i := tl (rows ! i)])"
proof (unfold rows_from_def, intro ballI, goal_cases)
  case (1 rs)
  from 1(3) have "rs \<in> set rows \<or> rs = tl (rows ! i)" by (auto dest: set_update_subset_insert [THEN subsetD])
  moreover have "rows ! i \<in> set rows" using 1(2) by simp
  with 1(1) have ok: "sorted (map ts (rows ! i))" "\<forall>r\<in>set (rows ! i). n \<le> ts r" by auto
  have "sorted (map ts (tl (rows ! i))) \<and> (\<forall>r\<in>set (tl (rows ! i)). n \<le> ts r)"
    using ok by (cases "rows ! i") auto
  ultimately show ?case using 1(1) by blast
qed

text \<open>When the least head is later than a time, every row is.\<close>

lemma heads_ahead:
  assumes heads: "heads_in_heap ts rows h" and sorted: "rows_from ts n0 rows"
    and late: "\<And>p. heap_peek peeked_cmp h = Some p \<Longrightarrow> n \<le> pk_ts p"
  shows "rows_from ts n rows"
proof -
  have "n \<le> ts r" if rs: "rs \<in> set rows" and r: "r \<in> set rs" for rs r
  proof -
    from rs obtain j where j: "j < length rows" "rows ! j = rs" by (auto simp: in_set_conv_nth)
    from r obtain row rest where row: "rs = row # rest" by (cases rs) auto
    with heads j obtain q where q: "q \<in> set h" "pk_ts q = ts row" by (auto simp: heads_in_heap_def)
    then obtain p where p: "heap_peek peeked_cmp h = Some p"
      by (cases "heap_peek peeked_cmp h") auto
    have "pk_ts p \<le> pk_ts q" using source_heap_least [OF p q(1)] by (auto simp: peeked_le_def)
    with late [OF p] q(2) have "n \<le> ts row" by simp
    moreover have "ts row \<le> ts r" using sorted rs r row by (auto simp: rows_from_def)
    ultimately show ?thesis by simp
  qed
  with sorted show ?thesis by (auto simp: rows_from_def)
qed

context row_source begin

lemma peek_all_heads:
  "list_all2 holds srcs rows \<Longrightarrow> so_peek ops = peek \<Longrightarrow> peek_all ops key i srcs heap = (r, srcs', heap') \<Longrightarrow>
     set heap \<subseteq> set heap' \<and>
     (\<forall>j row rest. j < length rows \<longrightarrow> rows ! j = row # rest \<longrightarrow>
        (\<exists>p\<in>set heap'. pk_source_idx p = i + j \<and> pk_ts p = fst (key row)))"
proof (induction srcs arbitrary: rows i heap r srcs' heap')
  case (Cons src srcs)
  then obtain rs rows' where rows: "rows = rs # rows'" "holds src rs" "list_all2 holds srcs rows'"
    by (cases rows) auto
  obtain src1 where peek: "peek src = (Inr (first rs), src1)" using peek_holds [OF rows(2)] by blast
  define heap1 where "heap1 = (case first rs of
      None \<Rightarrow> heap
    | Some r \<Rightarrow> heap_push \<lparr>pk_ts = fst (key r), pk_seq = snd (key r), pk_source_idx = i\<rparr> heap)"
  obtain r2 srcs2 heap2 where 2: "peek_all ops key (Suc i) srcs heap1 = (r2, srcs2, heap2)"
    by (rule prod_cases3)
  have heap': "heap' = heap2" using Cons.prems(2,3) peek 2 by (simp add: heap1_def [symmetric])
  note ih = Cons.IH [OF rows(3) Cons.prems(2) 2]
  have heap1: "set heap \<subseteq> set heap1" by (auto simp: heap1_def heap_push_def split: option.splits)
  have "\<exists>p\<in>set heap2. pk_source_idx p = i + j \<and> pk_ts p = fst (key row)"
    if j: "j < length rows" "rows ! j = row # rest" for j row rest
  proof (cases j)
    case 0
    with j rows(1) have "\<lparr>pk_ts = fst (key row), pk_seq = snd (key row), pk_source_idx = i\<rparr> \<in> set heap1"
      by (auto simp: heap1_def heap_push_def)
    with ih have "\<lparr>pk_ts = fst (key row), pk_seq = snd (key row), pk_source_idx = i\<rparr> \<in> set heap2" by blast
    with 0 show ?thesis by (intro bexI) auto
  next
    case (Suc k)
    with j rows(1) have "k < length rows'" "rows' ! k = row # rest" by auto
    with ih have "\<exists>p\<in>set heap2. pk_source_idx p = Suc i + k \<and> pk_ts p = fst (key row)" by blast
    with Suc show ?thesis by simp
  qed
  with ih heap1 heap' show ?case by blast
qed auto

lemma take_row:
  assumes "list_all2 holds srcs rows" and "i < length srcs" and "next (srcs ! i) = (r, src)"
  shows "r = Inr (first (rows ! i))" and "list_all2 holds (srcs[i := src]) (rows[i := tl (rows ! i)])"
proof -
  have h: "holds (srcs ! i) (rows ! i)" using assms(1,2) by (rule list_all2_nthD)
  obtain s' where n: "next (srcs ! i) = (Inr (first (rows ! i)), s')" "holds s' (tl (rows ! i))"
    using next_holds [OF h] by blast
  with assms(3) show "r = Inr (first (rows ! i))" by simp
  from n assms show "list_all2 holds (srcs[i := src]) (rows[i := tl (rows ! i)])"
    by (intro list_all2_update_cong) auto
qed

lemma look_row:
  assumes "list_all2 holds srcs rows" and "i < length srcs" and "peek (srcs ! i) = (r, src)"
  shows "r = Inr (first (rows ! i))" and "list_all2 holds (srcs[i := src]) rows"
proof -
  have h: "holds (srcs ! i) (rows ! i)" using assms(1,2) by (rule list_all2_nthD)
  obtain s' where n: "peek (srcs ! i) = (Inr (first (rows ! i)), s')" "holds s' (rows ! i)"
    using peek_holds [OF h] by blast
  with assms(3) show "r = Inr (first (rows ! i))" by simp
  have "list_all2 holds (srcs[i := src]) (rows[i := rows ! i])"
    using assms n by (intro list_all2_update_cong) auto
  then show "list_all2 holds (srcs[i := src]) rows" by simp
qed

end

section \<open>The invariant\<close>

text \<open>
  A tick that the feed may deliver: its times do not overflow and it is not received before it
  happened. A local time of 0 stands for a missing one.
\<close>

definition tick_sane :: "tick \<Rightarrow> bool" where
  "tick_sane t \<longleftrightarrow>
     in_i64 (tk_ts_exchange t) \<and> tk_ts_exchange t \<le> max_delay \<and>
     (tk_ts_local t = 0 \<or> tk_ts_exchange t \<le> tk_ts_local t)"

definition queue_in_time :: "('st, 's, 'rng, 'src, 'l3) engine \<Rightarrow> bool" where
  "queue_in_time g \<longleftrightarrow> (\<forall>ev\<in>#eq_events (eg_queue g). eg_now_ts_sim g \<le> ts_sim ev \<and> event_ok ev)"

text \<open>Every tick the strategy can see has happened and has been received.\<close>

definition known_in_time :: "('st, 's, 'rng, 'src, 'l3) engine \<Rightarrow> bool" where
  "known_in_time g \<longleftrightarrow>
     (\<forall>t\<in>set (eg_tick_buffer g). tick_known g t) \<and>
     (\<forall>i t. last_trade (eg_market g) i = Some t \<longrightarrow> tick_known g t)"

definition rows_in_time ::
  "('st, 's, 'rng, 'src, 'l3) engine \<Rightarrow> tick list list \<Rightarrow> l3_update list list \<Rightarrow> bool" where
  "rows_in_time g tss lss \<longleftrightarrow>
     (\<forall>ts\<in>set tss. \<forall>t\<in>set ts. tick_sane t) \<and>
     rows_from tk_ts_exchange (eg_now_ts_sim g) tss \<and> rows_from l3_ts_exchange (eg_now_ts_sim g) lss"

definition heads_ok ::
  "('st, 's, 'rng, 'src, 'l3) engine \<Rightarrow> tick list list \<Rightarrow> l3_update list list \<Rightarrow> bool" where
  "heads_ok g tss lss \<longleftrightarrow>
     (eg_is_source_heap_initialized g \<longrightarrow> heads_in_heap tk_ts_exchange tss (eg_source_heap g)) \<and>
     (eg_is_l3_source_heap_initialized g \<longrightarrow> heads_in_heap l3_ts_exchange lss (eg_l3_source_heap g))"

definition time_inv ::
  "('src \<Rightarrow> tick list \<Rightarrow> bool) \<Rightarrow> ('l3 \<Rightarrow> l3_update list \<Rightarrow> bool) \<Rightarrow>
   ('st, 's, 'rng, 'src, 'l3) engine \<Rightarrow> tick list list \<Rightarrow> l3_update list list \<Rightarrow> bool" where
  "time_inv tick_rows l3_rows g tss lss \<longleftrightarrow>
     timely g \<and> queue_in_time g \<and> known_in_time g \<and> rows_in_time g tss lss \<and>
     list_all2 tick_rows (eg_sources g) tss \<and> list_all2 l3_rows (eg_l3_sources g) lss \<and>
     heap_ok g \<and> heads_ok g tss lss"

lemma queue_in_time_push:
  "queue_in_time g \<Longrightarrow> eg_now_ts_sim g \<le> ts \<Longrightarrow> event_ok \<lparr>ev_id = EventId ts (eg_next_event_seq g), ev_kind = k\<rparr> \<Longrightarrow>
     queue_in_time (push_event ts k g)"
  by (auto simp: queue_in_time_def ts_sim_def)

lemma heap_ok_push:
  "heap_ok g \<Longrightarrow> i < length (eg_sources g) \<Longrightarrow> heap_ok (g\<lparr>eg_sources := (eg_sources g)[i := x],
     eg_source_heap := (case n of None \<Rightarrow> eg_source_heap g | Some row \<Rightarrow>
        heap_push \<lparr>pk_ts = f row, pk_seq = k row, pk_source_idx = i\<rparr> (eg_source_heap g))\<rparr>)"
  "heap_ok g \<Longrightarrow> j < length (eg_l3_sources g) \<Longrightarrow> heap_ok (g\<lparr>eg_l3_sources := (eg_l3_sources g)[j := y],
     eg_l3_source_heap := (case m of None \<Rightarrow> eg_l3_source_heap g | Some row \<Rightarrow>
        heap_push \<lparr>pk_ts = f' row, pk_seq = k' row, pk_source_idx = j\<rparr> (eg_l3_source_heap g))\<rparr>)"
  by (auto simp: heap_ok_def heap_push_def split: option.split)

text \<open>The two events of a tick are in time.\<close>

lemma delivery_time:
  assumes "tick_sane t" and "timely g" and "d = (if tk_ts_local t = 0
      then add_i64 (tk_ts_exchange t) (cf_feed_latency_ns (eg_config g)) else tk_ts_local t)"
  shows "tk_ts_exchange t \<le> d"
  using assms by (auto simp: tick_sane_def timely_def add_i64_exact in_i64_def)

lemma schedule_tick_in_time:
  assumes "queue_in_time g" and "tick_sane t" and "timely g" and "eg_now_ts_sim g \<le> tk_ts_exchange t"
  shows "queue_in_time (schedule_tick t g)"
proof -
  define d where "d = (if tk_ts_local t = 0
      then add_i64 (tk_ts_exchange t) (cf_feed_latency_ns (eg_config g)) else tk_ts_local t)"
  have d: "tk_ts_exchange t \<le> d" using assms(2,3) d_def by (rule delivery_time)
  have "queue_in_time (push_event (tk_ts_exchange t) (TickEvent t) g)"
    using assms(1,4) by (intro queue_in_time_push) (auto simp: event_ok_def ts_sim_def)
  then have "queue_in_time (push_event d (TickDelivery (t\<lparr>tk_ts_local := d\<rparr>))
      (push_event (tk_ts_exchange t) (TickEvent t) g))"
    by (rule queue_in_time_push) (use assms(4) d in \<open>auto simp: event_ok_def ts_sim_def\<close>)
  then show ?thesis unfolding schedule_tick_def Let_def d_def .
qed

lemma known_in_time_later:
  "known_in_time g \<Longrightarrow> eg_tick_buffer g' = eg_tick_buffer g \<Longrightarrow> eg_market g' = eg_market g \<Longrightarrow>
     eg_now_ts_sim g \<le> eg_now_ts_sim g' \<Longrightarrow> known_in_time g'"
  by (fastforce simp: known_in_time_def tick_known_def)

section \<open>Ingestion keeps it\<close>

lemma books_same_inv:
  assumes "books_same g g'"
  shows "timely g' = timely g" and "known_in_time g \<Longrightarrow> known_in_time g'"
    and "rows_in_time g' tss lss = rows_in_time g tss lss" and "eg_now_ts_sim g' = eg_now_ts_sim g"
  using assms by (auto simp: books_same_def timely_def rows_in_time_def intro: known_in_time_later)

lemma all_rows_take:
  assumes "\<forall>rs\<in>set rows. \<forall>r\<in>set rs. P r" and "i < length rows"
  shows "\<forall>rs\<in>set (rows[i := tl (rows ! i)]). \<forall>r\<in>set rs. P r"
proof (intro ballI)
  fix rs r
  assume "rs \<in> set (rows[i := tl (rows ! i)])" and r: "r \<in> set rs"
  then have "rs \<in> set rows \<or> rs = tl (rows ! i)" by (auto dest: set_update_subset_insert [THEN subsetD])
  moreover have "rows ! i \<in> set rows" using assms(2) by simp
  moreover have "r \<in> set (rows ! i)" if "rs = tl (rows ! i)" using r that by (cases "rows ! i") auto
  ultimately show "P r" using assms(1) r by blast
qed

lemma rows_in_time_take:
  "rows_in_time g tss lss \<Longrightarrow> i < length tss \<Longrightarrow> rows_in_time g (tss[i := tl (tss ! i)]) lss"
  "rows_in_time g tss lss \<Longrightarrow> j < length lss \<Longrightarrow> rows_in_time g tss (lss[j := tl (lss ! j)])"
  unfolding rows_in_time_def
  using all_rows_take [of tss tick_sane i] rows_from_take [of tk_ts_exchange _ tss i]
    rows_from_take [of l3_ts_exchange _ lss j]
  by blast+

locale sourced_engine =
  fixes env :: "('s, 'e, 'rng, 'src, 'l3, 'te) engine_env"
    and tick_rows :: "'src \<Rightarrow> tick list \<Rightarrow> bool"
    and l3_rows :: "'l3 \<Rightarrow> l3_update list \<Rightarrow> bool"
  assumes tick_law: "row_source (so_peek (en_tick_ops env)) (so_next (en_tick_ops env)) tick_rows"
    and l3_law: "row_source (so_peek (en_l3_ops env)) (so_next (en_l3_ops env)) l3_rows"
begin

abbreviation "in_time \<equiv> time_inv tick_rows l3_rows"

lemma init_source_heap_inv:
  assumes "init_source_heap env g = (r, g')" and "in_time g tss lss"
  shows "r = Inr () \<and> in_time g' tss lss \<and> eg_is_source_heap_initialized g'"
proof (cases "eg_is_source_heap_initialized g")
  case False
  have h: "list_all2 tick_rows (eg_sources g) tss" using assms(2) by (simp add: time_inv_def)
  obtain r1 srcs heap where p: "peek_all (en_tick_ops env) tick_key 0 (eg_sources g) [] = (r1, srcs, heap)"
    by (rule prod_cases3)
  from row_source.peek_all_holds [OF tick_law h refl p]
  have 1: "r1 = Inr ()" "list_all2 tick_rows srcs tss" "\<forall>q\<in>set heap. pk_source_idx q < length (eg_sources g)"
    by auto
  from row_source.peek_all_heads [OF tick_law h refl p]
  have 2: "heads_in_heap tk_ts_exchange tss heap" by (simp add: heads_in_heap_def tick_key_def)
  have len: "length srcs = length (eg_sources g)" using 1(2) h by (auto dest!: list_all2_lengthD)
  have g': "g' = g\<lparr>eg_sources := srcs, eg_source_heap := heap, eg_is_source_heap_initialized := True\<rparr>"
    and r: "r = Inr ()"
    using assms(1) False p 1(1) by (auto simp: init_source_heap_def)
  have "books_same g g'" using assms(1) by (rule init_source_heap_same)
  note same = books_same_inv [OF this]
  show ?thesis
    using assms(2) 1 2 len r same(1) same(2) same(3) [of tss lss]
    by (simp add: time_inv_def heap_ok_def heads_ok_def queue_in_time_def g')
qed (use assms in \<open>simp add: init_source_heap_def\<close>)

lemma init_l3_source_heap_inv:
  assumes "init_l3_source_heap env g = (r, g')" and "in_time g tss lss"
  shows "r = Inr () \<and> in_time g' tss lss \<and> eg_is_l3_source_heap_initialized g' \<and>
    eg_is_source_heap_initialized g' = eg_is_source_heap_initialized g"
proof (cases "eg_is_l3_source_heap_initialized g")
  case False
  have h: "list_all2 l3_rows (eg_l3_sources g) lss" using assms(2) by (simp add: time_inv_def)
  obtain r1 srcs heap where p: "peek_all (en_l3_ops env) l3_key 0 (eg_l3_sources g) [] = (r1, srcs, heap)"
    by (rule prod_cases3)
  from row_source.peek_all_holds [OF l3_law h refl p]
  have 1: "r1 = Inr ()" "list_all2 l3_rows srcs lss" "\<forall>q\<in>set heap. pk_source_idx q < length (eg_l3_sources g)"
    by auto
  from row_source.peek_all_heads [OF l3_law h refl p]
  have 2: "heads_in_heap l3_ts_exchange lss heap" by (simp add: heads_in_heap_def l3_key_def)
  have len: "length srcs = length (eg_l3_sources g)" using 1(2) h by (auto dest!: list_all2_lengthD)
  have g': "g' = g\<lparr>eg_l3_sources := srcs, eg_l3_source_heap := heap, eg_is_l3_source_heap_initialized := True\<rparr>"
    and r: "r = Inr ()"
    using assms(1) False p 1(1) by (auto simp: init_l3_source_heap_def)
  have "books_same g g'" using assms(1) by (rule init_l3_source_heap_same)
  note same = books_same_inv [OF this]
  show ?thesis
    using assms(2) 1 2 len r same(1) same(2) same(3) [of tss lss]
    by (simp add: time_inv_def heap_ok_def heads_ok_def queue_in_time_def g')
qed (use assms in \<open>simp add: init_l3_source_heap_def\<close>)

lemma ingest_tick_inv:
  assumes "ingest_tick env i g = (r, g')" and "in_time g tss lss" and "eg_is_source_heap_initialized g"
    and head: "heap_peek peeked_cmp (eg_source_heap g) = Some p" "i = pk_source_idx p"
  shows "in_time g' (tss[i := tl (tss ! i)]) lss"
proof -
  let ?ops = "en_tick_ops env" and ?tss = "tss[i := tl (tss ! i)]"
  have h: "list_all2 tick_rows (eg_sources g) tss" and ok: "heap_ok g"
    and heads: "heads_in_heap tk_ts_exchange tss (eg_source_heap g)"
    using assms(2,3) by (simp_all add: time_inv_def heads_ok_def)
  have i: "i < length (eg_sources g)" using ok assms(3) head by (auto simp: heap_ok_def dest: heap_peek_in)
  have len: "length tss = length (eg_sources g)" using h by (simp add: list_all2_lengthD)
  obtain row src where nx: "so_next ?ops (eg_sources g ! i) = (row, src)" by (cases "so_next ?ops (eg_sources g ! i)") auto
  note take = row_source.take_row [OF tick_law h i nx]
  define g2 where "g2 = g\<lparr>eg_source_heap := heap_drop (eg_source_heap g), eg_sources := (eg_sources g)[i := src]\<rparr>"
  have "books_same g g'" using ingest_tick_same [of g env i] assms(1) by simp
  note same = books_same_inv [OF this]
  have rest: "timely g'" "known_in_time g'" "rows_in_time g' ?tss lss"
    using assms(2) same(1,2) same(3) [of ?tss lss] rows_in_time_take(1) [of g tss lss i] i len
    by (simp_all add: time_inv_def)
  have l3: "list_all2 l3_rows (eg_l3_sources g) lss"
    "eg_is_l3_source_heap_initialized g \<Longrightarrow> heads_in_heap l3_ts_exchange lss (eg_l3_source_heap g)"
    using assms(2) by (simp_all add: time_inv_def heads_ok_def)
  have ok2: "heap_ok g2" unfolding g2_def using ok by (rule heap_ok_drop)
  show ?thesis
  proof (cases "tss ! i")
    case Nil
    with assms(1) nx take(1) have g': "g' = g2" by (auto simp: ingest_tick_def Let_def g2_def)
    have "heads_in_heap tk_ts_exchange ?tss (heap_drop (eg_source_heap g))"
      using heads head by (rule heads_after_take) (use Nil in simp_all)
    then show ?thesis
      using rest assms(2,3) take(2) ok2 l3 by (simp add: time_inv_def g' heads_ok_def queue_in_time_def) (simp add: g2_def)
  next
    case (Cons t ts)
    define g3 where "g3 = schedule_tick t g2"
    have sane: "tick_sane t" "eg_now_ts_sim g \<le> tk_ts_exchange t"
    proof -
      have "tss ! i \<in> set tss" using i len by simp
      moreover have "t \<in> set (tss ! i)" using Cons by simp
      ultimately show "tick_sane t" "eg_now_ts_sim g \<le> tk_ts_exchange t"
        using assms(2) by (auto simp: time_inv_def rows_in_time_def rows_from_def)
    qed
    have q2: "queue_in_time g2" "timely g2"
      using assms(2) by (simp_all add: time_inv_def queue_in_time_def timely_def g2_def)
    have q3: "queue_in_time g3" unfolding g3_def
      by (rule schedule_tick_in_time [OF q2(1) sane(1) q2(2)]) (use sane(2) in \<open>simp add: g2_def\<close>)
    have h3: "list_all2 tick_rows (eg_sources g3) ?tss" using take(2) by (simp add: g3_def g2_def)
    have len3: "i < length (eg_sources g3)" using i by (simp add: g3_def g2_def)
    obtain pr src' where pk: "so_peek ?ops (eg_sources g3 ! i) = (pr, src')"
      by (cases "so_peek ?ops (eg_sources g3 ! i)") auto
    note look = row_source.look_row [OF tick_law h3 len3 pk]
    define heap where "heap = (case first ts of None \<Rightarrow> eg_source_heap g3 | Some n' \<Rightarrow>
        heap_push \<lparr>pk_ts = tk_ts_exchange n', pk_seq = tk_seq n', pk_source_idx = i\<rparr> (eg_source_heap g3))"
    define g5 where "g5 = g3\<lparr>eg_sources := (eg_sources g3)[i := src'], eg_source_heap := heap\<rparr>"
    have pr: "pr = Inr (first ts)" using look(1) Cons i len by simp
    have row: "row = Inr (Some t)" using take(1) Cons by simp
    have g5: "g5 = g3\<lparr>eg_sources := (eg_sources g3)[i := src']\<rparr>" if "first ts = None"
      using that by (cases g3) (simp add: g5_def heap_def)
    have g': "g' = g5"
    proof (cases "first ts")
      case None
      with assms(1) nx row pk pr show ?thesis
        unfolding g5 [OF None] by (simp add: ingest_tick_def Let_def g2_def g3_def)
    next
      case (Some n)
      with assms(1) nx row pk pr show ?thesis
        by (simp add: ingest_tick_def Let_def g2_def g3_def g5_def heap_def)
    qed
    have ok3: "heap_ok g3" using ok2 by (simp add: heap_ok_def g3_def)
    have ok5: "heap_ok g5" unfolding g5_def heap_def using ok3 len3 by (rule heap_ok_push)
    have sub: "set (heap_drop (eg_source_heap g)) \<subseteq> set heap"
      by (auto simp: heap_def heap_push_def g3_def g2_def split: option.splits)
    have new: "\<exists>q\<in>set heap. pk_source_idx q = i \<and> pk_ts q = tk_ts_exchange row"
      if "tl (tss ! i) = row # rest'" for row rest'
      using that Cons by (simp add: heap_def heap_push_def)
    have "heads_in_heap tk_ts_exchange ?tss heap"
      using heads head sub new by (rule heads_after_take)
    then show ?thesis
      using rest q3 look(2) ok5 l3
      by (simp add: time_inv_def g' heads_ok_def queue_in_time_def) (simp add: g5_def g3_def g2_def)
  qed
qed

lemma ingest_l3_inv:
  assumes "ingest_l3 env i g = (r, g')" and "in_time g tss lss" and "eg_is_l3_source_heap_initialized g"
    and head: "heap_peek peeked_cmp (eg_l3_source_heap g) = Some p" "i = pk_source_idx p"
  shows "in_time g' tss (lss[i := tl (lss ! i)])"
proof -
  let ?ops = "en_l3_ops env" and ?lss = "lss[i := tl (lss ! i)]"
  have h: "list_all2 l3_rows (eg_l3_sources g) lss" and ok: "heap_ok g"
    and heads: "heads_in_heap l3_ts_exchange lss (eg_l3_source_heap g)"
    using assms(2,3) by (simp_all add: time_inv_def heads_ok_def)
  have i: "i < length (eg_l3_sources g)" using ok assms(3) head by (auto simp: heap_ok_def dest: heap_peek_in)
  have len: "length lss = length (eg_l3_sources g)" using h by (simp add: list_all2_lengthD)
  obtain row src where nx: "so_next ?ops (eg_l3_sources g ! i) = (row, src)" by (cases "so_next ?ops (eg_l3_sources g ! i)") auto
  note take = row_source.take_row [OF l3_law h i nx]
  define g2 where "g2 = g\<lparr>eg_l3_source_heap := heap_drop (eg_l3_source_heap g), eg_l3_sources := (eg_l3_sources g)[i := src]\<rparr>"
  have "books_same g g'" using ingest_l3_same [of g env i] assms(1) by simp
  note same = books_same_inv [OF this]
  have rest: "timely g'" "known_in_time g'" "rows_in_time g' tss ?lss"
    using assms(2) same(1,2) same(3) [of tss ?lss] rows_in_time_take(2) [of g tss lss i] i len
    by (simp_all add: time_inv_def)
  have ticks: "list_all2 tick_rows (eg_sources g) tss"
    "eg_is_source_heap_initialized g \<Longrightarrow> heads_in_heap tk_ts_exchange tss (eg_source_heap g)"
    using assms(2) by (simp_all add: time_inv_def heads_ok_def)
  have ok2: "heap_ok g2" unfolding g2_def using ok by (rule heap_ok_drop)
  show ?thesis
  proof (cases "lss ! i")
    case Nil
    with assms(1) nx take(1) have g': "g' = g2" by (auto simp: ingest_l3_def Let_def g2_def)
    have "heads_in_heap l3_ts_exchange ?lss (heap_drop (eg_l3_source_heap g))"
      using heads head by (rule heads_after_take) (use Nil in simp_all)
    then show ?thesis
      using rest assms(2,3) take(2) ok2 ticks by (simp add: time_inv_def g' heads_ok_def queue_in_time_def) (simp add: g2_def)
  next
    case (Cons u us)
    define g3 where "g3 = push_event (l3_ts_exchange u) (L3UpdateEvent u) g2"
    have late: "eg_now_ts_sim g \<le> l3_ts_exchange u"
    proof -
      have "lss ! i \<in> set lss" using i len by simp
      moreover have "u \<in> set (lss ! i)" using Cons by simp
      ultimately show ?thesis using assms(2) by (auto simp: time_inv_def rows_in_time_def rows_from_def)
    qed
    have q2: "queue_in_time g2" using assms(2) by (simp add: time_inv_def queue_in_time_def g2_def)
    have q3: "queue_in_time g3" unfolding g3_def
      by (rule queue_in_time_push [OF q2]) (use late in \<open>simp_all add: g2_def event_ok_def\<close>)
    have h3: "list_all2 l3_rows (eg_l3_sources g3) ?lss" using take(2) by (simp add: g3_def g2_def)
    have len3: "i < length (eg_l3_sources g3)" using i by (simp add: g3_def g2_def)
    obtain pr src' where pk: "so_peek ?ops (eg_l3_sources g3 ! i) = (pr, src')"
      by (cases "so_peek ?ops (eg_l3_sources g3 ! i)") auto
    note look = row_source.look_row [OF l3_law h3 len3 pk]
    define heap where "heap = (case first us of None \<Rightarrow> eg_l3_source_heap g3 | Some n' \<Rightarrow>
        heap_push \<lparr>pk_ts = l3_ts_exchange n', pk_seq = l3_seq n', pk_source_idx = i\<rparr> (eg_l3_source_heap g3))"
    define g5 where "g5 = g3\<lparr>eg_l3_sources := (eg_l3_sources g3)[i := src'], eg_l3_source_heap := heap\<rparr>"
    have pr: "pr = Inr (first us)" using look(1) Cons i len by simp
    have row: "row = Inr (Some u)" using take(1) Cons by simp
    have g5: "g5 = g3\<lparr>eg_l3_sources := (eg_l3_sources g3)[i := src']\<rparr>" if "first us = None"
      using that by (cases g3) (simp add: g5_def heap_def)
    have g': "g' = g5"
    proof (cases "first us")
      case None
      with assms(1) nx row pk pr show ?thesis
        unfolding g5 [OF None] by (simp add: ingest_l3_def Let_def g2_def g3_def)
    next
      case (Some n)
      with assms(1) nx row pk pr show ?thesis
        by (simp add: ingest_l3_def Let_def g2_def g3_def g5_def heap_def)
    qed
    have ok3: "heap_ok g3" using ok2 by (simp add: heap_ok_def g3_def)
    have ok5: "heap_ok g5" unfolding g5_def heap_def using ok3 len3 by (rule heap_ok_push)
    have sub: "set (heap_drop (eg_l3_source_heap g)) \<subseteq> set heap"
      by (auto simp: heap_def heap_push_def g3_def g2_def split: option.splits)
    have new: "\<exists>q\<in>set heap. pk_source_idx q = i \<and> pk_ts q = l3_ts_exchange row"
      if "tl (lss ! i) = row # rest'" for row rest'
      using that Cons by (simp add: heap_def heap_push_def)
    have "heads_in_heap l3_ts_exchange ?lss heap"
      using heads head sub new by (rule heads_after_take)
    then show ?thesis
      using rest q3 look(2) ok5 ticks
      by (simp add: time_inv_def g' heads_ok_def queue_in_time_def) (simp add: g5_def g3_def g2_def)
  qed
qed

text \<open>One round of the loop, and the state in which it stops.\<close>

lemma due_heads:
  "due_source g = DueTick i \<Longrightarrow> \<exists>p. heap_peek peeked_cmp (eg_source_heap g) = Some p \<and> i = pk_source_idx p"
  "due_source g = DueL3 i \<Longrightarrow> \<exists>p. heap_peek peeked_cmp (eg_l3_source_heap g) = Some p \<and> i = pk_source_idx p"
  by (auto simp: due_source_def due_tick_def split: option.splits if_splits)

lemma ingest_round_inv:
  assumes "ingest_round env g = (r, g')" and "in_time g tss lss"
  shows "(\<exists>tss lss. in_time g' tss lss) \<and>
    (r = Inr False \<longrightarrow> eg_is_source_heap_initialized g' \<and> eg_is_l3_source_heap_initialized g' \<and> due_source g' = NotDue)"
proof -
  obtain r1 g1 where 1: "init_source_heap env g = (r1, g1)" by (cases "init_source_heap env g") auto
  note i1 = init_source_heap_inv [OF 1 assms(2)]
  obtain r2 g2 where 2: "init_l3_source_heap env g1 = (r2, g2)" by (cases "init_l3_source_heap env g1") auto
  note i2 = init_l3_source_heap_inv [OF 2 conjunct1 [OF conjunct2 [OF i1]]]
  have never: "map_sum id (\<lambda>_. True) x \<noteq> (Inr False :: ('te, 'e) engine_error + bool)" for x :: "('te, 'e) engine_error + unit"
    by (cases x) auto
  show ?thesis
  proof (cases "due_source g2")
    case (DueL3 i)
    obtain r3 g3 where 3: "ingest_l3 env i g2 = (r3, g3)" by (cases "ingest_l3 env i g2") auto
    from due_heads(2) [OF DueL3] obtain p where "heap_peek peeked_cmp (eg_l3_source_heap g2) = Some p" "i = pk_source_idx p" by blast
    with i2 have "in_time g3 tss (lss[i := tl (lss ! i)])" using ingest_l3_inv [OF 3] by blast
    with assms(1) 1 2 3 i1 i2 DueL3 never [of r3] show ?thesis by (auto simp: ingest_round_def)
  next
    case (DueTick i)
    obtain r3 g3 where 3: "ingest_tick env i g2 = (r3, g3)" by (cases "ingest_tick env i g2") auto
    from due_heads(1) [OF DueTick] obtain p where "heap_peek peeked_cmp (eg_source_heap g2) = Some p" "i = pk_source_idx p" by blast
    with i1 i2 have "in_time g3 (tss[i := tl (tss ! i)]) lss" using ingest_tick_inv [OF 3] by simp
    with assms(1) 1 2 3 i1 i2 DueTick never [of r3] show ?thesis by (auto simp: ingest_round_def)
  next
    case NotDue
    with assms(1) 1 2 i1 i2 show ?thesis by (auto simp: ingest_round_def)
  qed
qed

lemma ingest_inv:
  assumes "ingest env g = Some (r, g')" and "\<exists>tss lss. in_time g tss lss"
  shows "(\<exists>tss lss. in_time g' tss lss) \<and>
    (\<forall>u. r = Inr u \<longrightarrow>
       eg_is_source_heap_initialized g' \<and> eg_is_l3_source_heap_initialized g' \<and> due_source g' = NotDue)"
  using ingest_rule [where I = "\<lambda>g. \<exists>tss lss. in_time g tss lss", OF assms] ingest_round_inv by blast

section \<open>A step\<close>

text \<open>When ingestion has stopped, no row is earlier than the next event.\<close>

lemma not_due_heads:
  assumes "due_source g = NotDue"
  shows "heap_peek peeked_cmp (eg_source_heap g) = Some p \<Longrightarrow> next_queue_ts g \<le> pk_ts p"
    and "heap_peek peeked_cmp (eg_l3_source_heap g) = Some q \<Longrightarrow> next_queue_ts g \<le> pk_ts q"
  using assms by (auto simp: due_source_def due_tick_def l3_is_next_source_def split: option.splits if_splits)

lemma popped_in_time:
  assumes inv: "in_time g tss lss" and init: "eg_is_source_heap_initialized g" "eg_is_l3_source_heap_initialized g"
    and "due_source g = NotDue" and pop: "eq_pop (eg_queue g) = Some (ev, q)" and "ts_sim ev \<le> max_delay"
  shows "in_time (g\<lparr>eg_queue := q, eg_now_ts_sim := ts_sim ev\<rparr>) tss lss \<and> eg_now_ts_sim g \<le> ts_sim ev \<and> event_ok ev"
proof -
  let ?g1 = "g\<lparr>eg_queue := q, eg_now_ts_sim := ts_sim ev\<rparr>"
  have queue: "eq_events (eg_queue g) = add_mset ev (eq_events q)" using pop by (rule eq_pop_events)
  with inv have later: "eg_now_ts_sim g \<le> ts_sim ev" and ok: "event_ok ev"
    by (simp_all add: time_inv_def queue_in_time_def)
  have q: "queue_in_time ?g1"
    using inv queue event_id_le_ts [OF eq_pop_least [OF pop]]
    by (simp add: time_inv_def queue_in_time_def ts_sim_def)
  have "timely ?g1" using inv later assms(6) by (simp add: time_inv_def timely_def in_i64_def)
  moreover have "known_in_time ?g1"
  proof (rule known_in_time_later)
    show "known_in_time g" using inv by (simp add: time_inv_def)
  qed (use later in simp_all)
  moreover have "rows_in_time ?g1 tss lss"
  proof -
    have head: "next_queue_ts g = ts_sim ev"
      using pop by (simp add: next_queue_ts_def eventq.pop_peek)
    have "rows_from tk_ts_exchange (ts_sim ev) tss"
      using inv init not_due_heads(1) [OF assms(4)] unfolding head time_inv_def heads_ok_def rows_in_time_def
      by (blast intro: heads_ahead)
    moreover have "rows_from l3_ts_exchange (ts_sim ev) lss"
      using inv init not_due_heads(2) [OF assms(4)] unfolding head time_inv_def heads_ok_def rows_in_time_def
      by (blast intro: heads_ahead)
    ultimately show ?thesis using inv by (simp add: rows_in_time_def time_inv_def)
  qed
  ultimately show ?thesis
    using inv q later ok by (simp add: time_inv_def heap_ok_def heads_ok_def)
qed

lemma act_in_time:
  assumes "engine_act True g g'" and "in_time g tss lss"
  shows "in_time g' tss lss"
proof -
  have now: "eg_now_ts_sim g' = eg_now_ts_sim g" and "timely g'"
    using act_keeps_time [OF assms(1)] assms(2) by (simp_all add: time_inv_def)
  note same = act_sources_same [OF assms(1)]
  have "queue_in_time g'"
    using assms
  proof cases
    case (act_push kind ts)
    then show ?thesis using assms(2)
      by (auto intro!: queue_in_time_push simp: time_inv_def event_ok_def split: event_kind.splits)
  next
    case (act_submit ord pos ts)
    have "queue_in_time (g\<lparr>eg_next_order_id := u64_wrapping_succ (eg_next_order_id g),
        eg_order_symbol_by_id := hm_insert (eg_next_order_id g) (od_symbol_id ord) (eg_order_symbol_by_id g)\<rparr>)"
      using assms(2) by (simp add: time_inv_def queue_in_time_def)
    then show ?thesis unfolding act_submit(1)
      by (rule queue_in_time_push) (use act_submit in \<open>simp_all add: event_ok_def\<close>)
  qed (use assms(2) in \<open>simp_all add: time_inv_def queue_in_time_def quiet_def log_fill_def
      book_fill_def book_funding_def case_prod_beta Let_def\<close>)
  moreover have "known_in_time g'"
    using assms
  proof cases
    case act_quiet
    then show ?thesis using assms(2)
      by (auto simp: time_inv_def known_in_time_def tick_known_def quiet_def)
  next
    case (act_deliver t)
    then show ?thesis using assms(2)
      by (auto simp: time_inv_def known_in_time_def tick_known_def last_trade_def on_tick_delivery_def)
  next
    case (act_buffer t)
    then show ?thesis using assms(2)
      by (auto simp: time_inv_def known_in_time_def tick_known_def)
  qed (use assms(2) in \<open>simp_all add: time_inv_def known_in_time_def tick_known_def log_fill_def
      book_fill_def book_funding_def case_prod_beta Let_def\<close>)
  ultimately show ?thesis
    using same now \<open>timely g'\<close> assms(2)
    by (simp add: time_inv_def sources_same_def rows_in_time_def heap_ok_def heads_ok_def)
qed

lemma acts_in_time: "engine_acts True g g' \<Longrightarrow> in_time g tss lss \<Longrightarrow> in_time g' tss lss"
  by (induction rule: rtranclp_induct) (auto intro: act_in_time)

lemma some_event: "map_sum id (\<lambda>_. Some ev) x = Inr (Some ev') \<Longrightarrow> ev' = ev"
  by (cases x) auto

lemma process_next_in_time:
  assumes proc: "process_next env g = (r, g')" and inv: "in_time g tss lss"
    and init: "eg_is_source_heap_initialized g" "eg_is_l3_source_heap_initialized g"
    and due: "due_source g = NotDue" and now: "eg_now_ts_sim g' \<le> max_delay"
  shows "in_time g' tss lss \<and> eg_now_ts_sim g \<le> eg_now_ts_sim g' \<and>
    (\<forall>ev. r = Inr (Some ev) \<longrightarrow> ts_sim ev = eg_now_ts_sim g')"
proof (cases "eq_pop (eg_queue g)")
  case None
  with proc inv show ?thesis by (auto simp: process_next_def)
next
  case (Some p)
  obtain ev q where p: "eq_pop (eg_queue g) = Some (ev, q)" using Some by (cases p) auto
  let ?g1 = "g\<lparr>eg_queue := q, eg_now_ts_sim := ts_sim ev\<rparr>"
  have "engine_acts False ?g1 g'" using proc p by (rule process_next_acts) simp_all
  from acts_keep_time(1) [OF this] have t: "eg_now_ts_sim g' = ts_sim ev" by simp
  with now have "ts_sim ev \<le> max_delay" by simp
  note pop = popped_in_time [OF inv init due p this]
  have "engine_acts True ?g1 g'"
    using proc p by (rule process_next_acts) (use pop in \<open>simp_all add: time_inv_def\<close>)
  then have "in_time g' tss lss" using pop by (blast intro: acts_in_time)
  moreover have "r = Inr (Some ev') \<Longrightarrow> ev' = ev" for ev'
    using proc p
    by (auto simp: process_next_def Let_def apfst_def map_prod_def case_prod_beta
        dest!: some_event split: handled.splits)
  ultimately show ?thesis using pop t by auto
qed

lemma step_in_time:
  assumes step: "engine_step env g = Some (r, g')" and inv: "\<exists>tss lss. in_time g tss lss"
    and now: "eg_now_ts_sim g' \<le> max_delay"
  shows "(\<exists>tss lss. in_time g' tss lss) \<and> eg_now_ts_sim g \<le> eg_now_ts_sim g' \<and>
    (\<forall>ev. r = Inr (Some ev) \<longrightarrow> ts_sim ev = eg_now_ts_sim g')"
proof -
  obtain ri g1 where i: "ingest env g = Some (ri, g1)" using step by (auto simp: engine_step_def split: option.splits)
  have n1: "eg_now_ts_sim g1 = eg_now_ts_sim g" using ingest_same [OF i] by (simp add: books_same_def)
  note i1 = ingest_inv [OF i inv]
  show ?thesis
  proof (cases ri)
    case (Inl e)
    with step i i1 n1 show ?thesis by (auto simp: engine_step_def)
  next
    case (Inr u)
    with step i have "process_next env g1 = (r, g')" by (simp add: engine_step_def)
    with Inr i1 now n1 process_next_in_time [of g1 r g'] show ?thesis by (metis (no_types, lifting))
  qed
qed

lemma flush_in_time:
  assumes "flush_strategy env (eg_now_ts_sim g) g = (r, g')" and "in_time g tss lss"
  shows "in_time g' tss lss"
proof -
  have "engine_acts True g (snd (flush_strategy env (eg_now_ts_sim g) g))"
    using assms(2) by (intro flush_strategy_acts) (simp_all add: time_inv_def)
  with assms show ?thesis by (auto intro: acts_in_time)
qed

end

section \<open>Runs\<close>

sublocale engine_world \<subseteq> sourced_engine env tick_rows l3_rows
  by (rule sourced_engine.intro) (rule tick_law l3_law)+

text \<open>
  The states a run passes through while its clock stays below \<open>2 ^ 62\<close> ns, the year 2116 for times
  since 1970.
\<close>

inductive timed_run ::
  "('s, 'e, 'rng, 'src, 'l3, 'te) engine_env \<Rightarrow> ('st, 's, 'rng, 'src, 'l3) engine \<Rightarrow>
   ('st, 's, 'rng, 'src, 'l3) engine \<Rightarrow> bool" for env g0 where
  timed_start: "timed_run env g0 g0"
| timed_step: "timed_run env g0 g \<Longrightarrow> engine_step env g = Some (r, g') \<Longrightarrow>
    eg_now_ts_sim g' \<le> max_delay \<Longrightarrow> timed_run env g0 g'"
| timed_flush: "timed_run env g0 g \<Longrightarrow> flush_strategy env (eg_now_ts_sim g) g = (r', g') \<Longrightarrow>
    timed_run env g0 g'"

text \<open>An engine that has been set up: rows in ascending order, nothing before the clock.\<close>

definition starts_in_time ::
  "('st, 's, 'rng, 'src, 'l3) engine \<Rightarrow> tick list list \<Rightarrow> l3_update list list \<Rightarrow> bool" where
  "starts_in_time g tss lss \<longleftrightarrow>
     timely g \<and> queue_in_time g \<and> known_in_time g \<and> rows_in_time g tss lss \<and>
     \<not> eg_is_source_heap_initialized g \<and> \<not> eg_is_l3_source_heap_initialized g"

text \<open>
  C2. Time moves forward and nobody looks ahead. Give the engine sources in ascending order of
  time, with ticks that are not received before they happened. Then no step sets the clock back,
  each event is processed at its own time, no event in the queue lies in the past, and every tick
  that the strategy can see, in its market view or in a batch, has happened and been received.
\<close>

theorem time_moves_forward:
  assumes "sourced_engine env tick_rows l3_rows"
    and "list_all2 tick_rows (eg_sources g0) tss" and "list_all2 l3_rows (eg_l3_sources g0) lss"
    and "starts_in_time g0 tss lss" and "timed_run env g0 g"
    and "engine_step env g = Some (r, g')" and "eg_now_ts_sim g' \<le> max_delay"
  shows "eg_now_ts_sim g \<le> eg_now_ts_sim g' \<and>
    (\<forall>ev. r = Inr (Some ev) \<longrightarrow> ts_sim ev = eg_now_ts_sim g') \<and>
    (\<forall>ev\<in>#eq_events (eg_queue g'). eg_now_ts_sim g' \<le> ts_sim ev) \<and>
    (\<forall>t\<in>set (eg_tick_buffer g'). tick_known g' t) \<and>
    (\<forall>i t. last_trade (eg_market g') i = Some t \<longrightarrow> tick_known g' t)"
proof -
  let ?inv = "\<lambda>g. \<exists>tss lss. time_inv tick_rows l3_rows g tss lss"
  have "?inv g0"
    using assms(2-4) by (auto simp: time_inv_def starts_in_time_def heap_ok_def heads_ok_def)
  with assms(5) have "?inv g"
    by (induction rule: timed_run.induct)
      (use sourced_engine.step_in_time [OF assms(1)] sourced_engine.flush_in_time [OF assms(1)] in blast)+
  from sourced_engine.step_in_time [OF assms(1,6) this assms(7)] show ?thesis
    by (auto simp: time_inv_def queue_in_time_def known_in_time_def)
qed

text \<open>A run of the sample engine.\<close>

lemma run_steps_timed:
  assumes "timed_run env g0 g" and "\<forall>k\<le>n. eg_now_ts_sim (run_steps k env g) \<le> max_delay"
  shows "timed_run env g0 (run_steps n env g)"
  using assms
proof (induction n arbitrary: g)
  case (Suc n)
  show ?case
  proof (cases "engine_step env g")
    case (Some p)
    obtain r g' where p: "engine_step env g = Some (r, g')" using Some by (cases p) auto
    have "eg_now_ts_sim (run_steps k env g') \<le> max_delay" if "k \<le> n" for k
      using Suc.prems(2) [rule_format, of "Suc k"] that p by simp
    moreover from this [of 0] have "timed_run env g0 g'" using Suc.prems(1) p by (auto intro: timed_step)
    ultimately show ?thesis using Suc.IH [of g'] p by simp
  qed (use Suc.prems in simp)
qed simp

lemma sample_starts: "starts_in_time sample_engine [[sell_tick 100 0, sell_tick 110 1, sell_tick 120 2]] []"
proof -
  have "tuner_ok (eg_tuner sample_engine)"
    by (simp add: sample_engine_def add_tick_source_def engine_new_def sample_config_def
        engine_config_default_def tuner_new_ok)
  then show ?thesis
    by (simp add: starts_in_time_def timely_def queue_in_time_def known_in_time_def rows_in_time_def
        rows_from_def tick_sane_def sell_tick_def sample_engine_def add_tick_source_def engine_new_def
        sample_config_def engine_config_default_def last_trade_def market_default_def in_i64_def)
qed

theorem time_moves_forward_witness:
  "\<exists>r g'. engine_step sample_env (run_steps 3 sample_env sample_engine) = Some (r, g') \<and>
     eg_now_ts_sim (run_steps 3 sample_env sample_engine) \<le> eg_now_ts_sim g' \<and>
     (\<forall>i t. last_trade (eg_market g') i = Some t \<longrightarrow> tick_known g' t)"
proof -
  let ?g = "\<lambda>n. run_steps n sample_env sample_engine"
  have nows: "map (\<lambda>n. eg_now_ts_sim (?g n)) [0, 1, 2, 3, 4] = [0, 100, 100, 100, 110]" by code_simp
  have n: "eg_now_ts_sim (?g k) \<le> max_delay" if "k \<le> 3" for k
  proof -
    from that have "k \<in> {0, 1, 2, 3}" by auto
    with nows show ?thesis by auto
  qed
  have run: "timed_run sample_env sample_engine (?g 3)"
    using timed_start n by (intro run_steps_timed) auto
  have "list_all2 (=) (eg_sources sample_engine) [[sell_tick 100 0, sell_tick 110 1, sell_tick 120 2]]"
    and "list_all2 (=) (eg_l3_sources sample_engine) []"
    by (simp_all add: sample_engine_def add_tick_source_def engine_new_def)
  note th = time_moves_forward [OF sample_world.sourced_engine_axioms this sample_starts run]
  have "engine_step sample_env (?g 3) \<noteq> None" by code_simp
  then obtain r g' where s: "engine_step sample_env (?g 3) = Some (r, g')" by auto
  have "map_option (\<lambda>p. eg_now_ts_sim (snd p)) (engine_step sample_env (?g 3)) = Some 110" by code_simp
  with s have "eg_now_ts_sim g' \<le> max_delay" by simp
  from th [OF s this] s show ?thesis by blast
qed

end
