(* ===== verification/EngineOrders.thy ===== *)
theory EngineOrders
  imports EngineInv ExchangeOps EngineSamples
begin

text \<open>
  The engine keeps to the rules of the venues it simulates. Theory \<open>ExchangeOps\<close> shows that a venue
  is sound as long as orders come with fresh identifiers and only pending orders are acknowledged;
  here it is shown that the engine always calls its venues that way: identifiers are never reused,
  an order is submitted once and acknowledged once, and until then its state is \<open>PendingNew\<close>. So the
  venue's invariant holds for every venue inside every engine.
\<close>

section \<open>What an operation of the venue does to pending orders\<close>

text \<open>
  Outside the orders in \<open>T\<close> nothing new appears, and a pending order stays pending while it is there.
\<close>

definition keeps_pending :: "u64 set \<Rightarrow> 'st exchange \<Rightarrow> 'st exchange \<Rightarrow> bool" where
  "keeps_pending T x x' \<longleftrightarrow>
     (\<forall>i live'. i \<notin> T \<longrightarrow> bt_get (ex_orders x') i = Some live' \<longrightarrow>
        (\<exists>live. bt_get (ex_orders x) i = Some live \<and>
           (lo_state live = PendingNew \<longrightarrow> lo_state live' = PendingNew)))"

lemma keeps_pending_same: "ex_orders x' = ex_orders x \<Longrightarrow> keeps_pending T x x'"
  by (simp add: keeps_pending_def)

lemma keeps_pending_refl: "keeps_pending T x x"
  by (simp add: keeps_pending_same)

lemma keeps_pending_put:
  assumes "bt_wf (ex_orders x)" and "bt_get (ex_orders x) i = Some live"
    and "i \<in> T \<or> (lo_state live = PendingNew \<longrightarrow> lo_state live' = PendingNew)"
  shows "keeps_pending T x (put_order i live' x)"
  using assms by (auto simp: keeps_pending_def put_order_def)

lemma keeps_pending_map:
  assumes "\<And>live. lo_state live = PendingNew \<Longrightarrow> lo_state (f live) = PendingNew"
    and "ex_orders x' = bt_map_values f (ex_orders x)"
  shows "keeps_pending T x x'"
  using assms by (auto simp: keeps_pending_def)

lemma apply_l2_keeps: "keeps_pending T x (apply_l2_update u x)"
  by (simp add: keeps_pending_same apply_l2_update_def)

lemma apply_l3_keeps: "keeps_pending T x (snd (apply_l3_update u x))"
proof (rule keeps_pending_map)
  show "ex_orders (snd (apply_l3_update u x)) =
      bt_map_values (on_l3_update_live (ex_queue_model x) u) (ex_orders x)"
    by (simp add: apply_l3_update_def Let_def split: option.split sum.split)
qed (simp add: on_l3_update_live_def)

lemma submit_keeps: "bt_wf (ex_orders x) \<Longrightarrow> keeps_pending {od_order_id ord} x (snd (submit_order ord x))"
  by (simp add: keeps_pending_def submit_order_def Let_def)

lemma ack_new_keeps: "bt_wf (ex_orders x) \<Longrightarrow> keeps_pending {i} x (snd (ack_new i x))"
  by (auto simp: ack_new_def Let_def split: option.split intro!: keeps_pending_refl keeps_pending_put)

lemma cancel_keeps: "bt_wf (ex_orders x) \<Longrightarrow> keeps_pending T x (snd (cancel_order i x))"
  by (auto simp: cancel_order_def Let_def split: option.split intro!: keeps_pending_refl keeps_pending_put)

lemma ack_cancel_keeps: "bt_wf (ex_orders x) \<Longrightarrow> keeps_pending T x (snd (ack_cancel i x))"
  by (auto simp: ack_cancel_def Let_def split: option.split order_state.split
      intro!: keeps_pending_refl keeps_pending_put)

lemma fill_market_keeps: "bt_wf (ex_orders x) \<Longrightarrow> keeps_pending {i} x (snd (fill_market_immediately i p x))"
  by (auto simp: fill_market_immediately_def Let_def split: option.split
      intro!: keeps_pending_refl keeps_pending_put)

lemma force_cancel_keeps: "bt_wf (ex_orders x) \<Longrightarrow> keeps_pending {i} x (snd (force_cancel_partial_fill i x))"
  by (auto simp: force_cancel_partial_fill_def Let_def split: option.split
      intro!: keeps_pending_refl keeps_pending_put)

lemma remove_keeps: "keeps_pending T x (remove_order i x)"
  by (auto simp: keeps_pending_def remove_order_def Let_def split: option.splits)

lemma on_trade_keeps:
  assumes "ex_inv qm ok x"
  shows "keeps_pending T x (snd (on_trade t reports x))"
proof (cases "maker_side (tk_side t)")
  case None
  then show ?thesis by (simp add: on_trade_def keeps_pending_same)
next
  case (Some maker)
  have "index_inv x" using assms by (rule ex_invD)
  from on_trade_lemma [OF this Some, of reports]
  have "ex_orders (snd (on_trade t reports x)) =
      trade_orders (ex_queue_model x) t (tk_price t, maker) (ex_orders x)" by simp
  then show ?thesis
    unfolding trade_orders_def
    by (rule keeps_pending_map [rotated]) (simp add: trade_live_def fillable_states_def)
qed

text \<open>The state behind the report of a market order.\<close>

lemma fill_market_report:
  assumes "fill_market_immediately i p x = (Some r, x')" and "bt_wf (ex_orders x)"
  shows "get_order_state x' i = Some (rp_status r)"
  using assms
  by (auto simp: fill_market_immediately_def get_order_state_def put_order_def report_of_def Let_def
      split: option.splits)

section \<open>The invariant\<close>

text \<open>All orders of an identifier, at whichever venue.\<close>

definition venue_orders :: "('st, 's, 'rng, 'src, 'l3) engine \<Rightarrow> u64 \<Rightarrow> 'st live_order set" where
  "venue_orders g i = {live. \<exists>s x. hm_get (eg_exchanges g) s = Some x \<and> bt_get (ex_orders x) i = Some live}"

text \<open>The events that will submit or acknowledge an order.\<close>

fun launches :: "u64 \<Rightarrow> event_kind \<Rightarrow> bool" where
  "launches i (OrderEvent ord) \<longleftrightarrow> od_order_id ord = i"
| "launches i (OrderAck j) \<longleftrightarrow> j = i"
| "launches i _ \<longleftrightarrow> False"

definition event_sound :: "('st, 's, 'rng, 'src, 'l3) engine \<Rightarrow> event_kind \<Rightarrow> bool" where
  "event_sound g k \<longleftrightarrow>
     (case k of
        OrderEvent ord \<Rightarrow>
          od_order_id ord < eg_next_order_id g \<and> venue_orders g (od_order_id ord) = {}
      | OrderAck i \<Rightarrow>
          i < eg_next_order_id g \<and> (\<forall>live\<in>venue_orders g i. lo_state live = PendingNew)
      | _ \<Rightarrow> True)"

definition idle :: "u64 \<Rightarrow> ('st, 's, 'rng, 'src, 'l3) engine \<Rightarrow> bool" where
  "idle i g \<longleftrightarrow> (\<forall>ev\<in>#eq_events (eg_queue g). \<not> launches i (ev_kind ev))"

definition orders_ok ::
  "'st queue_model \<Rightarrow> (order \<Rightarrow> i64 \<Rightarrow> 'st \<Rightarrow> bool) \<Rightarrow> nat \<Rightarrow> ('st, 's, 'rng, 'src, 'l3) engine \<Rightarrow> bool" where
  "orders_ok qm ok n g \<longleftrightarrow>
     eg_queue_model g = qm \<and> (\<forall>s x. hm_get (eg_exchanges g) s = Some x \<longrightarrow> ex_inv qm ok x) \<and>
     eg_next_order_id g \<le> n \<and> (\<forall>i\<ge>eg_next_order_id g. venue_orders g i = {}) \<and>
     (\<forall>ev\<in>#eq_events (eg_queue g). event_sound g (ev_kind ev)) \<and>
     (\<forall>i. size {#ev \<in># eq_events (eg_queue g). launches i (ev_kind ev)#} \<le> 1)"

lemma orders_ok_more: "orders_ok qm ok n g \<Longrightarrow> n \<le> m \<Longrightarrow> orders_ok qm ok m g"
  by (auto simp: orders_ok_def)

text \<open>Fields the invariant does not look at.\<close>

lemma orders_frame:
  assumes "eg_queue_model g' = eg_queue_model g" and "eg_exchanges g' = eg_exchanges g"
    and "eg_next_order_id g' = eg_next_order_id g" and "eg_queue g' = eg_queue g"
  shows "orders_ok qm ok n g' = orders_ok qm ok n g"
    and "event_sound g' k = event_sound g k" and "venue_orders g' i = venue_orders g i"
    and "idle i g' = idle i g"
  using assms by (simp_all add: orders_ok_def event_sound_def venue_orders_def idle_def cong: event_kind.case_cong)

lemma orders_updates [simp]:
  "orders_ok qm ok n (g\<lparr>eg_strategy := a\<rparr>) = orders_ok qm ok n g"
  "orders_ok qm ok n (g\<lparr>eg_rng := b\<rparr>) = orders_ok qm ok n g"
  "orders_ok qm ok n (g\<lparr>eg_market := c\<rparr>) = orders_ok qm ok n g"
  "orders_ok qm ok n (g\<lparr>eg_tick_buffer := d\<rparr>) = orders_ok qm ok n g"
  "orders_ok qm ok n (g\<lparr>eg_report_buffer := e\<rparr>) = orders_ok qm ok n g"
  "orders_ok qm ok n (g\<lparr>eg_pending_wakeup := f\<rparr>) = orders_ok qm ok n g"
  "orders_ok qm ok n (g\<lparr>eg_active_batch_timer_id := h\<rparr>) = orders_ok qm ok n g"
  "orders_ok qm ok n (g\<lparr>eg_l2_depth_symbols := l\<rparr>) = orders_ok qm ok n g"
  "orders_ok qm ok n (g\<lparr>eg_l3_depth_symbols := l\<rparr>) = orders_ok qm ok n g"
  "orders_ok qm ok n (g\<lparr>eg_order_symbol_by_id := m\<rparr>) = orders_ok qm ok n g"
  "orders_ok qm ok n (g\<lparr>eg_truth_last_trade_by_symbol := p\<rparr>) = orders_ok qm ok n g"
  "orders_ok qm ok n (g\<lparr>eg_next_timer_id := t\<rparr>) = orders_ok qm ok n g"
  "orders_ok qm ok n (g\<lparr>eg_now_ts_sim := ts\<rparr>) = orders_ok qm ok n g"
  "orders_ok qm ok n (book_fill ts ord q pr fee g) = orders_ok qm ok n g"
  "orders_ok qm ok n (book_funding ev mark g) = orders_ok qm ok n g"
  "orders_ok qm ok n (log_fill tf g) = orders_ok qm ok n g"
  by (rule orders_frame; simp add: book_fill_def book_funding_def log_fill_def case_prod_beta Let_def)+

section \<open>Building blocks\<close>

lemma sound_later:
  "event_sound g k \<Longrightarrow> eg_next_order_id g \<le> eg_next_order_id g' \<Longrightarrow> eg_exchanges g' = eg_exchanges g \<Longrightarrow>
     event_sound g' k"
  by (auto simp: event_sound_def venue_orders_def split: event_kind.splits)

lemma orders_push:
  assumes "orders_ok qm ok n g" and "event_sound g k" and "\<And>i. launches i k \<Longrightarrow> idle i g"
  shows "orders_ok qm ok n (push_event ts k g)"
proof -
  have sound: "event_sound (push_event ts k g) k' = event_sound g k'" for k'
    by (simp add: event_sound_def venue_orders_def cong: event_kind.case_cong)
  have "size {#ev \<in># eq_events (eg_queue (push_event ts k g)). launches i (ev_kind ev)#} \<le> 1" for i
  proof (cases "launches i k")
    case True
    from assms(3) [OF this] have "{#ev \<in># eq_events (eg_queue g). launches i (ev_kind ev)#} = {#}"
      by (simp add: idle_def)
    with True show ?thesis by simp
  next
    case False
    with assms(1) show ?thesis by (simp add: orders_ok_def)
  qed
  with assms(1,2) sound show ?thesis
    by (auto simp: orders_ok_def venue_orders_def)
qed

lemma orders_push_other:
  assumes "orders_ok qm ok n g" and "\<And>ord. k \<noteq> OrderEvent ord" and "\<And>i. k \<noteq> OrderAck i"
  shows "orders_ok qm ok n (push_event ts k g)"
  using assms(1)
  by (rule orders_push) (use assms(2,3) in \<open>cases k; simp add: event_sound_def\<close>)+

lemma orders_push_report [simp]:
  "orders_ok qm ok n g \<Longrightarrow> orders_ok qm ok n (push_event ts (OrderReportEvent r) g)"
  "orders_ok qm ok n g \<Longrightarrow> orders_ok qm ok n (push_event ts (Timer tid) g)"
  "orders_ok qm ok n g \<Longrightarrow> orders_ok qm ok n (push_event ts (OrderCancel i) g)"
  "orders_ok qm ok n g \<Longrightarrow> orders_ok qm ok n (push_event ts (OrderCancelAck i) g)"
  by (rule orders_push_other; simp)+

lemma orders_fold:
  assumes "orders_ok qm ok n g" and "\<And>x g. orders_ok qm ok n g \<Longrightarrow> orders_ok qm ok n (f x g)"
  shows "orders_ok qm ok n (fold f xs g)"
  using assms(1) by (induction xs arbitrary: g) (auto intro: assms(2))

lemma idle_push [simp]: "idle i (push_event ts k g) \<longleftrightarrow> \<not> launches i k \<and> idle i g"
  by (auto simp: idle_def)

text \<open>Popping: the event's own order is idle afterwards.\<close>

lemma orders_pop:
  assumes "orders_ok qm ok n g" and "eq_pop (eg_queue g) = Some (ev, q)"
  defines "g1 \<equiv> g\<lparr>eg_queue := q, eg_now_ts_sim := ts_sim ev\<rparr>"
  shows "orders_ok qm ok n g1" and "event_sound g1 (ev_kind ev)" and "launches i (ev_kind ev) \<Longrightarrow> idle i g1"
proof -
  have queue: "eq_events (eg_queue g) = add_mset ev (eq_events q)" using assms(2) by (rule eq_pop_events)
  have sound: "event_sound g1 k = event_sound g k" for k
    by (simp add: event_sound_def venue_orders_def g1_def cong: event_kind.case_cong)
  have count: "size {#e \<in># eq_events q. launches i (ev_kind e)#} + (if launches i (ev_kind ev) then 1 else 0) \<le> 1" for i
  proof -
    have "size {#e \<in># eq_events (eg_queue g). launches i (ev_kind e)#} \<le> 1"
      using assms(1) by (simp add: orders_ok_def)
    then show ?thesis by (simp add: queue split: if_splits)
  qed
  have "size {#e \<in># eq_events q. launches i (ev_kind e)#} \<le> 1" for i
    using count [of i] by simp
  with assms(1) sound queue show "orders_ok qm ok n g1"
    by (auto simp: orders_ok_def venue_orders_def g1_def)
  show "event_sound g1 (ev_kind ev)" using assms(1) queue by (simp add: orders_ok_def sound)
  show "idle i g1" if "launches i (ev_kind ev)"
  proof -
    have "{#e \<in># eq_events q. launches i (ev_kind e)#} = {#}" using count [of i] that by simp
    then show ?thesis by (simp add: idle_def g1_def)
  qed
qed

context queue_laws begin

lemma entry_inv:
  assumes "orders_ok qm ok n g"
  shows "ex_inv qm ok (exchange_entry g s)"
proof (cases "hm_get (eg_exchanges g) s")
  case None
  have "eg_queue_model g = qm" using assms by (simp add: orders_ok_def)
  with None show ?thesis
    using reach_inv [OF ex_reach.new] reach_inv [OF ex_reach.new_l3] by (simp add: exchange_entry_def)
next
  case (Some x)
  with assms show ?thesis by (simp add: exchange_entry_def orders_ok_def)
qed

lemma entry_orders: "bt_get (ex_orders (exchange_entry g s)) i = Some live \<Longrightarrow> live \<in> venue_orders g i"
  by (auto simp: exchange_entry_def venue_orders_def exchange_new_def exchange_new_l3_def
      split: option.splits if_splits)

text \<open>A call on a venue that keeps its invariant and touches orders in \<open>T\<close> only.\<close>

lemma orders_exchange:
  assumes inv: "orders_ok qm ok n g"
    and x': "ex_inv qm ok (snd (f (exchange_entry g s)))"
    and keeps: "keeps_pending T (exchange_entry g s) (snd (f (exchange_entry g s)))"
    and T: "\<And>i. i \<in> T \<Longrightarrow> i < eg_next_order_id g \<and> idle i g"
  shows "orders_ok qm ok n (snd (with_exchange s f g))"
proof -
  let ?x = "exchange_entry g s" and ?x' = "snd (f (exchange_entry g s))" and ?g' = "snd (with_exchange s f g)"
  have fields: "eg_exchanges ?g' = hm_insert s ?x' (eg_exchanges g)" "eg_queue ?g' = eg_queue g"
    "eg_queue_model ?g' = eg_queue_model g" "eg_next_order_id ?g' = eg_next_order_id g"
    by (simp_all add: with_exchange_def case_prod_beta)
  have move: "\<exists>live\<in>venue_orders g i. lo_state live = PendingNew \<longrightarrow> lo_state live' = PendingNew"
    if "i \<notin> T" and live': "live' \<in> venue_orders ?g' i" for i live'
  proof -
    from live' consider "bt_get (ex_orders ?x') i = Some live'" | "live' \<in> venue_orders g i"
      by (auto simp: venue_orders_def fields split: if_splits)
    then show ?thesis
    proof cases
      case 1
      with keeps that(1) obtain live where "bt_get (ex_orders ?x) i = Some live"
        "lo_state live = PendingNew \<longrightarrow> lo_state live' = PendingNew" by (auto simp: keeps_pending_def)
      then show ?thesis using entry_orders [of g s i live] by blast
    qed blast
  qed
  have fresh: "venue_orders ?g' i = {}" if "i \<notin> T" "venue_orders g i = {}" for i
    using move [OF that(1)] that(2) by blast
  have outside: "i \<notin> T" if "i \<ge> eg_next_order_id g" for i using T [of i] that by auto
  have "event_sound ?g' (ev_kind ev)" if ev: "ev \<in># eq_events (eg_queue g)" for ev
  proof -
    have snd: "event_sound g (ev_kind ev)" using inv ev by (simp add: orders_ok_def)
    have out: "i \<notin> T" if "launches i (ev_kind ev)" for i
      using T [of i] ev that by (auto simp: idle_def)
    show ?thesis
    proof (cases "ev_kind ev")
      case (OrderEvent ord)
      with snd out [of "od_order_id ord"] fresh show ?thesis by (simp add: event_sound_def fields)
    next
      case (OrderAck i)
      with out have "i \<notin> T" by simp
      with snd OrderAck move [of i] show ?thesis by (auto simp: event_sound_def fields)
    qed (simp_all add: event_sound_def)
  qed
  with inv x' fresh outside show ?thesis
    by (auto simp: orders_ok_def fields split: if_splits)
qed

text \<open>The operations of the venue, as the engine calls them.\<close>

lemma orders_op:
  assumes "orders_ok qm ok n g" and "snd (f (exchange_entry g s)) = exchange_step op (exchange_entry g s)"
    and "op_ok op (exchange_entry g s)"
    and "keeps_pending T (exchange_entry g s) (snd (f (exchange_entry g s)))"
    and "\<And>i. i \<in> T \<Longrightarrow> i < eg_next_order_id g \<and> idle i g"
  shows "orders_ok qm ok n (snd (with_exchange s f g))"
  using assms exchange_step_good [OF entry_inv [OF assms(1)] assms(3)]
  by (intro orders_exchange) (auto simp: good_step_def)

lemma entry_wf: "orders_ok qm ok n g \<Longrightarrow> bt_wf (ex_orders (exchange_entry g s))"
  using entry_inv [of n g s] by (rule ex_invD)

lemma orders_l2:
  "orders_ok qm ok n g \<Longrightarrow> 0 \<le> l2_qty u \<Longrightarrow> in_i64 (l2_qty u) \<Longrightarrow>
     orders_ok qm ok n (snd (with_exchange s (\<lambda>x. ((), apply_l2_update u x)) g))"
  by (rule orders_op [where op = "L2Op u" and T = "{}"]) (simp_all add: apply_l2_keeps)

lemma orders_l3:
  "orders_ok qm ok n g \<Longrightarrow> l3_fits_after u (exchange_entry g s) \<Longrightarrow>
     orders_ok qm ok n (snd (with_exchange s (apply_l3_update u) g))"
  by (rule orders_op [where op = "L3Op u" and T = "{}"]) (simp_all add: apply_l3_keeps)

lemma orders_trade:
  "orders_ok qm ok n g \<Longrightarrow> in_i64 (tk_qty t) \<Longrightarrow> orders_ok qm ok n (snd (with_exchange s (on_trade t []) g))"
  by (rule orders_op [where op = "TradeOp t" and T = "{}"]) (simp_all add: on_trade_keeps [OF entry_inv])

lemma orders_submit:
  assumes "orders_ok qm ok n g" and "event_sound g (OrderEvent ord)" and "idle (od_order_id ord) g"
    and "0 \<le> od_qty ord" and "in_i64 (od_qty ord)"
  shows "orders_ok qm ok n (snd (with_exchange s (submit_order ord) g))"
proof (rule orders_op [where op = "SubmitOp ord" and T = "{od_order_id ord}"])
  have "bt_get (ex_orders (exchange_entry g s)) (od_order_id ord) = None"
    using assms(2) entry_orders [of g s "od_order_id ord"]
    by (cases "bt_get (ex_orders (exchange_entry g s)) (od_order_id ord)") (auto simp: event_sound_def)
  with assms(4,5) show "op_ok (SubmitOp ord) (exchange_entry g s)" by simp
qed (use assms in \<open>simp_all add: submit_keeps entry_wf event_sound_def\<close>)

lemma orders_ack_new:
  "orders_ok qm ok n g \<Longrightarrow> i < eg_next_order_id g \<Longrightarrow> idle i g \<Longrightarrow>
     orders_ok qm ok n (snd (with_exchange s (ack_new i) g))"
  by (rule orders_op [where op = "AckNewOp i" and T = "{i}"]) (simp_all add: ack_new_keeps entry_wf)

lemma orders_cancel: "orders_ok qm ok n g \<Longrightarrow> orders_ok qm ok n (snd (with_exchange s (cancel_order i) g))"
  by (rule orders_op [where op = "CancelOp i" and T = "{}"]) (simp_all add: cancel_keeps entry_wf)

lemma orders_ack_cancel: "orders_ok qm ok n g \<Longrightarrow> orders_ok qm ok n (snd (with_exchange s (ack_cancel i) g))"
  by (rule orders_op [where op = "AckCancelOp i" and T = "{}"]) (simp_all add: ack_cancel_keeps entry_wf)

lemma orders_remove:
  "orders_ok qm ok n g \<Longrightarrow> orders_ok qm ok n (snd (with_exchange s (\<lambda>x. ((), remove_order i x)) g))"
  by (rule orders_op [where op = "RemoveOp i" and T = "{}"]) (simp_all add: remove_keeps)

lemma orders_look: "orders_ok qm ok n g \<Longrightarrow> orders_ok qm ok n (snd (with_exchange s (\<lambda>x. (h x, x)) g))"
  by (rule orders_exchange [where T = "{}"]) (simp_all add: entry_inv keeps_pending_refl)

lemma orders_market:
  assumes "orders_ok qm ok n g" and "event_sound g (OrderAck i)" and "idle i g"
  shows "orders_ok qm ok n (snd (with_exchange s (fill_market_immediately i p) g))"
proof (cases "bt_get (ex_orders (exchange_entry g s)) i")
  case None
  then have "fill_market_immediately i p (exchange_entry g s) = (None, exchange_entry g s)"
    by (simp add: fill_market_immediately_def)
  then show ?thesis
    by (intro orders_exchange [where T = "{}"])
      (simp_all add: assms(1) entry_inv [OF assms(1)] keeps_pending_refl)
next
  case (Some live)
  then have "lo_state live = PendingNew"
    using assms(2) entry_orders [OF Some] by (simp add: event_sound_def)
  with Some have "op_ok (MarketOp i p) (exchange_entry g s)" by (simp add: get_order_state_def)
  with assms show ?thesis
    by (intro orders_op [where op = "MarketOp i p" and T = "{i}"])
      (simp_all add: fill_market_keeps entry_wf event_sound_def)
qed

lemma orders_force_cancel:
  assumes "orders_ok qm ok n g" and "i < eg_next_order_id g" and "idle i g"
    and "get_order_state (exchange_entry g s) i = Some PartiallyFilled"
  shows "orders_ok qm ok n (snd (with_exchange s (force_cancel_partial_fill i) g))"
  using assms
  by (intro orders_op [where op = "ForceCancelOp i" and T = "{i}"])
    (simp_all add: force_cancel_keeps entry_wf)

end

text \<open>Calls on a venue and latencies change neither the queue nor the identifiers.\<close>

lemma with_exchange_id:
  assumes "with_exchange s f g = (r, g')"
  shows "eg_next_order_id g' = eg_next_order_id g" and "eg_queue g' = eg_queue g"
    and "exchange_entry g' s = snd (f (exchange_entry g s))" and "r = fst (f (exchange_entry g s))"
    and "idle i g' = idle i g"
proof -
  from assms obtain x where f: "f (exchange_entry g s) = (r, x)"
    and g': "g' = g\<lparr>eg_exchanges := hm_insert s x (eg_exchanges g)\<rparr>"
    by (auto simp: with_exchange_def split: prod.splits)
  show "eg_next_order_id g' = eg_next_order_id g" "eg_queue g' = eg_queue g" "idle i g' = idle i g"
    by (simp_all add: g' idle_def)
  show "exchange_entry g' s = snd (f (exchange_entry g s))" "r = fst (f (exchange_entry g s))"
    unfolding exchange_entry_def [of g'] by (simp_all add: f g')
qed

lemma order_latency_id:
  assumes "order_latency env g = (ts, g')"
  shows "orders_ok qm ok n g' = orders_ok qm ok n g" and "eg_next_order_id g' = eg_next_order_id g"
    and "idle i g' = idle i g" and "venue_orders g' i = venue_orders g i"
proof -
  from assms have same: "eg_queue_model g' = eg_queue_model g" "eg_exchanges g' = eg_exchanges g"
    "eg_queue g' = eg_queue g" and next_id: "eg_next_order_id g' = eg_next_order_id g"
    by (auto simp: order_latency_def split: prod.splits)
  show "orders_ok qm ok n g' = orders_ok qm ok n g" "idle i g' = idle i g" "venue_orders g' i = venue_orders g i"
    by (rule orders_frame [OF same(1,2) next_id same(3)])+
  show "eg_next_order_id g' = eg_next_order_id g" by (rule next_id)
qed

section \<open>Commands\<close>

text \<open>
  A callback adds at most \<open>2 ^ 61\<close> commands: a vector of the code cannot hold more, since its bytes
  are at most \<open>isize::MAX\<close>.
\<close>

abbreviation max_commands :: nat where "max_commands \<equiv> 2305843009213693952"

definition few_commands :: "('x, 's, 'e) callback \<Rightarrow> bool" where
  "few_commands cb \<longleftrightarrow>
     (\<forall>x cx s r cx' s'. cb x cx s = (r, cx', s') \<longrightarrow>
        length (cx_commands cx') \<le> length (cx_commands cx) + max_commands)"

lemma few_commandsD:
  "few_commands cb \<Longrightarrow> cb x cx s = (r, cx', s') \<Longrightarrow>
     length (cx_commands cx') \<le> length (cx_commands cx) + max_commands"
  unfolding few_commands_def by blast

definition modest_strategy :: "('s, 'e) strategy \<Rightarrow> bool" where
  "modest_strategy st \<longleftrightarrow>
     few_commands (st_on_tick st) \<and> few_commands (st_on_ticks st) \<and> few_commands (st_on_order_update st) \<and>
     few_commands (st_on_order_updates st) \<and> few_commands (st_on_funding st)"

lemma orders_next_id:
  assumes "orders_ok qm ok n g" and "Suc n < 2 ^ 64"
  defines "g1 \<equiv> g\<lparr>eg_next_order_id := u64_wrapping_succ (eg_next_order_id g)\<rparr>"
  shows "orders_ok qm ok (Suc n) g1" and "eg_next_order_id g1 = Suc (eg_next_order_id g)"
    and "idle (eg_next_order_id g) g1" and "venue_orders g1 (eg_next_order_id g) = {}"
proof -
  have "Suc (eg_next_order_id g) < 2 ^ 64" using assms(1,2) by (simp add: orders_ok_def)
  then show next_id: "eg_next_order_id g1 = Suc (eg_next_order_id g)"
    by (simp add: g1_def u64_wrapping_succ_def)
  have same: "venue_orders g1 i = venue_orders g i" for i by (simp add: venue_orders_def g1_def)
  have "event_sound g1 (ev_kind ev)" if "ev \<in># eq_events (eg_queue g)" for ev
  proof (rule sound_later)
    show "event_sound g (ev_kind ev)" using assms(1) that by (simp add: orders_ok_def)
  qed (simp_all add: next_id, simp add: g1_def)
  with assms(1) next_id same show "orders_ok qm ok (Suc n) g1"
    by (simp add: orders_ok_def) (simp add: g1_def)
  show "venue_orders g1 (eg_next_order_id g) = {}" using assms(1) same by (simp add: orders_ok_def)
  show "idle (eg_next_order_id g) g1"
    unfolding idle_def
  proof
    fix ev
    assume "ev \<in># eq_events (eg_queue g1)"
    then have "event_sound g (ev_kind ev)" using assms(1) by (simp add: orders_ok_def g1_def)
    then show "\<not> launches (eg_next_order_id g) (ev_kind ev)"
      by (cases "ev_kind ev") (auto simp: event_sound_def)
  qed
qed

lemma orders_handle_submit:
  assumes "orders_ok qm ok n g" and "Suc n < 2 ^ 64"
  shows "orders_ok qm ok (Suc n) (handle_submit ord ts g)"
proof -
  let ?ord = "ord\<lparr>od_ts_submit := ts, od_order_id := eg_next_order_id g\<rparr>"
  let ?g1 = "g\<lparr>eg_next_order_id := u64_wrapping_succ (eg_next_order_id g)\<rparr>"
  note g1 = orders_next_id [OF assms]
  have push: "orders_ok qm ok (Suc n) (push_event ts (OrderEvent ?ord) (?g1\<lparr>eg_order_symbol_by_id := m\<rparr>))" for m
  proof (rule orders_push)
    show "orders_ok qm ok (Suc n) (?g1\<lparr>eg_order_symbol_by_id := m\<rparr>)" using g1(1) by simp
    have "event_sound ?g1 (OrderEvent ?ord)" using g1(2,4) by (simp add: event_sound_def)
    then show "event_sound (?g1\<lparr>eg_order_symbol_by_id := m\<rparr>) (OrderEvent ?ord)"
      by (simp add: event_sound_def venue_orders_def)
    show "idle i (?g1\<lparr>eg_order_symbol_by_id := m\<rparr>)" if "launches i (OrderEvent ?ord)" for i
      using g1(3) that by (simp add: idle_def)
  qed
  show ?thesis
    using push [of "hm_insert (eg_next_order_id g) (od_symbol_id ?ord) (eg_order_symbol_by_id g)"] g1(1)
    by (simp add: handle_submit_def Let_def split: option.split)
qed

lemma orders_handle_commands:
  "orders_ok qm ok n g \<Longrightarrow> n + length cs < 2 ^ 64 \<Longrightarrow> orders_ok qm ok (n + length cs) (handle_commands cs ts g)"
  unfolding handle_commands_def
proof (induction cs arbitrary: n g)
  case (Cons c cs)
  have "orders_ok qm ok (Suc n) (handle_command ts c g)"
  proof (cases c)
    case (SubmitOrder ord)
    have "Suc n < 2 ^ 64" using Cons.prems(2) by simp
    from orders_handle_submit [OF Cons.prems(1) this, of ord ts] SubmitOrder show ?thesis
      by (simp add: handle_command_def)
  next
    case (CancelOrder i)
    with Cons.prems(1) have "orders_ok qm ok n (handle_command ts c g)" by (simp add: handle_command_def)
    then show ?thesis by (rule orders_ok_more) simp
  qed
  from Cons.IH [OF this] Cons.prems(2) show ?case by simp
qed simp

lemma orders_call_strategy:
  assumes "orders_ok qm ok n g" and "few_commands cb" and "n + max_commands < 2 ^ 64"
  shows "orders_ok qm ok (n + max_commands) (snd (call_strategy cb x ts g))"
proof -
  obtain r cx s where cb: "cb x (context_new ts (eg_market g)) (eg_strategy g) = (r, cx, s)"
    by (cases "cb x (context_new ts (eg_market g)) (eg_strategy g)") auto
  have len: "length (cx_commands cx) \<le> max_commands"
    using few_commandsD [OF assms(2) cb] by (simp add: context_new_def)
  have "orders_ok qm ok (n + length (cx_commands cx)) (handle_commands (cx_commands cx) ts (g\<lparr>eg_strategy := s\<rparr>))"
    using assms(1,3) len by (intro orders_handle_commands) simp_all
  then have "orders_ok qm ok (n + max_commands) (handle_commands (cx_commands cx) ts (g\<lparr>eg_strategy := s\<rparr>))"
    by (rule orders_ok_more) (use len in simp)
  moreover have "orders_ok qm ok (n + max_commands) (g\<lparr>eg_strategy := s\<rparr>)"
    using assms(1) by (auto intro: orders_ok_more)
  ultimately show ?thesis
    by (simp add: call_strategy_def cb into_commands_def Let_def split: sum.split)
qed

section \<open>Every arm of the dispatch\<close>

text \<open>
  What the events must not contain for the venue's arithmetic to be exact: quantities of the feed and
  of the strategy's orders that are negative or too large, and L3 updates that would overflow the
  total of a price level.
\<close>

definition sane_event :: "('st, 's, 'rng, 'src, 'l3) engine \<Rightarrow> event_kind \<Rightarrow> bool" where
  "sane_event g k \<longleftrightarrow>
     (case k of
        TickEvent t \<Rightarrow> in_i64 (tk_qty t)
      | L2UpdateEvent u \<Rightarrow> 0 \<le> l2_qty u \<and> in_i64 (l2_qty u)
      | L3UpdateEvent u \<Rightarrow>
          l3_fits_after u (exchange_entry
            (g\<lparr>eg_l3_depth_symbols := insert (l3_symbol_id u) (eg_l3_depth_symbols g)\<rparr>) (l3_symbol_id u))
      | OrderEvent ord \<Rightarrow> 0 \<le> od_qty ord \<and> in_i64 (od_qty ord)
      | _ \<Rightarrow> True)"

lemma orders_book_taker: "orders_ok qm ok n g \<Longrightarrow> orders_ok qm ok n (book_taker r mo g)"
  by (simp add: book_taker_def Let_def split: option.split)

lemma book_taker_id:
  "eg_next_order_id (book_taker r mo g) = eg_next_order_id g" "eg_exchanges (book_taker r mo g) = eg_exchanges g"
  "eg_queue (book_taker r mo g) = eg_queue g" "eg_queue_model (book_taker r mo g) = eg_queue_model g"
  "eg_l3_depth_symbols (book_taker r mo g) = eg_l3_depth_symbols g"
  by (simp_all add: book_taker_def book_fill_def log_fill_def case_prod_beta Let_def split: option.split)

lemma book_taker_idle: "idle i (book_taker r mo g) = idle i g"
  by (simp add: idle_def book_taker_id)

lemma entry_frame:
  "eg_exchanges g' = eg_exchanges g \<Longrightarrow> eg_queue_model g' = eg_queue_model g \<Longrightarrow>
     eg_l3_depth_symbols g' = eg_l3_depth_symbols g \<Longrightarrow> exchange_entry g' s = exchange_entry g s"
  by (simp add: exchange_entry_def split: option.split)

context queue_laws begin

lemma orders_handle_tick:
  assumes "orders_ok qm ok n g" and "in_i64 (tk_qty t)"
  shows "orders_ok qm ok n (handle_tick t g)"
proof -
  let ?g1 = "g\<lparr>eg_truth_last_trade_by_symbol := hm_insert (tk_symbol_id t) t (eg_truth_last_trade_by_symbol g)\<rparr>"
  obtain reports g2 where g2: "with_exchange (tk_symbol_id t) (on_trade t []) ?g1 = (reports, g2)"
    by (cases "with_exchange (tk_symbol_id t) (on_trade t []) ?g1") auto
  have "orders_ok qm ok n g2" using orders_trade [of n ?g1 t "tk_symbol_id t"] assms g2 by simp
  then show ?thesis
    by (auto simp: handle_tick_def g2 Let_def intro!: orders_fold)
qed

lemma orders_handle_order:
  assumes "orders_ok qm ok n g" and "event_sound g (OrderEvent ord)" and "idle (od_order_id ord) g"
    and "0 \<le> od_qty ord" and "in_i64 (od_qty ord)"
  shows "orders_ok qm ok n (handle_order env ord g)"
proof -
  let ?s = "od_symbol_id ord" and ?i = "od_order_id ord"
  obtain r g1 where g1: "with_exchange ?s (submit_order ord) g = (r, g1)"
    by (cases "with_exchange ?s (submit_order ord) g") auto
  obtain ts g2 where g2: "order_latency env g1 = (ts, g2)" by (cases "order_latency env g1") auto
  note id1 = with_exchange_id [OF g1] and id2 = order_latency_id [OF g2]
  have "orders_ok qm ok n g1" using orders_submit [OF assms, of ?s] g1 by simp
  then have ok2: "orders_ok qm ok n g2" by (simp add: id2)
  have "lo_state live = PendingNew" if "live \<in> venue_orders g1 ?i" for live
  proof -
    have "venue_orders g ?i = {}" using assms(2) by (simp add: event_sound_def)
    moreover have "eg_exchanges g1 = hm_insert ?s (snd (submit_order ord (exchange_entry g ?s))) (eg_exchanges g)"
      using g1 by (auto simp: with_exchange_def split: prod.splits)
    ultimately have "bt_get (ex_orders (snd (submit_order ord (exchange_entry g ?s)))) ?i = Some live"
      using that by (auto simp: venue_orders_def split: if_splits)
    then show ?thesis using entry_wf [OF assms(1), of ?s] by (auto simp: submit_order_def Let_def)
  qed
  then have "event_sound g2 (OrderAck ?i)"
    using assms(2) id1(1) by (simp add: event_sound_def id2)
  with ok2 have "orders_ok qm ok n (push_event ts (OrderAck ?i) g2)"
    by (rule orders_push) (use assms(3) id1 id2 in auto)
  then show ?thesis by (simp add: handle_order_def g1 g2 Let_def)
qed

lemma orders_ack_limit:
  assumes "orders_ok qm ok n g" and "i < eg_next_order_id g" and "idle i g"
  shows "orders_ok qm ok n (ack_limit_order i s g)"
proof -
  obtain r g1 where g1: "with_exchange s (ack_new i) g = (r, g1)" by (cases "with_exchange s (ack_new i) g") auto
  have "orders_ok qm ok n g1" using orders_ack_new [OF assms, of s] g1 by simp
  then show ?thesis by (simp add: ack_limit_order_def g1 split: sum.split)
qed

lemma orders_fill_market:
  assumes "orders_ok qm ok n g" and "event_sound g (OrderAck i)" and "idle i g"
  shows "orders_ok qm ok n (fill_market_order i s g)"
proof -
  let ?p = "map_option tk_price (hm_get (eg_truth_last_trade_by_symbol g) s)"
  let ?mo = "get_order (exchange_entry g s) i"
  obtain mr g1 where g1: "with_exchange s (fill_market_immediately i ?p) g = (mr, g1)"
    by (cases "with_exchange s (fill_market_immediately i ?p) g") auto
  have ok1: "orders_ok qm ok n g1" using orders_market [OF assms, of s ?p] g1 by simp
  note id1 = with_exchange_id [OF g1]
  show ?thesis
  proof (cases mr)
    case None
    then show ?thesis using ok1 by (simp add: fill_market_order_def Let_def g1)
  next
    case (Some r)
    define g3 where "g3 = push_event (report_ts (book_taker r ?mo g1)) (OrderReportEvent r) (book_taker r ?mo g1)"
    have ok3: "orders_ok qm ok n g3" unfolding g3_def using ok1 by (simp add: orders_book_taker)
    have "exchange_entry g3 s = exchange_entry g1 s"
      unfolding g3_def by (rule entry_frame) (simp_all add: push_event_def book_taker_id)
    moreover have "idle i g3" using assms(3) id1(5) by (simp add: g3_def book_taker_idle)
    moreover have "eg_next_order_id g3 = eg_next_order_id g" using id1(1) by (simp add: g3_def book_taker_id)
    ultimately have same: "exchange_entry g3 s = exchange_entry g1 s" "eg_next_order_id g3 = eg_next_order_id g" "idle i g3"
      by blast+
    show ?thesis
    proof (cases "rp_status r = PartiallyFilled")
      case True
      have "fill_market_immediately i ?p (exchange_entry g s) = (Some r, exchange_entry g1 s)"
        using id1(3,4) Some by (simp add: prod_eq_iff)
      from fill_market_report [OF this entry_wf [OF assms(1)]] True
      have "get_order_state (exchange_entry g3 s) i = Some PartiallyFilled" by (simp add: same)
      moreover have "i < eg_next_order_id g3" using assms(2) by (simp add: event_sound_def same)
      moreover obtain mc g4 where g4: "with_exchange s (force_cancel_partial_fill i) g3 = (mc, g4)"
        by (cases "with_exchange s (force_cancel_partial_fill i) g3") auto
      ultimately have "orders_ok qm ok n g4"
        using orders_force_cancel [OF ok3, of i s] same(3) by simp
      then show ?thesis using Some True g4
        by (simp add: fill_market_order_def Let_def g1 g3_def [symmetric] split: option.split)
    next
      case False
      with Some ok3 show ?thesis by (simp add: fill_market_order_def Let_def g1 g3_def [symmetric])
    qed
  qed
qed

lemma orders_order_ack:
  assumes "orders_ok qm ok n g" and "event_sound g (OrderAck i)" and "idle i g"
  shows "orders_ok qm ok n (snd (handle_order_ack i g))"
proof (cases "hm_get (eg_order_symbol_by_id g) i")
  case (Some s)
  let ?look = "\<lambda>x. (get_order x i, x)"
  obtain k g1 where g1: "with_exchange s ?look g = (k, g1)" by (cases "with_exchange s ?look g") auto
  note id1 = with_exchange_id [OF g1]
  have ok1: "orders_ok qm ok n g1" using orders_look [OF assms(1), of s "\<lambda>x. get_order x i"] g1 by simp
  have "venue_orders g1 i \<subseteq> venue_orders g i"
  proof -
    have "eg_exchanges g1 = hm_insert s (exchange_entry g s) (eg_exchanges g)"
      using g1 by (auto simp: with_exchange_def split: prod.splits)
    then show ?thesis using entry_orders [of g s i]
      by (auto simp: venue_orders_def split: if_splits)
  qed
  then have sound: "event_sound g1 (OrderAck i)" using assms(2) id1(1) by (auto simp: event_sound_def)
  then have "i < eg_next_order_id g1" by (simp add: event_sound_def)
  with ok1 sound assms(3) id1(5) show ?thesis
    using orders_fill_market [of n g1 i s] orders_ack_limit [of n g1 i s]
    by (simp add: handle_order_ack_def Some g1 Let_def)
qed (use assms in \<open>simp add: handle_order_ack_def\<close>)

lemma orders_order_cancel:
  assumes "orders_ok qm ok n g"
  shows "orders_ok qm ok n (snd (handle_order_cancel env i g))"
proof (cases "hm_get (eg_order_symbol_by_id g) i")
  case (Some s)
  obtain r g1 where g1: "with_exchange s (cancel_order i) g = (r, g1)"
    by (cases "with_exchange s (cancel_order i) g") auto
  obtain ts g2 where g2: "order_latency env g1 = (ts, g2)" by (cases "order_latency env g1") auto
  have "orders_ok qm ok n g1" using orders_cancel [OF assms, of s i] g1 by simp
  then show ?thesis
    by (simp add: handle_order_cancel_def Some g1 g2 order_latency_id(1) [OF g2] split: sum.split)
qed (use assms in \<open>simp add: handle_order_cancel_def\<close>)

lemma orders_order_cancel_ack:
  assumes "orders_ok qm ok n g"
  shows "orders_ok qm ok n (handle_order_cancel_ack i g)"
proof (cases "hm_get (eg_order_symbol_by_id g) i")
  case (Some s)
  obtain r g1 where g1: "with_exchange s (ack_cancel i) g = (r, g1)"
    by (cases "with_exchange s (ack_cancel i) g") auto
  have "orders_ok qm ok n g1" using orders_ack_cancel [OF assms, of s i] g1 by simp
  then show ?thesis by (simp add: handle_order_cancel_ack_def Some g1 split: sum.split)
qed (use assms in \<open>simp add: handle_order_cancel_ack_def\<close>)

lemma orders_forget: "orders_ok qm ok n g \<Longrightarrow> orders_ok qm ok n (forget_order r g)"
  by (simp add: forget_order_def Let_def orders_remove split: option.split)

lemma orders_handle_l2:
  "orders_ok qm ok n g \<Longrightarrow> sane_event g (L2UpdateEvent u) \<Longrightarrow> orders_ok qm ok n (snd (handle_l2_update u g))"
  by (simp add: handle_l2_update_def mark_l2_depth_def sane_event_def orders_l2)

lemma orders_handle_l3:
  "orders_ok qm ok n g \<Longrightarrow> sane_event g (L3UpdateEvent u) \<Longrightarrow> orders_ok qm ok n (snd (handle_l3_update u g))"
  by (simp add: handle_l3_update_def mark_l3_depth_def sane_event_def orders_l3)

lemma orders_start_timer: "orders_ok qm ok n g \<Longrightarrow> orders_ok qm ok n (start_batch_timer ts g)"
  by (simp add: start_batch_timer_def Let_def)

lemma orders_dispatch:
  assumes "orders_ok qm ok n g" and "event_sound g k" and "\<And>i. launches i k \<Longrightarrow> idle i g" and "sane_event g k"
    and "modest_strategy (en_strategy env)" and "n + max_commands < 2 ^ 64"
  shows "orders_ok qm ok (n + max_commands) (snd (dispatch env k g))"
proof -
  have more: "orders_ok qm ok (n + max_commands) g'" if "orders_ok qm ok n g'" for g' :: "('st, 'a, 'b, 'c, 'd) engine"
    using that by (rule orders_ok_more) simp
  note calls = orders_call_strategy [OF _ _ assms(6)]
  show ?thesis
  proof (cases k)
    case (TickEvent t)
    with assms show ?thesis
      by (simp add: dispatch_def sane_event_def orders_handle_tick more)
  next
    case (TickDelivery t)
    let ?g1 = "g\<lparr>eg_market := on_tick_delivery t (eg_market g)\<rparr>"
    have "orders_ok qm ok (n + max_commands) (snd (call_strategy (st_on_tick (en_strategy env)) t (tk_ts_local t) ?g1))"
      by (rule calls) (use assms(1,5) in \<open>simp_all add: modest_strategy_def\<close>)
    then show ?thesis using assms(1) more
      by (simp add: TickDelivery dispatch_def handle_tick_delivery_def Let_def orders_start_timer split: engine_mode.split)
  next
    case (OrderReportEvent r)
    let ?g1 = "forget_order r g"
    have "orders_ok qm ok (n + max_commands) (snd (call_strategy (st_on_order_update (en_strategy env)) r (eg_now_ts_sim ?g1) ?g1))"
      by (rule calls) (use assms(1,5) in \<open>simp_all add: modest_strategy_def orders_forget\<close>)
    then show ?thesis using orders_forget [OF assms(1), of r] more
      by (simp add: OrderReportEvent dispatch_def handle_order_report_def Let_def split: engine_mode.split)
  next
    case (Funding ev)
    define g1 where "g1 = (case funding_mark_price g (fu_symbol_id ev) of
        None \<Rightarrow> g | Some mark \<Rightarrow> book_funding ev mark g)"
    have "orders_ok qm ok n g1" using assms(1) by (simp add: g1_def split: option.split)
    then have "orders_ok qm ok (n + max_commands) (snd (call_strategy (st_on_funding (en_strategy env)) ev (eg_now_ts_sim g1) g1))"
      by (rule calls) (use assms(5) in \<open>simp add: modest_strategy_def\<close>)
    then show ?thesis by (simp add: Funding dispatch_def handle_funding_def Let_def g1_def [symmetric])
  qed (use assms in \<open>simp_all add: dispatch_def more orders_handle_l2 orders_handle_l3 orders_handle_order
        orders_order_ack orders_order_cancel orders_order_cancel_ack sane_event_def handle_timer_def\<close>)
qed

end

section \<open>Flush, ingestion and step\<close>

lemma flush_callbacks_commands:
  assumes "modest_strategy (en_strategy env)" and "cx_commands cx = []"
    and "flush_callbacks env cx g = (Inr cx', g')"
  shows "length (cx_commands cx') \<le> 2 * max_commands"
proof -
  let ?st = "en_strategy env"
  obtain r1 cx1 s1 where 1: "(if eg_tick_buffer g = [] then (Inr (), cx, eg_strategy g)
      else st_on_ticks ?st (eg_tick_buffer g) cx (eg_strategy g)) = (r1, cx1, s1)"
    by (rule prod_cases3)
  obtain r2 cx2 s2 where 2: "(if eg_report_buffer g = [] then (Inr (), cx1, s1)
      else st_on_order_updates ?st (eg_report_buffer g) cx1 s1) = (r2, cx2, s2)"
    by (rule prod_cases3)
  have "length (cx_commands cx1) \<le> max_commands"
    using 1 assms(1,2) few_commandsD [of "st_on_ticks ?st" "eg_tick_buffer g" cx "eg_strategy g" r1 cx1 s1]
    by (auto simp: modest_strategy_def split: if_splits)
  moreover have "length (cx_commands cx2) \<le> length (cx_commands cx1) + max_commands"
    using 2 assms(1) few_commandsD [of "st_on_order_updates ?st" "eg_report_buffer g" cx1 s1 r2 cx2 s2]
    by (auto simp: modest_strategy_def split: if_splits)
  moreover have "cx' = cx2"
  proof (cases r1)
    case (Inl e)
    with assms(3) show ?thesis by (simp add: flush_callbacks_def 1 Let_def)
  next
    case (Inr u)
    with assms(3) 2 show ?thesis
      by (cases r2; cases "eg_report_buffer g = []") (simp_all add: flush_callbacks_def 1 Let_def)
  qed
  ultimately show ?thesis by simp
qed

lemma orders_auto_tune: "orders_ok qm ok n (auto_tune_batch env k g) = orders_ok qm ok n g"
  by (rule orders_frame) (simp_all add: auto_tune_batch_def Let_def)

lemma orders_flush:
  assumes "orders_ok qm ok n g" and "modest_strategy (en_strategy env)" and "n + 2 * max_commands < 2 ^ 64"
  shows "orders_ok qm ok (n + 2 * max_commands) (snd (flush_strategy env ts g))"
proof -
  let ?g1 = "g\<lparr>eg_active_batch_timer_id := None\<rparr>" and ?m = "2 * max_commands"
  have more: "orders_ok qm ok (n + ?m) g'" if "orders_ok qm ok k g'" "k \<le> n + ?m"
    for k and g' :: "('a, 'b, 'c, 'd, 'e) engine"
    using that by (rule orders_ok_more)
  obtain r g2 where f: "flush_callbacks env (context_new ts (eg_market g)) ?g1 = (r, g2)"
    by (cases "flush_callbacks env (context_new ts (eg_market g)) ?g1") auto
  obtain s t b where "g2 = ?g1\<lparr>eg_strategy := s, eg_tick_buffer := t, eg_report_buffer := b\<rparr>"
    using flush_callbacks_shape [of env "context_new ts (eg_market g)" ?g1] f by auto
  then have ok2: "orders_ok qm ok n g2" using assms(1) by simp
  have cmds: "orders_ok qm ok (n + ?m) (handle_commands (cx_commands cx) ts g2)" if "r = Inr cx" for cx
  proof -
    have len: "length (cx_commands cx) \<le> ?m"
      by (rule flush_callbacks_commands [OF assms(2) _ f [unfolded that]]) (simp add: context_new_def)
    have "orders_ok qm ok (n + length (cx_commands cx)) (handle_commands (cx_commands cx) ts g2)"
      using ok2 by (rule orders_handle_commands) (use assms(3) len in linarith)
    then show ?thesis by (rule more) (use len in simp)
  qed
  have "orders_ok qm ok (n + ?m) g" "orders_ok qm ok (n + ?m) g2"
    by (rule more [OF assms(1)], simp, rule more [OF ok2], simp)
  with cmds show ?thesis
    by (cases r) (auto simp: flush_strategy_def Let_def f into_commands_def orders_auto_tune)
qed

lemma orders_wakeup:
  assumes "orders_ok qm ok n g" and "modest_strategy (en_strategy env)" and "n + 2 * max_commands < 2 ^ 64"
  shows "orders_ok qm ok (n + 2 * max_commands) (snd (batch_wakeup env w g))"
proof -
  obtain r g1 where f: "flush_strategy env (eg_now_ts_sim g) g = (r, g1)"
    by (cases "flush_strategy env (eg_now_ts_sim g) g") auto
  have "orders_ok qm ok (n + 2 * max_commands) g1"
    using orders_flush [OF assms, of "eg_now_ts_sim g"] f by simp
  moreover have "orders_ok qm ok (n + 2 * max_commands) g"
    using assms(1) by (rule orders_ok_more) simp
  ultimately show ?thesis by (simp add: batch_wakeup_def f split: sum.split)
qed

text \<open>Ingestion only adds market events.\<close>

lemma feed_sound: "feed_event k \<Longrightarrow> event_sound g k" "feed_event k \<Longrightarrow> \<not> launches i k"
  by (cases k; simp add: feed_event_def event_sound_def)+

lemma orders_feed: "orders_ok qm ok n g \<Longrightarrow> feed_event k \<Longrightarrow> orders_ok qm ok n (push_event ts k g)"
  by (rule orders_push) (simp_all add: feed_sound)

lemma orders_sources [simp]:
  "orders_ok qm ok n (g\<lparr>eg_sources := a\<rparr>) = orders_ok qm ok n g"
  "orders_ok qm ok n (g\<lparr>eg_source_heap := h\<rparr>) = orders_ok qm ok n g"
  "orders_ok qm ok n (g\<lparr>eg_l3_sources := b\<rparr>) = orders_ok qm ok n g"
  "orders_ok qm ok n (g\<lparr>eg_l3_source_heap := h\<rparr>) = orders_ok qm ok n g"
  "orders_ok qm ok n (g\<lparr>eg_is_source_heap_initialized := i\<rparr>) = orders_ok qm ok n g"
  "orders_ok qm ok n (g\<lparr>eg_is_l3_source_heap_initialized := i\<rparr>) = orders_ok qm ok n g"
  by (rule orders_frame; simp)+

lemma orders_schedule: "orders_ok qm ok n g \<Longrightarrow> orders_ok qm ok n (schedule_tick t g)"
  by (simp add: schedule_tick_def Let_def orders_feed feed_event_def)

lemma orders_ingest_tick: "orders_ok qm ok n g \<Longrightarrow> orders_ok qm ok n (snd (ingest_tick env i g))"
  by (auto simp: ingest_tick_def Let_def intro!: orders_schedule split: prod.splits sum.splits option.splits)

lemma orders_ingest_l3: "orders_ok qm ok n g \<Longrightarrow> orders_ok qm ok n (snd (ingest_l3 env i g))"
  by (auto simp: ingest_l3_def Let_def feed_event_def intro!: orders_feed split: prod.splits sum.splits option.splits)

lemma orders_ingest_round:
  assumes "orders_ok qm ok n g" and "ingest_round env g = (r, g')"
  shows "orders_ok qm ok n g'"
proof -
  obtain r1 g1 where 1: "init_source_heap env g = (r1, g1)" by (cases "init_source_heap env g") auto
  obtain r2 g2 where 2: "init_l3_source_heap env g1 = (r2, g2)" by (cases "init_l3_source_heap env g1") auto
  have ok1: "orders_ok qm ok n g1"
    using 1 assms(1) by (auto simp: init_source_heap_def split: if_splits prod.splits sum.splits)
  then have ok2: "orders_ok qm ok n g2"
    using 2 by (auto simp: init_l3_source_heap_def split: if_splits prod.splits sum.splits)
  from ok2 have ok3: "orders_ok qm ok n (snd (ingest_tick env i g2))" "orders_ok qm ok n (snd (ingest_l3 env i g2))" for i
    by (rule orders_ingest_tick orders_ingest_l3)+
  have "g' = g1 \<or> g' = g2 \<or> (\<exists>i. g' = snd (ingest_tick env i g2)) \<or> (\<exists>i. g' = snd (ingest_l3 env i g2))"
    using assms(2) 1 2
    by (auto simp: ingest_round_def apfst_def map_prod_def case_prod_beta split: sum.splits due.splits)
  with ok1 ok2 ok3 show ?thesis by blast
qed

lemma orders_ingest: "ingest env g = Some (r, g') \<Longrightarrow> orders_ok qm ok n g \<Longrightarrow> orders_ok qm ok n g'"
  using ingest_rule [where I = "orders_ok qm ok n"] orders_ingest_round by blast

text \<open>The next step is sane when identifiers are not nearly used up and its event is sane.\<close>

definition next_is_sane ::
  "('s, 'e, 'rng, 'src, 'l3, 'te) engine_env \<Rightarrow> ('st, 's, 'rng, 'src, 'l3) engine \<Rightarrow> bool" where
  "next_is_sane env g \<longleftrightarrow>
     int (eg_next_order_id g) \<le> 9223372036854775808 \<and>
     (case ingest env g of
        Some (Inr _, g1) \<Rightarrow>
          (case eq_pop (eg_queue g1) of
             None \<Rightarrow> True
           | Some (ev, q) \<Rightarrow> sane_event (g1\<lparr>eg_queue := q, eg_now_ts_sim := ts_sim ev\<rparr>) (ev_kind ev))
      | _ \<Rightarrow> True)"

inductive sane_reach ::
  "('s, 'e, 'rng, 'src, 'l3, 'te) engine_env \<Rightarrow> 'st queue_model \<Rightarrow> ('st, 's, 'rng, 'src, 'l3) engine \<Rightarrow> bool"
  for env qm where
  sane_new: "sane_reach env qm (engine_new env qm s cfg)"
| sane_tick_source: "sane_reach env qm g \<Longrightarrow> sane_reach env qm (add_tick_source src g)"
| sane_l3_source: "sane_reach env qm g \<Longrightarrow> sane_reach env qm (add_l3_source env l3 g)"
| sane_push: "sane_reach env qm g \<Longrightarrow> feed_event k \<Longrightarrow> sane_reach env qm (push_event ts k g)"
| sane_step: "sane_reach env qm g \<Longrightarrow> next_is_sane env g \<Longrightarrow> engine_step env g = Some (r, g') \<Longrightarrow>
    sane_reach env qm g'"
| sane_flush: "sane_reach env qm g \<Longrightarrow> next_is_sane env g \<Longrightarrow>
    flush_strategy env (eg_now_ts_sim g) g = (r', g') \<Longrightarrow> sane_reach env qm g'"

lemma orders_tight: "orders_ok qm ok n g \<Longrightarrow> orders_ok qm ok (eg_next_order_id g) g"
  by (simp add: orders_ok_def)

context queue_laws begin

lemma orders_process:
  assumes "process_next env g = (r, g')" and inv: "orders_ok qm ok n g"
    and sane: "\<And>ev q. eq_pop (eg_queue g) = Some (ev, q) \<Longrightarrow>
      sane_event (g\<lparr>eg_queue := q, eg_now_ts_sim := ts_sim ev\<rparr>) (ev_kind ev)"
    and modest: "modest_strategy (en_strategy env)" and room: "n + 3 * max_commands < 2 ^ 64"
  shows "\<exists>m. orders_ok qm ok m g'"
proof (cases "eq_pop (eg_queue g)")
  case None
  with assms(1) inv show ?thesis by (auto simp: process_next_def)
next
  case (Some p)
  obtain ev q where p: "eq_pop (eg_queue g) = Some (ev, q)" using Some by (cases p) auto
  let ?g1 = "g\<lparr>eg_queue := q, eg_now_ts_sim := ts_sim ev\<rparr>"
  note pop = orders_pop [OF inv p]
  obtain h g2 where d: "dispatch env (ev_kind ev) ?g1 = (h, g2)" by (cases "dispatch env (ev_kind ev) ?g1") auto
  have ok2: "orders_ok qm ok (n + max_commands) g2"
    using orders_dispatch [OF pop(1,2) pop(3) sane [OF p] modest] room d by simp
  have "orders_ok qm ok (n + max_commands + 2 * max_commands) (snd (batch_wakeup env w g2))" for w
    using ok2 modest by (rule orders_wakeup) (use room in simp)
  with ok2 assms(1) p d show ?thesis
    by (cases h) (auto simp: process_next_def Let_def apfst_def map_prod_def case_prod_beta)
qed

lemma orders_step:
  assumes "engine_step env g = Some (r, g')" and "orders_ok qm ok n g" and "next_is_sane env g"
    and modest: "modest_strategy (en_strategy env)"
  shows "\<exists>m. orders_ok qm ok m g'"
proof -
  obtain ri g1 where i: "ingest env g = Some (ri, g1)" using assms(1) by (auto simp: engine_step_def split: option.splits)
  have ok1: "orders_ok qm ok (eg_next_order_id g) g1"
    using i orders_tight [OF assms(2)] by (rule orders_ingest)
  show ?thesis
  proof (cases ri)
    case (Inl e)
    with assms(1) i ok1 show ?thesis by (auto simp: engine_step_def)
  next
    case (Inr u)
    have proc: "process_next env g1 = (r, g')" using assms(1) i Inr by (simp add: engine_step_def)
    have room: "eg_next_order_id g + 3 * max_commands < 2 ^ 64" using assms(3) by (simp add: next_is_sane_def)
    show ?thesis
      by (rule orders_process [OF proc ok1 _ modest room])
        (use assms(3) i Inr in \<open>simp add: next_is_sane_def\<close>)
  qed
qed

lemma sane_reach_orders:
  assumes "sane_reach env qm g" and modest: "modest_strategy (en_strategy env)"
  shows "\<exists>n. orders_ok qm ok n g"
  using assms(1)
proof (induction rule: sane_reach.induct)
  case (sane_new s cfg)
  have "orders_ok qm ok 1 (engine_new env qm s cfg)"
    by (simp add: orders_ok_def engine_new_def venue_orders_def)
  then show ?case ..
next
  case (sane_tick_source g src)
  then show ?case by (simp add: add_tick_source_def)
next
  case (sane_l3_source g l3)
  then show ?case by (simp add: add_l3_source_def)
next
  case (sane_push g k ts)
  then show ?case using orders_feed by blast
next
  case (sane_step g r g')
  then show ?case using orders_step modest by blast
next
  case (sane_flush g r' g')
  from sane_flush.IH obtain n where "orders_ok qm ok n g" ..
  moreover have "eg_next_order_id g + 2 * max_commands < 2 ^ 64"
    using sane_flush.hyps(2) by (simp add: next_is_sane_def)
  ultimately have "orders_ok qm ok (eg_next_order_id g + 2 * max_commands)
      (snd (flush_strategy env (eg_now_ts_sim g) g))"
    using modest by (intro orders_flush orders_tight)
  with sane_flush.hyps(3) show ?case by auto
qed

end

section \<open>Every venue inside every engine is sound\<close>

text \<open>
  C3. The engine respects its venues, in every state that \<open>sane_reach\<close> allows: any feed and any strategy
  and any order of events, as long as no order, trade or depth update carries a negative or overflowing
  quantity, a callback sends at most \<open>max_commands\<close> commands, and the counter of identifiers has not
  reached \<open>2 ^ 63\<close>. Then the next identifier is above every identifier at a venue or in the queue, at most
  one submission or acknowledgement of an identifier is queued, an order is acknowledged only while it is
  still pending, and an order that is on its way to the venue is not there yet. So in every venue the
  quantities of every order add up and the index of orders is exact.
\<close>

theorem engine_orders_sound:
  assumes "queue_laws qm ok" and "modest_strategy (en_strategy env)" and "sane_reach env qm g"
    and "hm_get (eg_exchanges g) symbol_id = Some x"
  shows "(get_order x i = Some ord \<and> get_order_state x i = Some st \<and>
        get_filled_qty x i = Some f \<and> get_remaining_qty x i = Some r \<longrightarrow>
      0 \<le> f \<and> 0 \<le> r \<and> f + r = od_qty ord \<and> od_order_id ord = i \<and> (st = Filled \<longrightarrow> r = 0)) \<and>
    (i \<in> set (ex_bucket x (price, sd)) \<longleftrightarrow>
      (\<exists>ord. get_order x i = Some ord \<and> od_price ord = price \<and> od_side ord = sd)) \<and>
    (\<forall>ev\<in>#eq_events (eg_queue g).
      (ev_kind ev = OrderAck i \<longrightarrow> i < eg_next_order_id g \<and> get_order_state x i \<in> {None, Some PendingNew}) \<and>
      (\<forall>ord. ev_kind ev = OrderEvent ord \<longrightarrow>
        od_order_id ord < eg_next_order_id g \<and> get_order x (od_order_id ord) = None)) \<and>
    (get_order x i \<noteq> None \<longrightarrow> i < eg_next_order_id g) \<and>
    size {#ev \<in># eq_events (eg_queue g). launches i (ev_kind ev)#} \<le> 1"
proof -
  obtain n where ok: "orders_ok qm ok n g"
    using queue_laws.sane_reach_orders [OF assms(1,3,2)] ..
  then have inv: "ex_inv qm ok x" using assms(4) by (simp add: orders_ok_def)
  have idx: "index_inv x" using inv by (rule ex_invD)
  have live: "live \<in> venue_orders g j" if "bt_get (ex_orders x) j = Some live" for j live
    using assms(4) that by (auto simp: venue_orders_def)
  have counts: "0 \<le> f \<and> 0 \<le> r \<and> f + r = od_qty ord \<and> od_order_id ord = i \<and> (st = Filled \<longrightarrow> r = 0)"
    if "get_order x i = Some ord \<and> get_order_state x i = Some st \<and>
        get_filled_qty x i = Some f \<and> get_remaining_qty x i = Some r"
  proof -
    from that obtain l where "bt_get (ex_orders x) i = Some l" by (auto simp: get_order_def)
    with that ex_invD(5,6) [OF inv this] show ?thesis
      by (auto simp: order_inv_def get_order_def get_order_state_def get_filled_qty_def get_remaining_qty_def)
  qed
  have index: "i \<in> set (ex_bucket x (price, sd)) \<longleftrightarrow>
      (\<exists>ord. get_order x i = Some ord \<and> od_price ord = price \<and> od_side ord = sd)"
    by (auto simp: index_inv_mem [OF idx] get_order_def bucket_key_def)
  have events: "(ev_kind ev = OrderAck i \<longrightarrow> i < eg_next_order_id g \<and> get_order_state x i \<in> {None, Some PendingNew}) \<and>
      (\<forall>ord. ev_kind ev = OrderEvent ord \<longrightarrow>
        od_order_id ord < eg_next_order_id g \<and> get_order x (od_order_id ord) = None)"
    if "ev \<in># eq_events (eg_queue g)" for ev
  proof -
    have "event_sound g (ev_kind ev)" using ok that by (simp add: orders_ok_def)
    moreover have "bt_get (ex_orders x) j = None" if "venue_orders g j = {}" for j
      using live [where j = j] that by (cases "bt_get (ex_orders x) j") auto
    ultimately show ?thesis
      using live [where j = i]
      by (cases "bt_get (ex_orders x) i") (auto simp: event_sound_def get_order_state_def get_order_def)
  qed
  have below: "i < eg_next_order_id g" if known: "get_order x i \<noteq> None"
  proof (rule ccontr)
    assume "\<not> i < eg_next_order_id g"
    then have "venue_orders g i = {}" using ok by (simp add: orders_ok_def)
    then show False using live [where j = i] known by (auto simp: get_order_def)
  qed
  have once: "size {#ev \<in># eq_events (eg_queue g). launches i (ev_kind ev)#} \<le> 1"
    using ok by (simp add: orders_ok_def)
  show ?thesis
    by (rule conjI [OF impI [OF counts] conjI [OF index conjI [OF ballI [OF events] conjI [OF impI [OF below] once]]]])
qed

text \<open>The sample strategy is modest, and its run is sane.\<close>

lemma sample_modest: "modest_strategy (en_strategy sample_env)"
proof -
  have tick: "few_commands buy_once" and report: "few_commands ignore_report"
    by (auto simp: few_commands_def buy_once_def ignore_report_def cx_submit_order_def)
  have "few_commands (each_callback ignore_report)"
  proof -
    have "each_callback ignore_report rs cx s = (Inr (), cx, s)" for rs cx s
      by (induction rs) (simp_all add: ignore_report_def)
    then show ?thesis by (simp add: few_commands_def)
  qed
  moreover have "few_commands (each_callback buy_once)"
  proof -
    have "each_callback buy_once ts cx True = (Inr (), cx, True)" for ts cx
      by (induction ts) (simp_all add: buy_once_def)
    then have "each_callback buy_once ts cx s = (r, cx', s') \<Longrightarrow>
        length (cx_commands cx') \<le> Suc (length (cx_commands cx))" for ts cx s r cx' s'
      by (cases ts; cases s) (auto simp: buy_once_def cx_submit_order_def)
    then show ?thesis by (fastforce simp: few_commands_def)
  qed
  ultimately show ?thesis
    using tick report
    by (simp add: modest_strategy_def sample_env_def strategy_with_defaults_def few_commands_def default_on_funding_def)
qed

fun steps_sane :: "nat \<Rightarrow> ('s, 'e, 'rng, 'src, 'l3, 'te) engine_env \<Rightarrow>
    ('st, 's, 'rng, 'src, 'l3) engine \<Rightarrow> bool" where
  "steps_sane 0 env g \<longleftrightarrow> True"
| "steps_sane (Suc n) env g \<longleftrightarrow>
     next_is_sane env g \<and> (case engine_step env g of None \<Rightarrow> True | Some (_, g') \<Rightarrow> steps_sane n env g')"

lemma run_steps_sane:
  "sane_reach env qm g \<Longrightarrow> steps_sane n env g \<Longrightarrow> sane_reach env qm (run_steps n env g)"
  by (induction n arbitrary: g) (auto split: option.splits intro: sane_step)

lemma sample_sane: "sane_reach sample_env conservative_queue sample_engine"
  unfolding sample_engine_def by (intro sane_tick_source sane_new)

theorem engine_orders_sound_witness:
  "\<exists>x ord. hm_get (eg_exchanges (run_steps 5 sample_env sample_engine)) 1 = Some x \<and>
     get_order x 1 = Some ord \<and> get_filled_qty x 1 = Some 3 \<and> od_qty ord = 3 + 2"
proof -
  let ?g = "run_steps 5 sample_env sample_engine"
  have "steps_sane 5 sample_env sample_engine" by code_simp
  with sample_sane have reach: "sane_reach sample_env conservative_queue ?g" by (rule run_steps_sane)
  have "map_option (\<lambda>x. (get_order x 1 \<noteq> None, get_order_state x 1, get_filled_qty x 1, get_remaining_qty x 1))
      (hm_get (eg_exchanges ?g) 1) = Some (True, Some PartiallyFilled, Some 3, Some 2)"
    by code_simp
  then obtain x ord where x: "hm_get (eg_exchanges ?g) 1 = Some x"
    and o: "get_order x 1 = Some ord \<and> get_order_state x 1 = Some PartiallyFilled \<and>
      get_filled_qty x 1 = Some 3 \<and> get_remaining_qty x 1 = Some 2"
    by auto
  from conjunct1 [OF engine_orders_sound [OF conservative.queue_laws_axioms sample_modest reach x]] o
  have "3 + 2 = od_qty ord" by blast
  with x o show ?thesis by auto
qed

end
