(* ===== verification/EngineProps.thy ===== *)
theory EngineProps
  imports EngineInv EngineSamples StatsProps
begin

text \<open>
  What no run of the engine can violate, whatever the strategy, the latencies and the data: the
  limit on open orders, the agreement of the risk guard with the trade log, the effect of the
  kill switch, and the separation of the two depth modes; and what an event for an unknown order
  does to a pending batch.
\<close>

lemma user_books_same: "books_same g (add_tick_source src g)" "books_same g (add_l3_source env l3 g)"
  by (simp_all add: books_same_def add_tick_source_def add_l3_source_def)

lemma eg_reach_invariant:
  assumes reach: "eg_reach env g"
    and new: "\<And>qm s cfg. I (engine_new env qm s cfg)"
    and same: "\<And>g g'. I g \<Longrightarrow> books_same g g' \<Longrightarrow> I g'"
    and pop: "\<And>g q n ev. I g \<Longrightarrow> eq_pop (eg_queue g) = Some (ev, q) \<Longrightarrow> I (g\<lparr>eg_queue := q, eg_now_ts_sim := n\<rparr>)"
    and act: "\<And>g g'. I g \<Longrightarrow> engine_act False g g' \<Longrightarrow> I g'"
  shows "I g"
  using reach
proof (induction rule: eg_reach.induct)
  case (reach_new qm s cfg)
  show ?case by (rule new)
next
  case (reach_tick_source g src)
  from reach_tick_source.IH user_books_same(1) show ?case by (rule same)
next
  case (reach_l3_source g l3)
  from reach_l3_source.IH user_books_same(2) show ?case by (rule same)
next
  case (reach_push g k ts)
  have "books_same g (push_event ts k g)"
    using reach_push.hyps(2) by (intro push_books_same) (simp add: feed_event_def)
  with reach_push.IH show ?case by (rule same)
next
  case (reach_step g r g')
  show ?case by (rule step_invariant [where I = I, OF same pop act reach_step.hyps(2) reach_step.IH])
next
  case (reach_flush g r' g')
  show ?case by (rule flush_invariant [where I = I, OF act reach_flush.hyps(2) reach_flush.IH])
qed

text \<open>The engine of the samples, after any number of steps.\<close>

lemma run_steps_reach: "eg_reach env g \<Longrightarrow> eg_reach env (run_steps n env g)"
  by (induction n arbitrary: g) (auto split: option.split intro: reach_step)

lemma sample_reach: "eg_reach sample_env (run_steps n sample_env sample_engine)"
  unfolding sample_engine_def by (intro run_steps_reach reach_tick_source reach_new)

section \<open>Open orders\<close>

definition open_orders_ok :: "('st, 's, 'rng, 'src, 'l3) engine \<Rightarrow> bool" where
  "open_orders_ok g \<longleftrightarrow>
     (rg_max_open_orders (eg_risk_guard g) > 0 \<longrightarrow>
        hm_len (eg_order_symbol_by_id g) \<le> rg_max_open_orders (eg_risk_guard g))"

lemma book_guard [simp]:
  "eg_order_symbol_by_id (book_fill ts ord q p fee g) = eg_order_symbol_by_id g"
  "eg_order_symbol_by_id (book_funding ev mark g) = eg_order_symbol_by_id g"
  "rg_max_open_orders (eg_risk_guard (book_fill ts ord q p fee g)) = rg_max_open_orders (eg_risk_guard g)"
  "rg_max_open_orders (eg_risk_guard (book_funding ev mark g)) = rg_max_open_orders (eg_risk_guard g)"
  by (simp_all add: book_fill_def book_funding_def case_prod_beta Let_def)

lemma check_order_count:
  "check_order rg ord n pos = None \<Longrightarrow> 0 < rg_max_open_orders rg \<Longrightarrow> n < rg_max_open_orders rg"
  by (auto simp: check_order_def split: if_splits)

lemma open_orders_act:
  assumes "open_orders_ok g" and "engine_act timed g g'"
  shows "open_orders_ok g'"
  using assms(2,1)
proof cases
  case (act_submit ord pos ts)
  then show ?thesis
    using assms(1) check_order_count [OF act_submit(3)]
      hm_len_insert_le [of "eg_next_order_id g" "od_symbol_id ord" "eg_order_symbol_by_id g"]
    by (auto simp: open_orders_ok_def)
next
  case (act_forget i)
  then show ?thesis
    using assms(1) hm_len_remove_le [of i "eg_order_symbol_by_id g"] by (auto simp: open_orders_ok_def)
qed (use assms(1) in \<open>auto simp: open_orders_ok_def quiet_def log_fill_def\<close>)

text \<open>
  C7. With a limit on open orders, the engine never routes more orders than the limit allows:
  in no state it can reach does the table of open orders hold more entries.
\<close>

theorem open_orders_bounded:
  assumes "eg_reach env g" and "0 < rg_max_open_orders (eg_risk_guard g)"
  shows "hm_len (eg_order_symbol_by_id g) \<le> rg_max_open_orders (eg_risk_guard g)"
proof -
  have "open_orders_ok g"
  proof (rule eg_reach_invariant [where I = open_orders_ok, OF assms(1) _ _ _ open_orders_act], goal_cases)
    case (1 qm s cfg)
    show ?case by (simp add: open_orders_ok_def engine_new_def hm_len_def)
  qed (simp_all add: open_orders_ok_def books_same_def)
  with assms(2) show ?thesis by (simp add: open_orders_ok_def)
qed

theorem open_orders_bounded_witness:
  "hm_len (eg_order_symbol_by_id (run_steps 2 sample_env sample_engine)) = 1 \<and>
   hm_len (eg_order_symbol_by_id (run_steps 2 sample_env sample_engine)) \<le> 2"
proof -
  have "rg_max_open_orders (eg_risk_guard (run_steps 2 sample_env sample_engine)) = 2 \<and>
      hm_len (eg_order_symbol_by_id (run_steps 2 sample_env sample_engine)) = 1"
    by code_simp
  with open_orders_bounded [OF sample_reach [of 2]] show ?thesis by simp
qed

section \<open>The kill switch and the trade log\<close>

text \<open>
  The risk guard has seen exactly the PnL changes of the log, in the same order.
\<close>

definition guard_follows_log :: "('st, 's, 'rng, 'src, 'l3) engine \<Rightarrow> bool" where
  "guard_follows_log g \<longleftrightarrow>
     (tl_mode (eg_trade_log g) \<noteq> LogNone \<longrightarrow>
        (\<exists>a b c. eg_risk_guard g =
           fold update_pnl (map snd (tl_pnl_history (eg_trade_log g))) (risk_guard_new a b c)) \<and>
        is_total_pnl (tl_incremental (eg_trade_log g)) = rg_running_pnl (eg_risk_guard g))"

lemma push_pnl_delta_fields:
  "tl_mode (push_pnl_delta ts d l) = tl_mode l"
  "tl_mode l \<noteq> LogNone \<Longrightarrow> tl_pnl_history (push_pnl_delta ts d l) = tl_pnl_history l @ [(ts, d)]"
  "tl_mode l \<noteq> LogNone \<Longrightarrow> is_total_pnl (tl_incremental (push_pnl_delta ts d l)) =
     saturating_add (is_total_pnl (tl_incremental l)) d"
  by (auto simp: push_pnl_delta_def update_incremental_pnl_def inc_on_pnl_def inc_drawdown_def
      inc_moments_def inc_sums_def Let_def)

lemma push_pnl_event_fields:
  "tl_mode (push_pnl_event ev l) = tl_mode l"
  "tl_mode l \<noteq> LogNone \<Longrightarrow> tl_pnl_history (push_pnl_event ev l) = tl_pnl_history l @ [(pe_ts_exchange ev, pe_pnl ev)]"
  "tl_mode l \<noteq> LogNone \<Longrightarrow> is_total_pnl (tl_incremental (push_pnl_event ev l)) =
     saturating_add (is_total_pnl (tl_incremental l)) (pe_pnl ev)"
  by (auto simp: push_pnl_event_def update_incremental_pnl_def inc_on_pnl_def inc_drawdown_def
      inc_moments_def inc_sums_def Let_def)

lemma push_fill_fields:
  "tl_mode (push_fill f l) = tl_mode l" "tl_pnl_history (push_fill f l) = tl_pnl_history l"
  "is_total_pnl (tl_incremental (push_fill f l)) = is_total_pnl (tl_incremental l)"
  by (auto simp: push_fill_def update_incremental_fill_def inc_on_fill_def Let_def
      split: trade_log_mode.split)

lemma guard_follows_act:
  assumes "guard_follows_log g" and "engine_act timed g g'"
  shows "guard_follows_log g'"
  using assms(2,1)
proof cases
  case (act_book ts ord q p fee)
  then show ?thesis
    using assms(1)
    by (auto simp: guard_follows_log_def book_fill_def push_pnl_delta_fields case_prod_beta Let_def) blast
next
  case (act_funding ev mark)
  then show ?thesis
    using assms(1)
    by (auto simp: guard_follows_log_def book_funding_def push_pnl_event_fields case_prod_beta Let_def) blast
qed (use assms(1) in \<open>auto simp: guard_follows_log_def quiet_def log_fill_def push_fill_fields\<close>)

lemma guard_follows_new: "guard_follows_log (engine_new env qm s cfg)"
  by (auto simp: guard_follows_log_def engine_new_def trade_log_new_def incremental_default_def
      risk_guard_new_def)

lemma reach_guard_follows: "eg_reach env g \<Longrightarrow> guard_follows_log g"
  by (rule eg_reach_invariant [where I = guard_follows_log, OF _ guard_follows_new _ _ guard_follows_act])
    (simp_all add: guard_follows_log_def books_same_def)

lemma equity_curve_running: "map snd (equity_loop r ds) = running_pnls r (map snd ds)"
  by (induction ds arbitrary: r) (auto simp: Let_def)

text \<open>
  C6. In every engine that keeps a trade log, in any mode but \<open>LogNone\<close>: the kill switch is on exactly
  when the loss limit is below zero and the equity curve of the engine's own log has touched the limit at
  some point, net of fees and funding; and the total PnL of the statistics is the PnL the risk guard
  watches. Without a log there is no history to compare with, and the guard works on its own.
\<close>

theorem killed_iff_equity_hit_limit:
  assumes "eg_reach env g" and "tl_mode (eg_trade_log g) \<noteq> LogNone"
  shows "(is_killed (eg_risk_guard g) \<longleftrightarrow>
      rg_max_loss (eg_risk_guard g) < 0 \<and>
      (\<exists>p\<in>set (equity_curve_from_pnl_deltas (tl_pnl_history (eg_trade_log g))).
         snd p \<le> rg_max_loss (eg_risk_guard g))) \<and>
    is_total_pnl (tl_incremental (eg_trade_log g)) = rg_running_pnl (eg_risk_guard g)"
proof -
  let ?ds = "map snd (tl_pnl_history (eg_trade_log g))"
  from reach_guard_follows [OF assms(1)] assms(2)
  obtain a b c where rg: "eg_risk_guard g = fold update_pnl ?ds (risk_guard_new a b c)"
    and total: "is_total_pnl (tl_incremental (eg_trade_log g)) = rg_running_pnl (eg_risk_guard g)"
    by (auto simp: guard_follows_log_def)
  have limit: "rg_max_loss (eg_risk_guard g) = c" by (simp add: rg fold_update_limits risk_guard_new_def)
  have "running_pnls 0 ?ds = map snd (equity_curve_from_pnl_deltas (tl_pnl_history (eg_trade_log g)))"
    by (simp add: equity_curve_from_pnl_deltas_def equity_curve_running)
  then have "(\<exists>r\<in>set (running_pnls 0 ?ds). r \<le> c) \<longleftrightarrow>
      (\<exists>p\<in>set (equity_curve_from_pnl_deltas (tl_pnl_history (eg_trade_log g))). snd p \<le> c)"
    by simp
  moreover have "is_killed (eg_risk_guard g) \<longleftrightarrow> c < 0 \<and> (\<exists>r\<in>set (running_pnls 0 ?ds). r \<le> c)"
    by (simp add: is_killed_def rg fold_update_killed) (simp add: risk_guard_new_def)
  ultimately show ?thesis using total unfolding limit by blast
qed

text \<open>
  The sample engine with a fee that turns a single fill into a loss beyond the limit. The floats of the
  statistics, which play no part here, are left unevaluated.
\<close>

definition fee_engine :: sample_engine where
  "fee_engine =
     add_tick_source [sell_tick 100 0, sell_tick 110 1, sell_tick 120 2]
       (engine_new sample_env conservative_queue False (sample_config\<lparr>cf_maker_fee_bps := 1000000000000\<rparr>))"

declare inc_on_pnl_def [code del]

lemma fee_engine_runs:
  "tl_mode (eg_trade_log (run_steps 4 sample_env fee_engine)) = LogAll"
  "tl_pnl_history (eg_trade_log (run_steps 4 sample_env fee_engine)) = []"
  "tl_mode (eg_trade_log (run_steps 5 sample_env fee_engine)) = LogAll"
  "map snd (equity_curve_from_pnl_deltas (tl_pnl_history (eg_trade_log (run_steps 5 sample_env fee_engine)))) = [- 300]"
  "rg_max_loss (eg_risk_guard (run_steps 5 sample_env fee_engine)) = - 50"
  "rg_running_pnl (eg_risk_guard (run_steps 5 sample_env fee_engine)) = - 300"
  by code_simp+

declare inc_on_pnl_def [code]

theorem killed_iff_equity_hit_limit_witness:
  "\<not> is_killed (eg_risk_guard (run_steps 4 sample_env fee_engine)) \<and>
   is_killed (eg_risk_guard (run_steps 5 sample_env fee_engine)) \<and>
   is_total_pnl (tl_incremental (eg_trade_log (run_steps 5 sample_env fee_engine))) = - 300"
proof -
  let ?g = "\<lambda>n. run_steps n sample_env fee_engine"
  have reach: "eg_reach sample_env (?g n)" for n
    unfolding fee_engine_def by (intro run_steps_reach reach_tick_source reach_new)
  have "\<exists>p\<in>set (equity_curve_from_pnl_deltas (tl_pnl_history (eg_trade_log (?g 5)))).
      snd p \<le> rg_max_loss (eg_risk_guard (?g 5))"
    using fee_engine_runs(4,5) by auto
  then show ?thesis
    using killed_iff_equity_hit_limit [OF reach [of 4]] killed_iff_equity_hit_limit [OF reach [of 5]] fee_engine_runs
    by (simp add: equity_curve_from_pnl_deltas_def)
qed

section \<open>Orders after the kill\<close>

definition order_events :: "('st, 's, 'rng, 'src, 'l3) engine \<Rightarrow> event set" where
  "order_events g = {ev \<in> set_mset (eq_events (eg_queue g)). \<exists>ord. ev_kind ev = OrderEvent ord}"

definition no_new_orders :: "('st, 's, 'rng, 'src, 'l3) engine \<Rightarrow> ('st, 's, 'rng, 'src, 'l3) engine \<Rightarrow> bool" where
  "no_new_orders g g' \<longleftrightarrow>
     is_killed (eg_risk_guard g') \<and> order_events g' \<subseteq> order_events g \<and>
     (\<forall>i. hm_get (eg_order_symbol_by_id g) i = None \<longrightarrow> hm_get (eg_order_symbol_by_id g') i = None)"

lemma book_fill_fields [simp]:
  "eg_queue (book_fill ts ord q p fee g) = eg_queue g"
  "eg_queue (book_funding ev mark g) = eg_queue g"
  by (simp_all add: book_fill_def book_funding_def case_prod_beta Let_def)

lemma book_killed:
  "rg_killed (eg_risk_guard g) \<Longrightarrow> rg_killed (eg_risk_guard (book_fill ts ord q p fee g))"
  "rg_killed (eg_risk_guard g) \<Longrightarrow> rg_killed (eg_risk_guard (book_funding ev mark g))"
  by (simp_all add: book_fill_def book_funding_def case_prod_beta Let_def update_pnl_killed)

lemma reaction_not_order: "reaction k \<Longrightarrow> k \<noteq> OrderEvent ord"
  by auto

lemma push_order_events:
  "(\<And>ord. k \<noteq> OrderEvent ord) \<Longrightarrow> order_events (push_event ts k g) = order_events g"
  by (auto simp: order_events_def)

lemma killed_act:
  assumes "no_new_orders g0 g" and "engine_act False g g'"
  shows "no_new_orders g0 g'"
  using assms(2,1)
proof cases
  case (act_submit ord pos ts)
  then show ?thesis using assms(1) by (auto simp: no_new_orders_def is_killed_def check_order_def)
next
  case (act_push kind ts)
  then show ?thesis using assms(1) push_order_events [of kind ts g] reaction_not_order
    by (auto simp: no_new_orders_def)
qed (use assms(1) in \<open>auto simp: no_new_orders_def is_killed_def quiet_def log_fill_def
       order_events_def book_killed\<close>)

text \<open>
  C8. Once the kill switch is on, no step lets an order through: the strategy may go on
  submitting, but no order enters the event queue or the table of open orders, and the switch
  stays on.
\<close>

theorem killed_engine_takes_no_orders:
  assumes "is_killed (eg_risk_guard g)" and "engine_step env g = Some (r, g')"
  shows "is_killed (eg_risk_guard g') \<and> order_events g' \<subseteq> order_events g \<and>
    (\<forall>i. hm_get (eg_order_symbol_by_id g) i = None \<longrightarrow> hm_get (eg_order_symbol_by_id g') i = None)"
proof -
  have "no_new_orders g g'"
  proof (rule step_invariant [where I = "no_new_orders g", OF _ _ _ assms(2)], goal_cases)
    case (1 g1 g2)
    then show ?case by (auto simp: no_new_orders_def books_same_def order_events_def)
  next
    case (2 g1 q n ev)
    then show ?case using eq_pop_events [OF 2(2)] by (auto simp: no_new_orders_def order_events_def)
  next
    case (3 g1 g2)
    then show ?case by (rule killed_act)
  next
    case 4
    from assms(1) show ?case by (simp add: no_new_orders_def)
  qed
  then show ?thesis by (simp add: no_new_orders_def)
qed

definition killed_engine :: sample_engine where
  "killed_engine = sample_engine\<lparr>eg_risk_guard := (eg_risk_guard sample_engine)\<lparr>rg_killed := True\<rparr>\<rparr>"

theorem killed_engine_takes_no_orders_witness:
  "\<exists>r g'. engine_step sample_env (run_steps 1 sample_env killed_engine) = Some (r, g') \<and>
     hm_get (eg_order_symbol_by_id g') 1 = None"
proof -
  let ?g = "run_steps 1 sample_env killed_engine"
  have "rg_killed (eg_risk_guard ?g) \<and> hm_get (eg_order_symbol_by_id ?g) 1 = None \<and>
      engine_step sample_env ?g \<noteq> None"
    by code_simp
  then obtain r g' where k: "is_killed (eg_risk_guard ?g)" "hm_get (eg_order_symbol_by_id ?g) 1 = None"
    and s: "engine_step sample_env ?g = Some (r, g')"
    by (auto simp: is_killed_def)
  from killed_engine_takes_no_orders [OF k(1) s] k(2) have "hm_get (eg_order_symbol_by_id g') 1 = None"
    by blast
  with s show ?thesis by blast
qed

section \<open>Events of unknown orders\<close>

text \<open>
  An acknowledgement or a cancel request for an order the engine no longer routes moves the
  clock and nothing else. In batch mode this includes the wake-up check: a batch that was
  deferred because this event shared its time stays in the buffers, although no other event of
  that time is left, and is only handed to the strategy at a later event's time.
\<close>

theorem unknown_order_skips_wakeup:
  assumes "eq_pop (eg_queue g) = Some (ev, q)" and "ev_kind ev = OrderAck i \<or> ev_kind ev = OrderCancel i"
    and "hm_get (eg_order_symbol_by_id g) i = None"
  shows "process_next env g = (Inr (Some ev), g\<lparr>eg_queue := q, eg_now_ts_sim := ts_sim ev\<rparr>)"
  using assms by (auto simp: process_next_def dispatch_def handle_order_ack_def handle_order_cancel_def)

definition sample_report :: order_report where
  "sample_report = \<lparr>rp_order_id = 1, rp_client_order_id = 7, rp_last_fill_qty = 0,
     rp_last_fill_price = 0, rp_filled_qty = 0, rp_remaining_qty = 5, rp_reason = None,
     rp_symbol_id = 1, rp_status = Open\<rparr>"

definition deferred_engine :: sample_engine where
  "deferred_engine = (push_event 100 (OrderCancel 9) (engine_new sample_env conservative_queue False
     (sample_config\<lparr>cf_mode := BatchMode\<rparr>)))
     \<lparr>eg_report_buffer := [sample_report], eg_pending_wakeup := True, eg_now_ts_sim := 100\<rparr>"

theorem unknown_order_skips_wakeup_witness:
  "eg_report_buffer (snd (process_next sample_env deferred_engine)) = [sample_report] \<and>
   eg_pending_wakeup (snd (process_next sample_env deferred_engine)) \<and>
   eq_peek (eg_queue (snd (process_next sample_env deferred_engine))) = None"
proof -
  let ?ev = "\<lparr>ev_id = EventId 100 0, ev_kind = OrderCancel 9\<rparr>"
  have pop: "eq_pop (eg_queue deferred_engine) = Some (?ev, eq_new)"
    and known: "hm_get (eg_order_symbol_by_id deferred_engine) 9 = None"
    by code_simp+
  have "eg_report_buffer deferred_engine = [sample_report] \<and> eg_pending_wakeup deferred_engine"
    by (simp add: deferred_engine_def)
  with unknown_order_skips_wakeup [OF pop _ known, of sample_env] show ?thesis
    by (simp add: eq_peek_def eq_new_def)
qed

section \<open>Depth modes\<close>

text \<open>
  The two kinds of depth data exclude each other per symbol: an L2 update of a symbol with L3
  depth and an L3 update of a symbol with L2 depth end the run with an error that names the
  symbol, and leave the books as they are.
\<close>

theorem mixed_depth_refused:
  "(l2_symbol_id u \<in> eg_l3_depth_symbols g \<longrightarrow>
      dispatch env (L2UpdateEvent u) g =
        (Failed (Internal (''mixed L2/L3 depth for symbol_id '' @ show_nat (l2_symbol_id u))), g)) \<and>
   (l3_symbol_id v \<in> eg_l2_depth_symbols g \<longrightarrow>
      dispatch env (L3UpdateEvent v) g =
        (Failed (Internal (''mixed L2/L3 depth for symbol_id '' @ show_nat (l3_symbol_id v))), g))"
  by (simp add: dispatch_def handle_l2_update_def handle_l3_update_def mark_l2_depth_def
      mark_l3_depth_def mixed_depth_def)

theorem mixed_depth_refused_witness:
  "fst (dispatch sample_env (L2UpdateEvent \<lparr>l2_ts_exchange = 0, l2_seq = 0, l2_price = 1, l2_qty = 1,
      l2_symbol_id = 42, l2_side = Buy\<rparr>) (sample_engine\<lparr>eg_l3_depth_symbols := {42}\<rparr>)) =
   Failed (Internal ''mixed L2/L3 depth for symbol_id 42'')"
proof -
  have "show_nat 42 = ''42''" by code_simp
  then show ?thesis
    using mixed_depth_refused [of "\<lparr>l2_ts_exchange = 0, l2_seq = 0, l2_price = 1, l2_qty = 1,
      l2_symbol_id = 42, l2_side = Buy\<rparr>" "sample_engine\<lparr>eg_l3_depth_symbols := {42}\<rparr>" sample_env]
    by simp
qed

text \<open>
  An L3 update that reaches the engine through \<open>push_event\<close>, without a registered L3 source, fails
  when any other event of its symbol has already created the exchange in L2 mode.
\<close>

lemma late_l3_update_fails:
  assumes "hm_get (eg_exchanges g) (l3_symbol_id u) = Some x" and "ex_book_l3 x = None"
    and "l3_symbol_id u \<notin> eg_l2_depth_symbols g"
  shows "fst (dispatch env (L3UpdateEvent u) g) = Failed (Internal ''exchange is not in L3 depth mode'')"
  using assms
  by (simp add: dispatch_def handle_l3_update_def mark_l3_depth_def with_exchange_def
      exchange_entry_def apply_l3_update_def Let_def)

end
