(* ===== verification/EngineLedger.thy ===== *)
theory EngineLedger
  imports EngineOrders EngineProps
begin

text \<open>
  The account and the trade log are written side by side, by the same two handlers, and never
  compared. Here they are: in every engine the position the account shows is the sum of the fills in
  the log, and every entry of the PnL history is what the statistics make of a logged fill, less its
  fee, or a funding payment. A trade logs all of its fills before it books them, so this holds between
  steps, not between acts; \<open>books\<close> is what the two handlers write and all others leave alone.
\<close>

section \<open>The sum of the logged fills\<close>

definition add_logged :: "u32 \<Rightarrow> trade_fill \<Rightarrow> i64 \<Rightarrow> i64" where
  "add_logged s f q =
     (if tf_symbol_id f = s then saturating_add q (signed_qty (tf_side f) (tf_qty f)) else q)"

definition logged_qty :: "u32 \<Rightarrow> trade_fill list \<Rightarrow> i64" where
  "logged_qty s fills = fold (add_logged s) fills 0"

definition positions_logged :: "('st, 's, 'rng, 'src, 'l3) engine \<Rightarrow> bool" where
  "positions_logged g \<longleftrightarrow>
     (tl_mode (eg_trade_log g) = LogAll \<longrightarrow>
       (\<forall>s. position_qty (eg_account g) s = logged_qty s (fills_vec (eg_trade_log g))))"

section \<open>The PnL of the logged fills\<close>

text \<open>The positions of the statistics after some fills, and the entries these fills make.\<close>

definition pos_after :: "(u32, pos_state) btree \<Rightarrow> trade_fill list \<Rightarrow> (u32, pos_state) btree" where
  "pos_after m fills = fold (\<lambda>f m. snd (pnl_delta_step f m)) fills m"

definition net_entries :: "(u32, pos_state) btree \<Rightarrow> trade_fill list \<Rightarrow> (ts_exchange_ns \<times> i64) list" where
  "net_entries m fills =
     map2 (\<lambda>f d. (tf_ts_exchange f, saturating_sub (pd_pnl d) (tf_fee f))) fills (pnl_deltas_loop fills m)"

definition net_pnl_entries :: "trade_fill list \<Rightarrow> (ts_exchange_ns \<times> i64) list" where
  "net_pnl_entries fills =
     map2 (\<lambda>f d. (tf_ts_exchange f, saturating_sub (pd_pnl d) (tf_fee f))) fills (pnl_deltas_from_fills fills)"

definition pnl_logged :: "('st, 's, 'rng, 'src, 'l3) engine \<Rightarrow> bool" where
  "pnl_logged g \<longleftrightarrow>
     (tl_mode (eg_trade_log g) = LogAll \<longrightarrow>
       same_pos (eg_account g) (pos_after [] (fills_vec (eg_trade_log g))) \<and>
       (\<exists>funds. tl_pnl_history (eg_trade_log g) \<in> shuffles (net_entries [] (fills_vec (eg_trade_log g))) funds \<and>
          total_funding_pnl (eg_account g) = foldl saturating_add 0 (map snd funds)))"

lemma deltas_append: "pnl_deltas_loop (fs @ gs) m = pnl_deltas_loop fs m @ pnl_deltas_loop gs (pos_after m fs)"
  by (induction fs arbitrary: m) (simp_all add: pos_after_def case_prod_beta)

lemma net_entries_append: "net_entries m (fs @ gs) = net_entries m fs @ net_entries (pos_after m fs) gs"
  by (simp add: net_entries_def deltas_append)

lemma pos_after_append: "pos_after m (fs @ gs) = pos_after (pos_after m fs) gs"
  by (simp add: pos_after_def)

lemma append_shuffles: "zs \<in> shuffles xs ys \<Longrightarrow> zs @ ws \<in> shuffles (xs @ ws) ys"
proof (induction xs ys arbitrary: zs rule: shuffles.induct)
  case (1 ys)
  have "ys @ ws \<in> shuffles ws ys" by (induction ys) (simp_all add: Cons_in_shuffles_rightI)
  with 1 show ?case by simp
next
  case (3 x xs y ys)
  from 3(3) consider zs' where "zs = x # zs'" "zs' \<in> shuffles xs (y # ys)"
    | zs' where "zs = y # zs'" "zs' \<in> shuffles (x # xs) ys" by auto
  then show ?case
  proof cases
    case 1
    with 3(1) [of zs'] Cons_in_shuffles_leftI [of "zs' @ ws" "xs @ ws" "y # ys" x] show ?thesis by simp
  next
    case 2
    with 3(2) [of zs'] Cons_in_shuffles_rightI [of "zs' @ ws" "x # xs @ ws" ys y] show ?thesis by simp
  qed
qed simp

section \<open>What leaves the books alone\<close>

definition books :: "('st, 's, 'rng, 'src, 'l3) engine \<Rightarrow> account \<times> trade_log" where
  "books g = (eg_account g, eg_trade_log g)"

lemma positions_books: "books g' = books g \<Longrightarrow> positions_logged g' = positions_logged g"
  by (simp add: books_def positions_logged_def)

lemma pnl_books: "books g' = books g \<Longrightarrow> pnl_logged g' = pnl_logged g"
  by (simp add: books_def pnl_logged_def)

lemma books_updates [simp]:
  "books (g\<lparr>eg_queue := a1\<rparr>) = books g" "books (g\<lparr>eg_exchanges := a2\<rparr>) = books g"
  "books (g\<lparr>eg_order_symbol_by_id := a3\<rparr>) = books g" "books (g\<lparr>eg_next_order_id := a4\<rparr>) = books g"
  "books (g\<lparr>eg_strategy := a5\<rparr>) = books g" "books (g\<lparr>eg_rng := a6\<rparr>) = books g"
  "books (g\<lparr>eg_market := a7\<rparr>) = books g" "books (g\<lparr>eg_truth_last_trade_by_symbol := a8\<rparr>) = books g"
  "books (g\<lparr>eg_next_event_seq := a9\<rparr>) = books g" "books (g\<lparr>eg_now_ts_sim := a10\<rparr>) = books g"
  "books (g\<lparr>eg_tick_buffer := a11\<rparr>) = books g" "books (g\<lparr>eg_report_buffer := a12\<rparr>) = books g"
  "books (g\<lparr>eg_active_batch_timer_id := a13\<rparr>) = books g" "books (g\<lparr>eg_next_timer_id := a14\<rparr>) = books g"
  "books (g\<lparr>eg_pending_wakeup := a15\<rparr>) = books g" "books (g\<lparr>eg_l2_depth_symbols := a16\<rparr>) = books g"
  "books (g\<lparr>eg_l3_depth_symbols := a17\<rparr>) = books g" "books (g\<lparr>eg_tuner := a18\<rparr>) = books g"
  "books (g\<lparr>eg_clock_reads := a19\<rparr>) = books g" "books (g\<lparr>eg_config := a20\<rparr>) = books g"
  "books (g\<lparr>eg_sources := a21\<rparr>) = books g" "books (g\<lparr>eg_l3_sources := a22\<rparr>) = books g"
  "books (g\<lparr>eg_is_source_heap_initialized := a23\<rparr>) = books g"
  "books (g\<lparr>eg_is_l3_source_heap_initialized := a24\<rparr>) = books g"
  by (simp_all add: books_def)

lemma books_push [simp]: "books (push_event ts k g) = books g"
  by (simp add: books_def)

lemma books_exchange [simp]: "books (snd (with_exchange s f g)) = books g"
  by (simp add: with_exchange_def books_def case_prod_beta)

lemma books_exchangeD: "with_exchange s f g = (r, g') \<Longrightarrow> books g' = books g"
  using books_exchange [of s f g] by simp

lemma books_latencyD: "order_latency env g = (ts, g') \<Longrightarrow> books g' = books g"
  by (auto simp: order_latency_def split: prod.splits)

lemma books_fold: "(\<And>x g. x \<in> set xs \<Longrightarrow> books (f x g) = books g) \<Longrightarrow> books (fold f xs g) = books g"
  by (induction xs arbitrary: g) simp_all

lemma books_submit [simp]: "books (handle_submit ord ts g) = books g"
  by (simp add: handle_submit_def Let_def split: option.split)

lemma books_commands [simp]: "books (handle_commands cs ts g) = books g"
  unfolding handle_commands_def by (rule books_fold) (simp add: handle_command_def split: command.split)

lemma books_call [simp]: "books (snd (call_strategy callback x ts g)) = books g"
  by (simp add: call_strategy_def Let_def split: prod.split sum.split)

lemma books_fall_through [simp]: "books (snd (fall_through w r)) = books (snd r)"
  by (simp add: fall_through_def)

lemma books_ingest: "ingest env g = Some (r, g') \<Longrightarrow> books g' = books g"
  by (drule ingest_same) (simp add: books_same_def books_def)

section \<open>The handlers that book nothing\<close>

lemma books_tick_delivery: "books (snd (handle_tick_delivery env t g)) = books g"
  by (simp add: handle_tick_delivery_def start_batch_timer_def Let_def split: engine_mode.split)

lemma books_l2: "books (snd (handle_l2_update u g)) = books g"
  by (auto simp: handle_l2_update_def mark_l2_depth_def Let_def split: sum.split prod.split
      dest: books_exchangeD)

lemma books_l3: "books (snd (handle_l3_update u g)) = books g"
  by (auto simp: handle_l3_update_def mark_l3_depth_def Let_def split: sum.split prod.split
      dest: books_exchangeD)

lemma books_order: "books (handle_order env ord g) = books g"
  by (auto simp: handle_order_def Let_def split: prod.split dest!: books_exchangeD books_latencyD)

lemma books_cancel: "books (snd (handle_order_cancel env i g)) = books g"
  by (auto simp: handle_order_cancel_def Let_def split: option.split sum.split prod.split
      dest!: books_exchangeD books_latencyD)

lemma books_cancel_ack: "books (handle_order_cancel_ack i g) = books g"
  by (auto simp: handle_order_cancel_ack_def Let_def split: option.split sum.split prod.split
      dest!: books_exchangeD)

lemma books_forget [simp]: "books (forget_order r g) = books g"
  by (simp add: forget_order_def Let_def split: option.split)

lemma books_report: "books (snd (handle_order_report env r g)) = books g"
  by (simp add: handle_order_report_def Let_def split: engine_mode.split)

lemma books_timer: "books (snd (handle_timer n g)) = books g"
  by (simp add: handle_timer_def)

lemma books_callbacks: "books (snd (flush_callbacks env cx g)) = books g"
  by (simp add: flush_callbacks_def Let_def split: prod.split sum.split)

lemma books_tune [simp]: "books (auto_tune_batch env n g) = books g"
  by (simp add: auto_tune_batch_def Let_def)

lemma books_flush: "books (snd (flush_strategy env ts g)) = books g"
  using books_callbacks [of env "context_new ts (eg_market g)" "g\<lparr>eg_active_batch_timer_id := None\<rparr>"]
  by (auto simp: flush_strategy_def Let_def split: prod.split sum.split)

lemma books_wakeup: "books (snd (batch_wakeup env w g)) = books g"
  using books_flush [of env "eg_now_ts_sim g" g]
  by (auto simp: batch_wakeup_def split: prod.split sum.split)

lemma books_ack_limit: "books (ack_limit_order i s g) = books g"
  by (auto simp: ack_limit_order_def split: prod.split sum.split dest!: books_exchangeD)

section \<open>What a booking does to the sums\<close>

definition ledger_ok :: "('st, 's, 'rng, 'src, 'l3) engine \<Rightarrow> bool" where
  "ledger_ok g \<longleftrightarrow> bt_wf (ac_positions (eg_account g)) \<and> positions_logged g \<and> pnl_logged g"

lemma ledger_books:
  assumes "books g' = books g"
  shows "ledger_ok g' = ledger_ok g"
proof -
  have "eg_account g' = eg_account g" using assms by (simp add: books_def)
  then show ?thesis unfolding ledger_ok_def positions_books [OF assms] pnl_books [OF assms] by simp
qed

lemma fold_add_logged_in_i64: "in_i64 q \<Longrightarrow> in_i64 (fold (add_logged s) fills q)"
  by (induction fills arbitrary: q) (simp_all add: add_logged_def saturating_add_def)

lemma logged_qty_in_i64: "in_i64 (logged_qty s fills)"
  unfolding logged_qty_def by (rule fold_add_logged_in_i64) (simp add: in_i64_def)

lemma logged_qty_append: "logged_qty s (fills @ fills2) = fold (add_logged s) fills2 (logged_qty s fills)"
  by (simp add: logged_qty_def)

text \<open>
  A fill and the order it is booked on agree on the symbol and the side, its quantity is not negative
  and its time is the one it is booked at.
\<close>

definition matched :: "ts_exchange_ns \<Rightarrow> order \<times> trade_fill \<Rightarrow> bool" where
  "matched ts p \<longleftrightarrow> matches (fst p) (snd p) \<and> tf_ts_exchange (snd p) = ts"

lemma log_fill_books:
  "tl_mode (eg_trade_log g) = LogAll \<Longrightarrow>
     books (log_fill tf g) = (eg_account g, push_fill tf (eg_trade_log g)) \<and>
     fills_vec (push_fill tf (eg_trade_log g)) = fills_vec (eg_trade_log g) @ [tf]"
  by (simp add: books_def log_fill_def push_fill_def fills_vec_def update_incremental_fill_def)

lemma fold_log_fills:
  "tl_mode (eg_trade_log g) = LogAll \<Longrightarrow>
     eg_account (fold (\<lambda>(_, tf). log_fill tf) fills g) = eg_account g \<and>
     fills_vec (eg_trade_log (fold (\<lambda>(_, tf). log_fill tf) fills g)) =
       fills_vec (eg_trade_log g) @ map snd fills"
proof (induction fills arbitrary: g)
  case (Cons p fills)
  let ?g1 = "log_fill (snd p) g"
  have "eg_account ?g1 = eg_account g" "tl_mode (eg_trade_log ?g1) = LogAll"
    "fills_vec (eg_trade_log ?g1) = fills_vec (eg_trade_log g) @ [snd p]"
    using Cons.prems log_fill_books [OF Cons.prems, of "snd p"] by (simp_all add: log_fill_def)
  with Cons.IH [of ?g1] show ?case by (simp add: case_prod_beta)
qed simp

lemma fold_log_mode [simp]:
  "tl_mode (eg_trade_log (fold (\<lambda>(_, tf). log_fill tf) fills g)) = tl_mode (eg_trade_log g)"
  "eg_account (fold (\<lambda>(_, tf). log_fill tf) fills g) = eg_account g"
  "tl_pnl_history (eg_trade_log (fold (\<lambda>(_, tf). log_fill tf) fills g)) = tl_pnl_history (eg_trade_log g)"
  by (induction fills arbitrary: g) (simp_all add: log_fill_def case_prod_beta push_fill_fields)

lemma push_pnl_delta_same [simp]:
  "tl_mode (push_pnl_delta ts d lg) = tl_mode lg" "fills_vec (push_pnl_delta ts d lg) = fills_vec lg"
  by (simp_all add: push_pnl_delta_def update_incremental_pnl_def fills_vec_def Let_def split: trade_log_mode.split)

lemma push_pnl_event_same [simp]:
  "tl_mode (push_pnl_event ev lg) = tl_mode lg" "fills_vec (push_pnl_event ev lg) = fills_vec lg"
  by (simp_all add: push_pnl_event_def update_incremental_pnl_def fills_vec_def Let_def split: trade_log_mode.split)

lemma on_fill_keeps_wf: "bt_wf (ac_positions a) \<Longrightarrow> bt_wf (ac_positions (snd (on_fill ord q price a)))"
  by (cases "signed_qty (od_side ord) q = 0") (simp_all add: on_fill_zero on_fill_eq Let_def)

lemma book_fill_books:
  "eg_account (book_fill ts ord q price fee g) = snd (on_fill ord q price (eg_account g))"
  "tl_mode (eg_trade_log (book_fill ts ord q price fee g)) = tl_mode (eg_trade_log g)"
  "fills_vec (eg_trade_log (book_fill ts ord q price fee g)) = fills_vec (eg_trade_log g)"
  by (simp_all add: book_fill_def case_prod_beta Let_def)

abbreviation book_all ::
  "ts_exchange_ns \<Rightarrow> (order \<times> trade_fill) list \<Rightarrow> ('st, 's, 'rng, 'src, 'l3) engine \<Rightarrow> ('st, 's, 'rng, 'src, 'l3) engine"
  where "book_all ts fills g \<equiv>
    fold (\<lambda>(ord, tf). book_fill ts ord (tf_qty tf) (tf_price tf) (tf_fee tf)) fills g"

lemma book_all_same:
  "bt_wf (ac_positions (eg_account g)) \<Longrightarrow> bt_wf (ac_positions (eg_account (book_all ts fills g)))"
  "tl_mode (eg_trade_log (book_all ts fills g)) = tl_mode (eg_trade_log g)"
  "fills_vec (eg_trade_log (book_all ts fills g)) = fills_vec (eg_trade_log g)"
  by (induction fills arbitrary: g) (simp_all add: case_prod_beta book_fill_books on_fill_keeps_wf)

lemma book_all_qty:
  "bt_wf (ac_positions (eg_account g)) \<Longrightarrow> in_i64 (position_qty (eg_account g) s) \<Longrightarrow> \<forall>p\<in>set fills. matched ts p \<Longrightarrow>
     position_qty (eg_account (book_all ts fills g)) s =
       fold (add_logged s) (map snd fills) (position_qty (eg_account g) s)"
proof (induction fills arbitrary: g)
  case (Cons p fills)
  let ?g1 = "book_fill ts (fst p) (tf_qty (snd p)) (tf_price (snd p)) (tf_fee (snd p)) g"
  have "position_qty (eg_account ?g1) s = add_logged s (snd p) (position_qty (eg_account g) s)"
    using Cons.prems on_fill_qty_lemma [OF Cons.prems(1,2), of "fst p"]
    by (simp add: book_fill_books add_logged_def matched_def matches_def)
  moreover have "bt_wf (ac_positions (eg_account ?g1))"
    using Cons.prems(1) by (simp add: book_fill_books on_fill_keeps_wf)
  ultimately show ?case
    using Cons.IH [of ?g1] Cons.prems fold_add_logged_in_i64 [of "position_qty (eg_account g) s" s "[snd p]"]
    by (simp add: case_prod_beta)
qed simp

text \<open>The PnL the account books is the one the statistics find in the fill.\<close>

lemma book_fill_history:
  assumes "tl_mode (eg_trade_log g) = LogAll" and "same_pos (eg_account g) m" and "matched ts (ord, tf)"
  defines "g' \<equiv> book_fill ts ord (tf_qty tf) (tf_price tf) (tf_fee tf) g"
  shows "tl_pnl_history (eg_trade_log g') = tl_pnl_history (eg_trade_log g) @ net_entries m [tf]"
    and "same_pos (eg_account g') (pos_after m [tf])" and "total_funding_pnl (eg_account g') = total_funding_pnl (eg_account g)"
proof -
  obtain d m' where d: "pnl_delta_step tf m = (d, m')" by force
  obtain pnl a' where f: "on_fill ord (tf_qty tf) (tf_price tf) (eg_account g) = (pnl, a')" by force
  have "pd_pnl d = pnl \<and> same_pos a' m'"
    using delta_step_matches [OF assms(2) _ d f] assms(3) by (simp add: matched_def)
  with d f assms(1,3) show "tl_pnl_history (eg_trade_log g') = tl_pnl_history (eg_trade_log g) @ net_entries m [tf]"
    and "same_pos (eg_account g') (pos_after m [tf])"
    by (simp_all add: g'_def book_fill_def net_entries_def pos_after_def matched_def push_pnl_delta_def
        update_incremental_pnl_def Let_def)
  show "total_funding_pnl (eg_account g') = total_funding_pnl (eg_account g)"
    by (simp add: g'_def book_fill_books total_funding_pnl_def)
qed

lemma book_all_history:
  "tl_mode (eg_trade_log g) = LogAll \<Longrightarrow> same_pos (eg_account g) m \<Longrightarrow> \<forall>p\<in>set fills. matched ts p \<Longrightarrow>
     tl_pnl_history (eg_trade_log (book_all ts fills g)) =
       tl_pnl_history (eg_trade_log g) @ net_entries m (map snd fills) \<and>
     same_pos (eg_account (book_all ts fills g)) (pos_after m (map snd fills)) \<and>
     total_funding_pnl (eg_account (book_all ts fills g)) = total_funding_pnl (eg_account g)"
proof (induction fills arbitrary: g m)
  case Nil
  then show ?case by (simp add: net_entries_def pos_after_def)
next
  case (Cons p fills)
  let ?g1 = "book_fill ts (fst p) (tf_qty (snd p)) (tf_price (snd p)) (tf_fee (snd p)) g"
  have "matched ts (fst p, snd p)" using Cons.prems(3) by simp
  note one = book_fill_history [OF Cons.prems(1,2) this]
  have mode: "tl_mode (eg_trade_log ?g1) = LogAll" using Cons.prems(1) by (simp add: book_fill_books)
  from Cons.IH [OF mode one(2)] Cons.prems(3) one(1,3) show ?case
    using net_entries_append [of m "[snd p]" "map snd fills"] pos_after_append [of m "[snd p]" "map snd fills"]
    by (simp add: case_prod_beta)
qed

lemma ledger_settle:
  assumes "ledger_ok g" and "\<forall>p\<in>set fills. matched ts p"
  shows "ledger_ok (book_all ts fills (fold (\<lambda>(_, tf). log_fill tf) fills g))"
proof (cases "tl_mode (eg_trade_log g) = LogAll")
  case True
  let ?g1 = "fold (\<lambda>(_, tf). log_fill tf) fills g"
  have wf: "bt_wf (ac_positions (eg_account ?g1))" using assms(1) by (simp add: ledger_ok_def)
  have q: "position_qty (eg_account ?g1) s = logged_qty s (fills_vec (eg_trade_log g))" for s
    using assms(1) True by (simp add: ledger_ok_def positions_logged_def)
  have "position_qty (eg_account (book_all ts fills ?g1)) s =
      logged_qty s (fills_vec (eg_trade_log g) @ map snd fills)" for s
    using book_all_qty [OF wf _ assms(2), of s] unfolding q logged_qty_append
    by (simp add: logged_qty_in_i64)
  then have "positions_logged (book_all ts fills ?g1)"
    using fold_log_fills [OF True, of fills] by (simp add: positions_logged_def book_all_same)
  moreover have "pnl_logged (book_all ts fills ?g1)"
  proof -
    let ?old = "fills_vec (eg_trade_log g)"
    from assms(1) True obtain funds where same: "same_pos (eg_account ?g1) (pos_after [] ?old)"
      and h: "tl_pnl_history (eg_trade_log g) \<in> shuffles (net_entries [] ?old) funds"
      and total: "total_funding_pnl (eg_account g) = foldl saturating_add 0 (map snd funds)"
      by (auto simp: ledger_ok_def pnl_logged_def)
    have mode: "tl_mode (eg_trade_log ?g1) = LogAll" using True by simp
    from book_all_history [OF mode same assms(2)] append_shuffles [OF h] total
    show ?thesis
      using fold_log_fills [OF True, of fills]
      by (auto simp: pnl_logged_def book_all_same net_entries_append pos_after_append)
  qed
  ultimately show ?thesis using wf by (simp add: ledger_ok_def book_all_same)
next
  case False
  with assms(1) show ?thesis by (simp add: ledger_ok_def positions_logged_def pnl_logged_def book_all_same)
qed

lemma funding_keeps_positions:
  assumes "bt_wf (ac_positions a)"
  shows "bt_wf (ac_positions (snd (apply_funding ev mark a)))"
    and "position_qty (snd (apply_funding ev mark a)) s = position_qty a s"
  using assms by (auto simp: apply_funding_def position_qty_def Let_def split: option.split)

lemma funding_keeps_pos:
  assumes "same_pos a m"
  shows "same_pos (snd (apply_funding ev mark a)) m"
  using assms by (auto simp: same_pos_def apply_funding_def acc_entry_def Let_def split: option.splits)

lemma funding_total:
  "in_i64 (total_funding_pnl a) \<Longrightarrow>
     total_funding_pnl (snd (apply_funding ev mark a)) = saturating_add (total_funding_pnl a) (fst (apply_funding ev mark a))"
  by (simp add: apply_funding_def total_funding_pnl_def saturating_add_exact Let_def split: option.split)

lemma pnl_logged_funding:
  assumes "pnl_logged g"
  shows "pnl_logged (book_funding ev mark g)"
  unfolding pnl_logged_def
proof (intro impI)
  let ?g' = "book_funding ev mark g" and ?e = "(fu_ts_exchange ev, fst (apply_funding ev mark (eg_account g)))"
  assume "tl_mode (eg_trade_log ?g') = LogAll"
  then have mode: "tl_mode (eg_trade_log g) = LogAll" by (simp add: book_funding_def case_prod_beta)
  with assms obtain funds where same: "same_pos (eg_account g) (pos_after [] (fills_vec (eg_trade_log g)))"
    and h: "tl_pnl_history (eg_trade_log g) \<in> shuffles (net_entries [] (fills_vec (eg_trade_log g))) funds"
    and total: "total_funding_pnl (eg_account g) = foldl saturating_add 0 (map snd funds)"
    by (auto simp: pnl_logged_def)
  have "tl_pnl_history (eg_trade_log g) @ [?e] \<in> shuffles (net_entries [] (fills_vec (eg_trade_log g))) (funds @ [?e])"
    using append_shuffles [of _ funds] h by (simp add: shuffles_commutes)
  moreover have "tl_pnl_history (eg_trade_log ?g') = tl_pnl_history (eg_trade_log g) @ [?e]"
    using mode by (simp add: book_funding_def case_prod_beta push_pnl_event_def update_incremental_pnl_def)
  moreover have "total_funding_pnl (eg_account ?g') = foldl saturating_add 0 (map snd (funds @ [?e]))"
    using funding_total [of "eg_account g" ev mark] foldl_add_in_i64 [of 0 "map snd funds"] total
    by (simp add: book_funding_def case_prod_beta in_i64_def)
  ultimately show "same_pos (eg_account ?g') (pos_after [] (fills_vec (eg_trade_log ?g'))) \<and>
      (\<exists>funds. tl_pnl_history (eg_trade_log ?g') \<in> shuffles (net_entries [] (fills_vec (eg_trade_log ?g'))) funds \<and>
         total_funding_pnl (eg_account ?g') = foldl saturating_add 0 (map snd funds))"
    using funding_keeps_pos [OF same, of ev mark] by (auto simp: book_funding_def case_prod_beta)
qed

lemma ledger_funding: "ledger_ok g \<Longrightarrow> ledger_ok (book_funding ev mark g)"
  using pnl_logged_funding [of g ev mark]
  by (simp add: ledger_ok_def positions_logged_def book_funding_def case_prod_beta funding_keeps_positions)

section \<open>The two handlers that book trades\<close>

lemma trade_live_symbol: "trade_live qm t live = (live', Some r) \<Longrightarrow> rp_symbol_id r = od_symbol_id (lo_order live)"
  by (auto simp: trade_live_def report_of_def Let_def split: prod.splits if_splits)

lemma maker_fills_matched:
  assumes "queue_laws qm ok" and inv: "ex_inv qm ok x" and q: "in_i64 (tk_qty t)"
    and t: "on_trade t [] x = (reports, x')"
  shows "\<forall>p\<in>set (maker_fills fee_bps ts x' reports). matched ts p"
proof
  fix p assume "p \<in> set (maker_fills fee_bps ts x' reports)"
  then obtain r ord fee where r: "r \<in> set reports" "get_order x' (rp_order_id r) = Some ord"
      "0 < rp_last_fill_qty r"
    and p: "p = (ord, trade_fill_of ts r ord fee False)"
    by (auto simp: maker_fills_def map_filter_def split: if_splits)
  from trade_report_lemma [OF assms(1) inv q, of r] r(1) t
  obtain live live' where live: "bt_get (ex_orders x) (rp_order_id r) = Some live"
    and live': "bt_get (ex_orders x') (rp_order_id r) = Some live'"
    and tl: "trade_live qm t live = (live', Some r)" by auto
  have "lo_order live' = lo_order live"
    using queue_laws.trade_live_inv [OF assms(1) ex_invD(5) [OF inv live] q tl] by simp
  with live' r(2,3) trade_live_symbol [OF tl] show "matched ts p"
    by (simp add: p matched_def matches_def trade_fill_of_def get_order_def)
qed

lemma ledger_tick:
  assumes "queue_laws qm ok" and "orders_ok qm ok n g" and "in_i64 (tk_qty t)" and ok: "ledger_ok g"
  shows "ledger_ok (handle_tick t g)"
proof -
  let ?s = "tk_symbol_id t"
  let ?g1 = "g\<lparr>eg_truth_last_trade_by_symbol := hm_insert ?s t (eg_truth_last_trade_by_symbol g)\<rparr>"
  obtain reports g2 where g2: "with_exchange ?s (on_trade t []) ?g1 = (reports, g2)"
    by (cases "with_exchange ?s (on_trade t []) ?g1") auto
  define fills where "fills = maker_fills (cf_maker_fee_bps (eg_config g2)) (tk_ts_exchange t) (exchange_entry g2 ?s) reports"
  have inv: "ex_inv qm ok (exchange_entry ?g1 ?s)"
    by (rule queue_laws.entry_inv [OF assms(1), where n = n]) (use assms(2) in simp)
  have "on_trade t [] (exchange_entry ?g1 ?s) = (reports, exchange_entry g2 ?s)"
    using with_exchange_id(3,4) [OF g2] by (simp add: prod_eq_iff)
  then have m: "\<forall>p\<in>set fills. matched (tk_ts_exchange t) p"
    unfolding fills_def by (rule maker_fills_matched [OF assms(1) inv assms(3)])
  have "ledger_ok g2" using ok books_exchangeD [OF g2] ledger_books [of g2 g] by simp
  then have "ledger_ok (book_all (tk_ts_exchange t) fills (fold (\<lambda>(_, tf). log_fill tf) fills g2))"
    using m by (rule ledger_settle)
  moreover have "books (handle_tick t g) =
      books (book_all (tk_ts_exchange t) fills (fold (\<lambda>(_, tf). log_fill tf) fills g2))"
    unfolding handle_tick_def Let_def g2 prod.case fills_def by (rule books_fold) simp
  ultimately show ?thesis using ledger_books by blast
qed

lemma ledger_book_taker:
  assumes "ledger_ok g" and "\<And>ord. mo = Some ord \<Longrightarrow> rp_symbol_id r = od_symbol_id ord"
  shows "ledger_ok (book_taker r mo g)"
proof (cases "mo = None \<or> rp_last_fill_qty r \<le> 0")
  case True
  with assms(1) show ?thesis by (auto simp: book_taker_def split: option.split)
next
  case False
  then obtain ord where ord: "mo = Some ord" "0 < rp_last_fill_qty r" by auto
  let ?fee = "compute_fee (rp_last_fill_price r) (rp_last_fill_qty r) (cf_taker_fee_bps (eg_config g))"
  let ?tf = "trade_fill_of (eg_now_ts_sim g) r ord ?fee True"
  have "matched (eg_now_ts_sim g) (ord, ?tf)"
    using assms(2) ord by (simp add: matched_def matches_def trade_fill_of_def)
  with ledger_settle [OF assms(1), of "[(ord, ?tf)]"] ord show ?thesis
    by (simp add: book_taker_def Let_def trade_fill_of_def)
qed

lemma fill_market_symbol:
  "fill_market_immediately i p x = (Some r, x') \<Longrightarrow> get_order x i = Some ord \<Longrightarrow> rp_symbol_id r = od_symbol_id ord"
  by (auto simp: fill_market_immediately_def get_order_def report_of_def Let_def split: option.splits)

lemma ledger_fill_market:
  assumes "ledger_ok g"
  shows "ledger_ok (fill_market_order i s g)"
proof -
  let ?p = "map_option tk_price (hm_get (eg_truth_last_trade_by_symbol g) s)"
  let ?mo = "get_order (exchange_entry g s) i"
  obtain mr g1 where g1: "with_exchange s (fill_market_immediately i ?p) g = (mr, g1)"
    by (cases "with_exchange s (fill_market_immediately i ?p) g") auto
  have ok1: "ledger_ok g1" using assms books_exchangeD [OF g1] ledger_books [of g1 g] by simp
  show ?thesis
  proof (cases mr)
    case None
    then show ?thesis using ok1 by (simp add: fill_market_order_def Let_def g1)
  next
    case (Some r)
    have "fill_market_immediately i ?p (exchange_entry g s) = (Some r, exchange_entry g1 s)"
      using with_exchange_id(3,4) [OF g1] Some by (simp add: prod_eq_iff)
    then have "ledger_ok (book_taker r ?mo g1)"
      using ok1 by (intro ledger_book_taker) (auto dest: fill_market_symbol)
    moreover have "books (fill_market_order i s g) = books (book_taker r ?mo g1)"
      by (auto simp: fill_market_order_def Let_def g1 Some split: prod.split option.split dest!: books_exchangeD)
    ultimately show ?thesis using ledger_books by blast
  qed
qed

lemma ledger_order_ack:
  assumes "ledger_ok g"
  shows "ledger_ok (snd (handle_order_ack i g))"
proof (cases "hm_get (eg_order_symbol_by_id g) i")
  case (Some s)
  obtain k g1 where g1: "with_exchange s (\<lambda>x. (get_order x i, x)) g = (k, g1)"
    by (cases "with_exchange s (\<lambda>x. (get_order x i, x)) g") auto
  have ok1: "ledger_ok g1" using assms books_exchangeD [OF g1] ledger_books [of g1 g] by simp
  then show ?thesis
    using ledger_fill_market [OF ok1] ledger_books [OF books_ack_limit, of i s g1]
    by (simp add: handle_order_ack_def Some g1 Let_def)
qed (use assms in \<open>simp add: handle_order_ack_def\<close>)

lemma ledger_handle_funding:
  assumes "ledger_ok g"
  shows "ledger_ok (snd (handle_funding env ev g))"
proof -
  define g1 where "g1 = (case funding_mark_price g (fu_symbol_id ev) of None \<Rightarrow> g | Some mark \<Rightarrow> book_funding ev mark g)"
  have "ledger_ok g1" using assms by (simp add: g1_def ledger_funding split: option.split)
  moreover have "books (snd (handle_funding env ev g)) = books g1"
    by (simp add: handle_funding_def Let_def g1_def [symmetric])
  ultimately show ?thesis using ledger_books by blast
qed

section \<open>Every step\<close>

lemma ledger_dispatch:
  assumes "queue_laws qm ok" and "orders_ok qm ok n g" and "sane_event g k" and ok: "ledger_ok g"
  shows "ledger_ok (snd (dispatch env k g))"
proof -
  have frame: "ledger_ok g'" if "books g' = books g" for g'
    using ledger_books [OF that] ok by simp
  show ?thesis
  proof (cases k)
    case (TickEvent t)
    with assms show ?thesis by (simp add: dispatch_def ledger_tick sane_event_def)
  next
    case (OrderAck i)
    with ok show ?thesis by (simp add: dispatch_def ledger_order_ack)
  next
    case (Funding ev)
    with ok show ?thesis by (simp add: dispatch_def ledger_handle_funding)
  qed (auto simp: dispatch_def books_tick_delivery books_l2 books_l3 books_order books_cancel
      books_cancel_ack books_report books_timer intro!: frame)
qed

lemma books_init [simp]:
  "books (g\<lparr>eg_queue := q, eg_now_ts_sim := n\<rparr>) = books g"
  by (simp add: books_def)

lemma ledger_step:
  assumes "engine_step env g = Some (r, g')" and "queue_laws qm ok" and "orders_ok qm ok n g"
    and "next_is_sane env g" and ok: "ledger_ok g"
  shows "ledger_ok g'"
proof -
  obtain ri g1 where i: "ingest env g = Some (ri, g1)" using assms(1) by (auto simp: engine_step_def split: option.splits)
  have ok1: "ledger_ok g1" using ok ledger_books [OF books_ingest [OF i]] by simp
  have inv1: "orders_ok qm ok n g1" using i assms(3) by (rule orders_ingest)
  consider (err) e where "ri = Inl e" | (idle) "ri = Inr ()" "eq_pop (eg_queue g1) = None"
    | (event) ev q where "ri = Inr ()" "eq_pop (eg_queue g1) = Some (ev, q)"
    by (cases ri; cases "eq_pop (eg_queue g1)") auto
  then show ?thesis
  proof cases
    case err
    with assms(1) i ok1 show ?thesis by (simp add: engine_step_def)
  next
    case idle
    with assms(1) i ok1 show ?thesis by (simp add: engine_step_def process_next_def)
  next
    case event
    let ?g2 = "g1\<lparr>eg_queue := q, eg_now_ts_sim := ts_sim ev\<rparr>"
    have sane: "sane_event ?g2 (ev_kind ev)" using assms(4) i event by (simp add: next_is_sane_def)
    have ok2: "ledger_ok ?g2" using ok1 ledger_books [OF books_init] by blast
    obtain h g3 where d: "dispatch env (ev_kind ev) ?g2 = (h, g3)" by (cases "dispatch env (ev_kind ev) ?g2") auto
    have ok3: "ledger_ok g3"
      using ledger_dispatch [OF assms(2) orders_pop(1) [OF inv1 event(2)] sane ok2, of env] d by simp
    have "g' = g3 \<or> (\<exists>w. g' = snd (batch_wakeup env w g3))"
      using assms(1) i event d
      by (cases h) (auto simp: engine_step_def process_next_def Let_def apfst_def map_prod_def case_prod_beta)
    then show ?thesis using ok3 ledger_books [OF books_wakeup, of env _ g3] by auto
  qed
qed

lemma sane_reach_ledger:
  assumes "sane_reach env qm g" and "queue_laws qm ok" and "modest_strategy (en_strategy env)"
  shows "ledger_ok g"
  using assms(1)
proof (induction rule: sane_reach.induct)
  case (sane_new s cfg)
  show ?case
    by (simp add: ledger_ok_def positions_logged_def pnl_logged_def engine_new_def account_new_def position_qty_def
        trade_log_new_def fills_vec_def logged_qty_def pos_after_def net_entries_def total_funding_pnl_def
        same_pos_def acc_entry_def pos_entry_def position_default_def pos_state_default_def)
next
  case (sane_tick_source g src)
  have "books (add_tick_source src g) = books g" by (simp add: add_tick_source_def books_def)
  with sane_tick_source.IH show ?case using ledger_books by blast
next
  case (sane_l3_source g l3)
  have "books (add_l3_source env l3 g) = books g" by (simp add: add_l3_source_def books_def)
  with sane_l3_source.IH show ?case using ledger_books by blast
next
  case (sane_push g k ts)
  then show ?case using ledger_books [OF books_push] by blast
next
  case (sane_step g r g')
  obtain n where "orders_ok qm ok n g"
    using queue_laws.sane_reach_orders [OF assms(2) sane_step.hyps(1) assms(3)] ..
  then show ?case using ledger_step assms(2) sane_step by blast
next
  case (sane_flush g r' g')
  have "books g' = books g" using books_flush [of env "eg_now_ts_sim g" g] sane_flush.hyps(3) by simp
  with sane_flush.IH show ?case using ledger_books by blast
qed

text \<open>
  C4. The positions are the fills. In every state that an engine with a full trade log can reach, with
  quantities that are not negative and a strategy that sends at most \<open>max_commands\<close> commands per
  callback (\<open>sane_reach\<close>, \<open>modest_strategy\<close>), the position the account shows for a symbol is the signed,
  saturating sum of the quantities of the logged fills of that symbol: nothing is booked that is not
  logged, nothing logged that is not booked, and every fill is logged with the symbol and the side of the
  order it is booked on, across all interleavings of trades, market orders, funding, batches and failing
  callbacks.
\<close>

theorem positions_match_log:
  assumes "queue_laws qm ok" and "modest_strategy (en_strategy env)" and "sane_reach env qm g"
    and "tl_mode (eg_trade_log g) = LogAll"
  shows "position_qty (eg_account g) s = logged_qty s (fills_vec (eg_trade_log g))"
  using sane_reach_ledger [OF assms(3,1,2)] assms(4) by (simp add: ledger_ok_def positions_logged_def)

theorem positions_match_log_witness:
  "map tf_qty (fills_vec (eg_trade_log (run_steps 9 sample_env sample_engine))) = [3, 2] \<and>
   position_qty (eg_account (run_steps 9 sample_env sample_engine)) 1 = 3 + 2"
proof -
  let ?g = "run_steps 9 sample_env sample_engine"
  have "steps_sane 9 sample_env sample_engine" by code_simp
  with sample_sane have reach: "sane_reach sample_env conservative_queue ?g" by (rule run_steps_sane)
  have log: "tl_mode (eg_trade_log ?g) = LogAll" "map tf_qty (fills_vec (eg_trade_log ?g)) = [3, 2]"
    "logged_qty 1 (fills_vec (eg_trade_log ?g)) = 5"
    by code_simp+
  from positions_match_log [OF conservative.queue_laws_axioms sample_modest reach log(1), of 1] log(2,3)
  show ?thesis by simp
qed

text \<open>
  C9. Every PnL is a fill or a funding. In the same states, the PnL history of the log is an interleaving
  of two lists: for each logged fill, in order and at its time, the PnL that the statistics reconstruct
  from the log for this fill, less the fee logged with it; and the funding payments, whose saturating sum
  is the account's funding total. So the fees, prices and sides that are logged are those that were
  booked, and no PnL enters the statistics from anywhere else.
\<close>

theorem pnl_history_explained:
  assumes "queue_laws qm ok" and "modest_strategy (en_strategy env)" and "sane_reach env qm g"
    and "tl_mode (eg_trade_log g) = LogAll"
  shows "\<exists>funds.
    tl_pnl_history (eg_trade_log g) \<in> shuffles (net_pnl_entries (fills_vec (eg_trade_log g))) funds \<and>
    total_funding_pnl (eg_account g) = foldl saturating_add 0 (map snd funds)"
  using sane_reach_ledger [OF assms(3,1,2)] assms(4)
  by (simp add: ledger_ok_def pnl_logged_def net_pnl_entries_def net_entries_def pnl_deltas_from_fills_def)

declare inc_on_pnl_def [code del]

lemma fee_engine_log:
  "steps_sane 5 sample_env fee_engine" "tl_mode (eg_trade_log (run_steps 5 sample_env fee_engine)) = LogAll"
  "map snd (net_pnl_entries (fills_vec (eg_trade_log (run_steps 5 sample_env fee_engine)))) = [- 300]"
  "total_funding_pnl (eg_account (run_steps 5 sample_env fee_engine)) = 0"
  "length (tl_pnl_history (eg_trade_log (run_steps 5 sample_env fee_engine))) = 1"
  by code_simp+

declare inc_on_pnl_def [code]

theorem pnl_history_explained_witness:
  "map snd (tl_pnl_history (eg_trade_log (run_steps 5 sample_env fee_engine))) = [- 300]"
proof -
  let ?l = "eg_trade_log (run_steps 5 sample_env fee_engine)"
  have "sane_reach sample_env conservative_queue fee_engine"
    unfolding fee_engine_def by (intro sane_tick_source sane_new)
  from run_steps_sane [OF this fee_engine_log(1)] fee_engine_log(2)
  obtain funds where h: "tl_pnl_history ?l \<in> shuffles (net_pnl_entries (fills_vec ?l)) funds"
    using pnl_history_explained [OF conservative.queue_laws_axioms sample_modest] by blast
  have "length (net_pnl_entries (fills_vec ?l)) = 1"
    using arg_cong [OF fee_engine_log(3), of length] by simp
  with length_shuffles [OF h] fee_engine_log(5) have "funds = []" by simp
  with h fee_engine_log(3) show ?thesis by simp
qed

end
