(* ===== verification/EngineErrors.thy ===== *)
theory EngineErrors
  imports EngineProps
begin

text \<open>
  What a step that ends with an error has done. The code drops the commands of a callback that fails
  and returns from the middle of a step; \<open>sent\<close> is what the strategy's commands would have changed (with
  the configuration, whose mode decides which arms call the strategy), and \<open>fed\<close> what the ingestion loop
  adds to the queue before it fails.
\<close>

section \<open>What only commands change\<close>

text \<open>The events only a command puts into the queue: an order on its way, or a request to cancel one.\<close>

definition command_event :: "event \<Rightarrow> bool" where
  "command_event ev \<longleftrightarrow> (case ev_kind ev of OrderEvent _ \<Rightarrow> True | OrderCancel _ \<Rightarrow> True | _ \<Rightarrow> False)"

definition command_events :: "('st, 's, 'rng, 'src, 'l3) engine \<Rightarrow> event multiset" where
  "command_events g = filter_mset command_event (eq_events (eg_queue g))"

definition sent :: "('st, 's, 'rng, 'src, 'l3) engine \<Rightarrow> u64 \<times> event multiset \<times> engine_config" where
  "sent g = (eg_next_order_id g, command_events g, eg_config g)"

lemma sent_updates [simp]:
  "sent (g\<lparr>eg_exchanges := a1\<rparr>) = sent g" "sent (g\<lparr>eg_order_symbol_by_id := a2\<rparr>) = sent g"
  "sent (g\<lparr>eg_strategy := a3\<rparr>) = sent g" "sent (g\<lparr>eg_rng := a4\<rparr>) = sent g"
  "sent (g\<lparr>eg_market := a5\<rparr>) = sent g" "sent (g\<lparr>eg_truth_last_trade_by_symbol := a6\<rparr>) = sent g"
  "sent (g\<lparr>eg_tick_buffer := a7\<rparr>) = sent g" "sent (g\<lparr>eg_report_buffer := a8\<rparr>) = sent g"
  "sent (g\<lparr>eg_active_batch_timer_id := a9\<rparr>) = sent g" "sent (g\<lparr>eg_next_timer_id := a10\<rparr>) = sent g"
  "sent (g\<lparr>eg_pending_wakeup := a11\<rparr>) = sent g" "sent (g\<lparr>eg_l2_depth_symbols := a12\<rparr>) = sent g"
  "sent (g\<lparr>eg_l3_depth_symbols := a13\<rparr>) = sent g" "sent (g\<lparr>eg_trade_log := a14\<rparr>) = sent g"
  "sent (g\<lparr>eg_account := a15\<rparr>) = sent g" "sent (g\<lparr>eg_risk_guard := a16\<rparr>) = sent g"
  by (simp_all add: sent_def command_events_def)

lemma sent_push [simp]:
  "(\<And>ord. k \<noteq> OrderEvent ord) \<Longrightarrow> (\<And>i. k \<noteq> OrderCancel i) \<Longrightarrow> sent (push_event ts k g) = sent g"
  by (cases k) (auto simp: sent_def command_events_def command_event_def)

lemma sent_exchange [simp]: "sent (snd (with_exchange s f g)) = sent g"
  by (simp add: with_exchange_def case_prod_beta)

lemma sent_exchangeD: "with_exchange s f g = (r, g') \<Longrightarrow> sent g' = sent g"
  using sent_exchange [of s f g] by simp

lemma sent_latencyD: "order_latency env g = (ts, g') \<Longrightarrow> sent g' = sent g"
  by (auto simp: order_latency_def split: prod.splits)

lemma sent_books [simp]:
  "sent (book_fill ts ord q p fee g) = sent g" "sent (book_funding ev mark g) = sent g" "sent (log_fill tf g) = sent g"
  by (simp_all add: book_fill_def book_funding_def log_fill_def case_prod_beta Let_def)

lemma sent_fold: "(\<And>x g. sent (f x g) = sent g) \<Longrightarrow> sent (fold f xs g) = sent g"
  by (induction xs arbitrary: g) simp_all

text \<open>A callback that fails sends nothing.\<close>

lemma sent_failed_call: "call_strategy callback x ts g = (Inl e, g') \<Longrightarrow> sent g' = sent g"
  by (auto simp: call_strategy_def Let_def split: prod.splits sum.splits)

section \<open>The handlers that call no strategy\<close>

lemma sent_tick: "sent (handle_tick t g) = sent g"
proof -
  let ?g1 = "g\<lparr>eg_truth_last_trade_by_symbol := hm_insert (tk_symbol_id t) t (eg_truth_last_trade_by_symbol g)\<rparr>"
  obtain reports g2 where g2: "with_exchange (tk_symbol_id t) (on_trade t []) ?g1 = (reports, g2)"
    by (cases "with_exchange (tk_symbol_id t) (on_trade t []) ?g1") auto
  have "sent g2 = sent g" using sent_exchangeD [OF g2] by simp
  then show ?thesis by (simp add: handle_tick_def g2 Let_def sent_fold case_prod_beta)
qed

lemma sent_l2: "handle_l2_update u g = (h, g') \<Longrightarrow> sent g' = sent g"
  by (auto simp: handle_l2_update_def mark_l2_depth_def split: sum.splits prod.splits if_splits)

lemma sent_l3: "handle_l3_update u g = (h, g') \<Longrightarrow> sent g' = sent g"
  by (auto simp: handle_l3_update_def mark_l3_depth_def apfst_def map_prod_def case_prod_beta
      split: sum.splits prod.splits if_splits)

lemma sent_order: "sent (handle_order env ord g) = sent g"
  by (auto simp: handle_order_def Let_def split: prod.split dest!: sent_exchangeD sent_latencyD)

lemma sent_book_taker [simp]: "sent (book_taker r mo g) = sent g"
  by (simp add: book_taker_def Let_def split: option.split)

lemma sent_fill_market [simp]: "sent (fill_market_order i s g) = sent g"
  by (auto simp: fill_market_order_def Let_def split: prod.split option.split dest!: sent_exchangeD)

lemma sent_ack_limit [simp]: "sent (ack_limit_order i s g) = sent g"
  by (auto simp: ack_limit_order_def split: prod.split sum.split dest!: sent_exchangeD)

lemma sent_order_ack: "sent (snd (handle_order_ack i g)) = sent g"
  by (auto simp: handle_order_ack_def Let_def split: option.split prod.split dest!: sent_exchangeD)

lemma sent_cancel: "sent (snd (handle_order_cancel env i g)) = sent g"
  by (auto simp: handle_order_cancel_def Let_def split: option.split sum.split prod.split
      dest!: sent_exchangeD sent_latencyD)

lemma sent_cancel_ack: "sent (handle_order_cancel_ack i g) = sent g"
  by (auto simp: handle_order_cancel_ack_def Let_def split: option.split sum.split prod.split
      dest!: sent_exchangeD)

lemma sent_forget [simp]: "sent (forget_order r g) = sent g"
  by (simp add: forget_order_def Let_def split: option.split)

lemma sent_timer: "sent (snd (handle_timer n g)) = sent g"
  by (simp add: handle_timer_def)

lemma sent_batch_timer [simp]: "sent (start_batch_timer ts g) = sent g"
  by (simp add: start_batch_timer_def Let_def)

section \<open>Failing arms, flushes and wake-ups\<close>

lemma fall_through_failed: "fall_through w r = (Failed e, g') \<Longrightarrow> \<exists>e'. r = (Inl e', g')"
  by (cases "fst r") (auto simp: fall_through_def apfst_def map_prod_def case_prod_beta prod_eq_iff)

lemma dispatch_failed:
  assumes "dispatch env k g = (Failed e, g')"
  shows "sent g' = sent g"
proof (cases k)
  case (TickDelivery t)
  with assms show ?thesis
    by (auto simp: dispatch_def handle_tick_delivery_def Let_def split: engine_mode.splits
        dest!: fall_through_failed sent_failed_call)
next
  case (OrderReportEvent r)
  with assms show ?thesis
    by (auto simp: dispatch_def handle_order_report_def Let_def split: engine_mode.splits
        dest!: fall_through_failed sent_failed_call)
next
  case (Funding ev)
  with assms show ?thesis
    by (auto simp: dispatch_def handle_funding_def Let_def split: option.splits
        dest!: fall_through_failed sent_failed_call)
next
  case (L2UpdateEvent u)
  with assms show ?thesis by (simp add: dispatch_def sent_l2)
next
  case (L3UpdateEvent u)
  with assms show ?thesis by (simp add: dispatch_def sent_l3)
qed (use assms in \<open>auto simp: dispatch_def handle_order_ack_def handle_order_cancel_def handle_timer_def
      Let_def split: option.splits prod.splits if_splits\<close>)

text \<open>In batch mode only funding calls the strategy from within an arm.\<close>

lemma dispatch_batch:
  assumes "cf_mode (eg_config g) = BatchMode" and "\<And>fu. k \<noteq> Funding fu"
  shows "sent (snd (dispatch env k g)) = sent g"
proof (cases k)
  case (TickDelivery t)
  with assms show ?thesis by (simp add: dispatch_def handle_tick_delivery_def Let_def)
next
  case (OrderReportEvent r)
  have "eg_config (forget_order r g) = eg_config g"
    by (simp add: forget_order_def Let_def with_exchange_def case_prod_beta split: option.split)
  with OrderReportEvent assms show ?thesis by (simp add: dispatch_def handle_order_report_def Let_def)
qed (use assms in \<open>simp_all add: dispatch_def sent_tick sent_l2 [OF surjective_pairing]
      sent_l3 [OF surjective_pairing] sent_order sent_order_ack sent_cancel
      sent_cancel_ack sent_timer\<close>)

lemma flush_failed:
  assumes "flush_strategy env ts g = (Inl e, g')"
  shows "sent g' = sent g"
proof -
  have "sent (snd (flush_callbacks env cx g)) = sent g" for cx g
    by (simp add: flush_callbacks_def Let_def split: prod.split sum.split)
  from this [of "context_new ts (eg_market g)" "g\<lparr>eg_active_batch_timer_id := None\<rparr>"] assms
  show ?thesis by (auto simp: flush_strategy_def Let_def split: if_splits prod.splits sum.splits)
qed

lemma wakeup_failed:
  "batch_wakeup env w g = (Inl e, g') \<Longrightarrow> sent g' = sent g \<and> cf_mode (eg_config g) = BatchMode"
  by (auto simp: batch_wakeup_def split: if_splits prod.splits sum.splits dest!: flush_failed)

section \<open>The mode of the engine\<close>

lemma config_submit: "eg_config (handle_submit ord ts g) = eg_config g"
  by (simp add: handle_submit_def Let_def split: option.split)

lemma config_commands: "eg_config (handle_commands cs ts g) = eg_config g"
  unfolding handle_commands_def
  by (induction cs arbitrary: g) (simp_all add: handle_command_def config_submit split: command.split)

lemma config_call: "eg_config (snd (call_strategy callback x ts g)) = eg_config g"
  by (simp add: call_strategy_def Let_def config_commands split: prod.split sum.split)

lemma config_sent: "sent g' = sent g \<Longrightarrow> eg_config g' = eg_config g"
  by (simp add: sent_def)

lemma config_dispatch: "eg_config (snd (dispatch env k g)) = eg_config g"
proof (cases k)
  case (TickDelivery t)
  have "eg_config (start_batch_timer ts g') = eg_config g'" for ts and g' :: "('a, 'b, 'c, 'd, 'e) engine"
    by (rule config_sent) simp
  then show ?thesis
    by (simp add: TickDelivery dispatch_def handle_tick_delivery_def Let_def config_call split: engine_mode.split)
next
  case (OrderReportEvent r)
  have "eg_config (forget_order r g) = eg_config g" by (rule config_sent) simp
  then show ?thesis
    by (simp add: OrderReportEvent dispatch_def handle_order_report_def Let_def config_call split: engine_mode.split)
next
  case (Funding ev)
  then show ?thesis by (simp add: dispatch_def handle_funding_def Let_def config_call split: option.split)
qed (simp_all add: dispatch_def config_sent [OF sent_tick] config_sent [OF sent_l2 [OF surjective_pairing]]
    config_sent [OF sent_l3 [OF surjective_pairing]] config_sent [OF sent_order] config_sent [OF sent_order_ack]
    config_sent [OF sent_cancel] config_sent [OF sent_cancel_ack] config_sent [OF sent_timer])

section \<open>Ingestion only feeds\<close>

definition fed :: "('st, 's, 'rng, 'src, 'l3) engine \<Rightarrow> ('st, 's, 'rng, 'src, 'l3) engine \<Rightarrow> bool" where
  "fed g g' \<longleftrightarrow> eq_events (eg_queue g) \<subseteq># eq_events (eg_queue g') \<and>
     (\<forall>ev\<in>#eq_events (eg_queue g'). ev \<in># eq_events (eg_queue g) \<or> (\<forall>fu. ev_kind ev \<noteq> Funding fu)) \<and>
     command_events g' = command_events g"

lemma fed_refl: "fed g g" and fed_trans: "fed g g1 \<Longrightarrow> fed g1 g2 \<Longrightarrow> fed g g2"
  by (auto simp: fed_def intro: subset_mset.order_trans)

lemma fed_same: "eg_queue g' = eg_queue g \<Longrightarrow> fed g g'"
  by (auto simp: fed_def command_events_def)

lemma fed_push:
  "(\<And>fu. k \<noteq> Funding fu) \<Longrightarrow> (\<And>ord. k \<noteq> OrderEvent ord) \<Longrightarrow> (\<And>i. k \<noteq> OrderCancel i) \<Longrightarrow>
     fed g (push_event ts k g)"
  by (cases k) (auto simp: fed_def command_events_def command_event_def)

lemma fed_schedule: "fed g (schedule_tick t g)"
  unfolding schedule_tick_def Let_def by (rule fed_trans [OF fed_push fed_push]) simp_all

lemma fed_ingest_tick: "fed g (snd (ingest_tick env i g))"
proof -
  have "eg_queue (snd (ingest_tick env i g)) = eg_queue g \<or>
      (\<exists>t. eg_queue (snd (ingest_tick env i g)) = eg_queue (schedule_tick t g))"
    by (simp add: ingest_tick_def schedule_tick_def push_event_def Let_def split: prod.split sum.split option.split)
      blast
  then show ?thesis
    using fed_trans [OF fed_schedule fed_same] fed_same by blast
qed

lemma fed_ingest_l3: "fed g (snd (ingest_l3 env i g))"
proof -
  have "eg_queue (snd (ingest_l3 env i g)) = eg_queue g \<or>
      (\<exists>u. eg_queue (snd (ingest_l3 env i g)) = eg_queue (push_event (l3_ts_exchange u) (L3UpdateEvent u) g))"
    by (simp add: ingest_l3_def push_event_def Let_def split: prod.split sum.split option.split) blast
  moreover have "fed g (push_event ts (L3UpdateEvent u) g)" for ts u by (rule fed_push) simp_all
  ultimately show ?thesis
    using fed_trans [OF _ fed_same] fed_same by blast
qed

lemma fed_init:
  "init_source_heap env g = (r, g') \<Longrightarrow> fed g g'" "init_l3_source_heap env g = (r', g') \<Longrightarrow> fed g g'"
  by (auto simp: init_source_heap_def init_l3_source_heap_def fed_refl intro!: fed_same
      split: if_splits prod.splits sum.splits)

lemma fed_round:
  assumes "ingest_round env g = (r, g')"
  shows "fed g g'"
proof -
  obtain r1 g1 where 1: "init_source_heap env g = (r1, g1)" by (cases "init_source_heap env g") auto
  obtain r2 g2 where 2: "init_l3_source_heap env g1 = (r2, g2)" by (cases "init_l3_source_heap env g1") auto
  have s1: "fed g g1" using 1 by (rule fed_init)
  have s2: "fed g g2" using s1 fed_init(2) [OF 2] by (rule fed_trans)
  have s3: "fed g (snd (ingest_tick env i g2))" "fed g (snd (ingest_l3 env i g2))" for i
    using s2 fed_ingest_tick fed_ingest_l3 by (blast intro: fed_trans)+
  have "g' = g1 \<or> g' = g2 \<or> (\<exists>i. g' = snd (ingest_tick env i g2)) \<or> (\<exists>i. g' = snd (ingest_l3 env i g2))"
    using assms 1 2
    by (auto simp: ingest_round_def apfst_def map_prod_def case_prod_beta split: sum.splits due.splits)
  with s1 s2 s3 show ?thesis by blast
qed

lemma fed_ingest: "ingest env g = Some (r, g') \<Longrightarrow> fed g g'"
  using ingest_rule [where I = "fed g", OF _ fed_refl] by (blast intro: fed_trans fed_round)

lemma act_queue_grows:
  "engine_act timed g g' \<Longrightarrow> eq_events (eg_queue g) \<subseteq># eq_events (eg_queue g')"
  by (induction rule: engine_act.induct) (simp_all add: quiet_def log_fill_def)

lemma acts_queue_grow: "engine_acts timed g g' \<Longrightarrow> eq_events (eg_queue g) \<subseteq># eq_events (eg_queue g')"
  by (induction rule: rtranclp_induct) (auto dest!: act_queue_grows intro: subset_mset.order_trans)

section \<open>Failing steps\<close>

lemma subset_add_mset: "M \<subseteq># N \<Longrightarrow> M \<subseteq># add_mset x N"
  by (auto simp: subseteq_mset_def intro: le_SucI)

lemma process_failed:
  assumes "process_next env g = (Inl e, g')"
    and calm: "cf_mode (eg_config g) = TickMode \<or> (\<forall>ev\<in>#eq_events (eg_queue g). \<forall>fu. ev_kind ev \<noteq> Funding fu)"
  shows "eg_next_order_id g' = eg_next_order_id g \<and> command_events g' \<subseteq># command_events g \<and>
    (\<exists>ev. eq_events (eg_queue g) \<subseteq># add_mset ev (eq_events (eg_queue g')))"
proof -
  obtain ev q where p: "eq_pop (eg_queue g) = Some (ev, q)"
    using assms(1) by (auto simp: process_next_def split: option.splits)
  let ?g1 = "g\<lparr>eg_queue := q, eg_now_ts_sim := ts_sim ev\<rparr>"
  have events: "eq_events (eg_queue g) = add_mset ev (eq_events q)" using p by (rule eq_pop_events)
  obtain h g2 where d: "dispatch env (ev_kind ev) ?g1 = (h, g2)" by (cases "dispatch env (ev_kind ev) ?g1") auto
  have config: "eg_config g2 = eg_config g" using config_dispatch [of env "ev_kind ev" ?g1] d by simp
  have "sent g' = sent ?g1"
  proof (cases h)
    case (Failed e')
    with d have "sent g2 = sent ?g1" by (simp add: dispatch_failed)
    with assms(1) p d Failed show ?thesis by (simp add: process_next_def Let_def)
  next
    case (Handled w)
    with assms(1) p d have w: "batch_wakeup env w g2 = (Inl e, g')"
      by (cases "batch_wakeup env w g2"; cases "fst (batch_wakeup env w g2)") (auto simp: process_next_def Let_def)
    from wakeup_failed [OF this] config calm events
    have "sent g' = sent g2" "cf_mode (eg_config ?g1) = BatchMode" "\<And>fu. ev_kind ev \<noteq> Funding fu" by auto
    with dispatch_batch [of ?g1 "ev_kind ev" env] d show ?thesis by simp
  qed (use assms(1) p d in \<open>simp add: process_next_def Let_def\<close>)
  moreover have "engine_acts False ?g1 g'"
    using assms(1) p by (rule process_next_acts) simp_all
  then have "eq_events (eg_queue g) \<subseteq># add_mset ev (eq_events (eg_queue g'))"
    using acts_queue_grow [of False ?g1 g'] events by simp
  moreover have "command_events ?g1 \<subseteq># command_events g" using events by (simp add: command_events_def)
  ultimately show ?thesis by (auto simp: sent_def)
qed

text \<open>
  C10. A failing step sends nothing. When a step ends with an error, of a source, of a callback or of
  the depth data, the commands of the failing callback are dropped as a whole: no order identifier is
  used up, no order and no cancel request is on its way that was not before, and at most the one event
  the step was processing has left the queue. In batch mode this asks that no funding event is queued,
  since \<open>on_funding\<close> is then called, and its commands are carried out, before the flush that may fail.
\<close>

theorem failing_step_sends_nothing:
  assumes "engine_step env g = Some (Inl e, g')"
    and "cf_mode (eg_config g) = TickMode \<or> (\<forall>ev\<in>#eq_events (eg_queue g). \<forall>fu. ev_kind ev \<noteq> Funding fu)"
  shows "eg_next_order_id g' = eg_next_order_id g \<and> command_events g' \<subseteq># command_events g \<and>
    (\<exists>ev. eq_events (eg_queue g) \<subseteq># add_mset ev (eq_events (eg_queue g')))"
proof -
  obtain ri g1 where i: "ingest env g = Some (ri, g1)" using assms(1) by (auto simp: engine_step_def split: option.splits)
  have fed: "fed g g1" using i by (rule fed_ingest)
  have same: "eg_next_order_id g1 = eg_next_order_id g" "command_events g1 = command_events g" "eg_config g1 = eg_config g"
    using ingest_same [OF i] fed by (simp_all add: books_same_def fed_def)
  show ?thesis
  proof (cases ri)
    case (Inl e')
    with assms(1) i have "g' = g1" by (simp add: engine_step_def)
    with fed same show ?thesis unfolding fed_def by (auto intro!: exI subset_add_mset)
  next
    case (Inr u)
    with assms(1) i have p: "process_next env g1 = (Inl e, g')" by (simp add: engine_step_def)
    have "cf_mode (eg_config g1) = TickMode \<or> (\<forall>ev\<in>#eq_events (eg_queue g1). \<forall>fu. ev_kind ev \<noteq> Funding fu)"
      using assms(2) fed same by (auto simp: fed_def)
    from process_failed [OF p this] same obtain ev
      where ev: "eq_events (eg_queue g1) \<subseteq># add_mset ev (eq_events (eg_queue g'))"
        and rest: "eg_next_order_id g' = eg_next_order_id g" "command_events g' \<subseteq># command_events g"
      by auto
    have "eq_events (eg_queue g) \<subseteq># add_mset ev (eq_events (eg_queue g'))"
      using fed ev unfolding fed_def by (blast intro: subset_mset.order_trans)
    with rest show ?thesis by blast
  qed
qed

text \<open>A strategy that sends an order and a cancel request on every tick and then fails.\<close>

definition failing_buy :: "(tick, bool, unit) callback" where
  "failing_buy t cx s = (Inl (), cx_cancel_order 1 (cx_submit_order (buy_order 100 5) cx), s)"

definition failing_env :: sample_env where
  "failing_env = sample_env\<lparr>en_strategy := strategy_with_defaults failing_buy ignore_report\<rparr>"

theorem failing_step_sends_nothing_witness:
  "\<exists>g'. engine_step failing_env (run_steps 1 failing_env sample_engine) = Some (Inl (StrategyErr ()), g') \<and>
     eg_next_order_id g' = 1 \<and> command_events g' = {#}"
proof -
  let ?g = "run_steps 1 failing_env sample_engine"
  have "map_option fst (engine_step failing_env ?g) = Some (Inl (StrategyErr ()))"
    and idle: "cf_mode (eg_config ?g) = TickMode" "eg_next_order_id ?g = 1"
    and q: "filter (\<lambda>ev. command_event (qe_event ev)) (eq_heap (eg_queue ?g)) = []"
    by code_simp+
  then obtain g' where s: "engine_step failing_env ?g = Some (Inl (StrategyErr ()), g')" by auto
  have "command_events ?g = {#}"
    using q by (auto simp: command_events_def eq_events_def filter_empty_conv)
  with failing_step_sends_nothing [OF s disjI1 [OF idle(1)]] idle(2) s show ?thesis by simp
qed

end
