(* ===== verification/Io.thy ===== *)
theory Io
  imports Prelude
begin

text \<open>
  \<open>io.rs\<close>: the cursor over a memory-mapped file and the iterator that prefetches batches in a
  background thread. The mapped file is the list of its bytes. The thread, the bounded channel
  and the consumer are a step relation over every interleaving of the two threads; the channel
  does what std documents of \<open>sync_channel\<close>: it holds up to \<open>readahead\<close> messages, with capacity 0
  it hands each message over, and once the sender is gone and the channel empty \<open>recv\<close> fails.
  The consumer keeps the iterator: that the thread ends early when the receiver has been dropped, which
  the code does on a failing \<open>send\<close>, is not modelled, since no call of \<open>next\<close> can follow.
\<close>

section \<open>The cursor\<close>

record mmap_cursor =
  mc_inner :: "u8 list"
  mc_pos :: u64

datatype seek_from = SeekStart u64 | SeekEnd i64 | SeekCurrent i64

definition mmap_cursor_new :: "u8 list \<Rightarrow> mmap_cursor" where
  "mmap_cursor_new mmap = \<lparr>mc_inner = mmap, mc_pos = 0\<rparr>"

text \<open>\<open>read\<close> fills a prefix of the caller's buffer and returns its length.\<close>

definition cursor_read :: "u8 list \<Rightarrow> mmap_cursor \<Rightarrow> (usize \<times> u8 list) \<times> mmap_cursor" where
  "cursor_read buf c =
     (let len = length (mc_inner c)
      in if mc_pos c \<ge> len then ((0, buf), c)
         else
           let remain = len - mc_pos c;
               to_read = min remain (length buf)
           in ((to_read, take to_read (drop (mc_pos c) (mc_inner c)) @ drop to_read buf),
               c\<lparr>mc_pos := mc_pos c + to_read\<rparr>))"

definition saturating_add_u64 :: "u64 \<Rightarrow> u64 \<Rightarrow> u64" where
  "saturating_add_u64 a b = min (a + b) (2 ^ 64 - 1)"

definition i64_as_u64 :: "i64 \<Rightarrow> u64" where
  "i64_as_u64 i = nat (i mod 2 ^ 64)"

definition seek_by :: "u64 \<Rightarrow> i64 \<Rightarrow> u64" where
  "seek_by base delta =
     (if delta \<ge> 0 then saturating_add_u64 base (i64_as_u64 delta)
      else base - i64_as_u64 (neg_i64 delta))"

definition cursor_seek :: "seek_from \<Rightarrow> mmap_cursor \<Rightarrow> u64 \<times> mmap_cursor" where
  "cursor_seek p c =
     (let new_pos = (case p of
            SeekStart q \<Rightarrow> q
          | SeekEnd delta \<Rightarrow> seek_by (length (mc_inner c)) delta
          | SeekCurrent delta \<Rightarrow> seek_by (mc_pos c) delta)
      in (new_pos, c\<lparr>mc_pos := new_pos\<rparr>))"

section \<open>The loader\<close>

text \<open>
  Opening and mapping a file and arrow's \<open>StreamReader\<close> are arguments: the first gives the bytes of
  the file or an error, the second a reader over a cursor. Every reader gets a cursor of its own, at
  the start of the same bytes.
\<close>

record mmap_file_loader =
  ml_mmap :: "u8 list"

definition loader_new :: "('path \<Rightarrow> 'e + u8 list) \<Rightarrow> 'path \<Rightarrow> 'e + mmap_file_loader" where
  "loader_new open_and_map path =
     (case open_and_map path of Inl e \<Rightarrow> Inl e | Inr mmap \<Rightarrow> Inr \<lparr>ml_mmap = mmap\<rparr>)"

definition loader_reader :: "(mmap_cursor \<Rightarrow> 'ae + 'reader) \<Rightarrow> mmap_file_loader \<Rightarrow> 'ae + 'reader" where
  "loader_reader stream_reader loader = stream_reader (mmap_cursor_new (ml_mmap loader))"

text \<open>The bytes a sequence of reads returns, for buffers of the given sizes.\<close>

fun read_all :: "usize list \<Rightarrow> mmap_cursor \<Rightarrow> u8 list" where
  "read_all [] c = []"
| "read_all (n # ns) c =
     (case cursor_read (replicate n 0) c of ((k, buf), c') \<Rightarrow> take k buf @ read_all ns c')"

lemma cursor_read_bytes:
  "cursor_read buf c = ((k, buf'), c') \<Longrightarrow>
     take k buf' = take (length buf) (drop (mc_pos c) (mc_inner c)) \<and>
     mc_inner c' = mc_inner c \<and> mc_pos c' = mc_pos c + k \<and>
     k = min (length buf) (length (mc_inner c) - mc_pos c) \<and> length buf' = length buf \<and>
     drop k buf' = drop k buf"
  by (auto simp: cursor_read_def Let_def min_def split: if_splits)

lemma read_all_bytes: "read_all ns c = take (sum_list ns) (drop (mc_pos c) (mc_inner c))"
proof (induction ns arbitrary: c)
  case (Cons n ns)
  obtain k buf c' where r: "cursor_read (replicate n 0) c = ((k, buf), c')"
    by (metis prod.exhaust)
  note b = cursor_read_bytes [OF r]
  have "drop (mc_pos c') (mc_inner c') = drop n (drop (mc_pos c) (mc_inner c))"
    using b by (auto simp: min_def add.commute)
  with Cons.IH [of c'] b have "read_all ns c' = take (sum_list ns) (drop n (drop (mc_pos c) (mc_inner c)))"
    by simp
  moreover have "take k buf = take n (drop (mc_pos c) (mc_inner c))"
    using conjunct1 [OF b] by (simp only: length_replicate)
  ultimately show ?case by (simp only: read_all.simps r prod.case) (simp only: sum_list.Cons take_add)
qed simp

text \<open>A reader that reads to the end sees the whole file.\<close>

lemma loader_reads_file:
  assumes "loader_new open_and_map path = Inr loader" and "open_and_map path = Inr bytes"
    and "length bytes \<le> sum_list ns"
  shows "loader_reader (\<lambda>c. Inr (read_all ns c)) loader = Inr bytes"
  using assms by (auto simp: loader_new_def loader_reader_def read_all_bytes mmap_cursor_new_def)

lemma seek_by_exact:
  assumes "in_i64 delta" and "base < 2 ^ 64"
  shows "int (seek_by base delta) = max 0 (min (int base + delta) (2 ^ 64 - 1))"
proof (cases "delta \<ge> 0")
  case True
  with assms have "i64_as_u64 delta = nat delta" by (simp add: i64_as_u64_def in_i64_def)
  with True assms show ?thesis by (simp add: seek_by_def saturating_add_u64_def)
next
  case False
  have "i64_as_u64 (neg_i64 delta) = nat (- delta)"
  proof (cases "delta = i64_min")
    case True
    then show ?thesis by (simp add: i64_as_u64_def neg_i64_def wrap_i64_def)
  next
    case d: False
    with assms have "neg_i64 delta = - delta" by (intro neg_i64_exact) (simp add: in_i64_def)
    with assms False show ?thesis by (simp add: i64_as_u64_def in_i64_def)
  qed
  with False assms show ?thesis by (simp add: seek_by_def min_def max_def)
qed

text \<open>Where a seek aims before it is clamped to the range of positions.\<close>

definition seek_target :: "seek_from \<Rightarrow> mmap_cursor \<Rightarrow> int" where
  "seek_target p c =
     (case p of SeekStart q \<Rightarrow> int q
      | SeekEnd delta \<Rightarrow> int (length (mc_inner c)) + delta
      | SeekCurrent delta \<Rightarrow> int (mc_pos c) + delta)"

definition seek_ok :: "seek_from \<Rightarrow> mmap_cursor \<Rightarrow> bool" where
  "seek_ok p c \<longleftrightarrow> mc_pos c < 2 ^ 64 \<and> length (mc_inner c) < 2 ^ 64 \<and>
     (case p of SeekStart q \<Rightarrow> q < 2 ^ 64 | SeekEnd delta \<Rightarrow> in_i64 delta | SeekCurrent delta \<Rightarrow> in_i64 delta)"

text \<open>
  C38. After any seek, reads return exactly the bytes of the file from the position sought, in
  order and whatever the sizes of the buffers; a position before the start becomes the start,
  where std's \<open>Seek\<close> asks for an error.
\<close>

theorem reads_follow_seek:
  assumes "seek_ok p c"
  shows "read_all ns (snd (cursor_seek p c)) =
    take (sum_list ns) (drop (nat (max 0 (min (seek_target p c) (2 ^ 64 - 1)))) (mc_inner c))"
proof -
  have "int (mc_pos (snd (cursor_seek p c))) = max 0 (min (seek_target p c) (2 ^ 64 - 1))"
    using assms by (cases p) (simp_all add: cursor_seek_def Let_def seek_ok_def seek_target_def seek_by_exact)
  then have pos: "mc_pos (snd (cursor_seek p c)) = nat (max 0 (min (seek_target p c) (2 ^ 64 - 1)))"
    by (metis nat_int)
  have "mc_inner (snd (cursor_seek p c)) = mc_inner c" by (simp add: cursor_seek_def Let_def)
  then show ?thesis by (simp only: read_all_bytes pos)
qed

theorem reads_follow_seek_witness:
  "read_all [2, 2] (snd (cursor_seek (SeekEnd (-3)) (mmap_cursor_new [1, 2, 3, 4, 5]))) = [3, 4, 5] \<and>
   read_all [2] (snd (cursor_seek (SeekCurrent (-9)) (mmap_cursor_new [1, 2, 3, 4, 5]))) = [1, 2]"
  by (subst (1 2) reads_follow_seek)
    (simp_all add: seek_ok_def seek_target_def mmap_cursor_new_def in_i64_def)

section \<open>Prefetching\<close>

text \<open>
  What the inner iterator does when the thread asks it for the next item: it yields one, or it
  panics, which ends the thread and drops the sender; it is exhausted after the last entry.
\<close>

datatype 'a yielded = Item 'a | Panics

text \<open>
  The thread is about to fetch, holds a message it is sending (\<open>None\<close> is the end signal), or is gone.
  \<open>ai_returned\<close> is what the calls of \<open>next\<close> have returned so far.
\<close>

datatype 'a worker = Fetching | Sending "'a option" | Gone

record 'a async_batch_iter =
  ai_inner :: "'a yielded list"
  ai_worker :: "'a worker"
  ai_readahead :: usize
  ai_channel :: "'a option list"
  ai_returned :: "'a option list"

definition async_new :: "'a yielded list \<Rightarrow> usize \<Rightarrow> 'a async_batch_iter" where
  "async_new inner readahead =
     \<lparr>ai_inner = inner, ai_worker = Fetching, ai_readahead = readahead, ai_channel = [], ai_returned = []\<rparr>"

text \<open>The state of the loop \<open>for item in inner\<close> after a message has been sent.\<close>

fun after_send :: "'a option \<Rightarrow> 'a worker" where
  "after_send (Some _) = Fetching"
| "after_send None = Gone"

inductive thread_step :: "'a async_batch_iter \<Rightarrow> 'a async_batch_iter \<Rightarrow> bool" where
  fetch: "ai_worker s = Fetching \<Longrightarrow> ai_inner s = Item x # xs \<Longrightarrow>
    thread_step s (s\<lparr>ai_inner := xs, ai_worker := Sending (Some x)\<rparr>)"
| exhausted: "ai_worker s = Fetching \<Longrightarrow> ai_inner s = [] \<Longrightarrow> thread_step s (s\<lparr>ai_worker := Sending None\<rparr>)"
| panic: "ai_worker s = Fetching \<Longrightarrow> ai_inner s = Panics # xs \<Longrightarrow> thread_step s (s\<lparr>ai_worker := Gone\<rparr>)"
| send: "ai_worker s = Sending m \<Longrightarrow> length (ai_channel s) < ai_readahead s \<Longrightarrow>
    thread_step s (s\<lparr>ai_channel := ai_channel s @ [m], ai_worker := after_send m\<rparr>)"

text \<open>One call of \<open>next\<close> returns: with a message, or with the failure of \<open>recv\<close> turned into \<open>None\<close>.\<close>

inductive next_step :: "'a async_batch_iter \<Rightarrow> 'a async_batch_iter \<Rightarrow> bool" where
  recv: "ai_channel s = m # ms \<Longrightarrow>
    next_step s (s\<lparr>ai_channel := ms, ai_returned := ai_returned s @ [m]\<rparr>)"
| hand_over: "ai_readahead s = 0 \<Longrightarrow> ai_channel s = [] \<Longrightarrow> ai_worker s = Sending m \<Longrightarrow>
    next_step s (s\<lparr>ai_worker := after_send m, ai_returned := ai_returned s @ [m]\<rparr>)"
| hung_up: "ai_channel s = [] \<Longrightarrow> ai_worker s = Gone \<Longrightarrow>
    next_step s (s\<lparr>ai_returned := ai_returned s @ [None]\<rparr>)"

definition async_step :: "'a async_batch_iter \<Rightarrow> 'a async_batch_iter \<Rightarrow> bool" where
  "async_step s s' \<longleftrightarrow> thread_step s s' \<or> next_step s s'"

text \<open>The items before the first panic, and what iterating over them without a thread returns.\<close>

fun items :: "'a yielded list \<Rightarrow> 'a list" where
  "items (Item x # ys) = x # items ys"
| "items _ = []"

definition sync_results :: "'a list \<Rightarrow> nat \<Rightarrow> 'a option list" where
  "sync_results xs n = take n (map Some xs @ replicate n None)"

text \<open>
  The messages still to come, in order: the channel's, the one in the thread's hands, and those
  of the items not fetched yet. \<open>n\<close> calls of \<open>next\<close> on them and then on a dead channel give \<open>sync_results\<close>.
\<close>

fun held :: "'a worker \<Rightarrow> 'a option list" where
  "held (Sending m) = [m]"
| "held _ = []"

definition unfetched :: "'a async_batch_iter \<Rightarrow> 'a option list" where
  "unfetched s = (if ai_worker s = Gone \<or> ai_worker s = Sending None then [] else map Some (items (ai_inner s)))"

definition async_inv :: "'a list \<Rightarrow> 'a async_batch_iter \<Rightarrow> bool" where
  "async_inv xs s \<longleftrightarrow>
     (\<exists>k. ai_returned s @ ai_channel s @ held (ai_worker s) @ unfetched s = map Some xs @ replicate k None \<and>
        (ai_worker s \<noteq> Gone \<and> ai_worker s \<noteq> Sending None \<longrightarrow> k = 0)) \<and>
     length (ai_channel s) \<le> ai_readahead s"


lemma async_inv_new: "async_inv (items inner) (async_new inner readahead)"
  by (auto simp: async_inv_def async_new_def unfetched_def intro!: exI [of _ 0])

lemma async_inv_step:
  assumes "async_step s s'" and "async_inv xs s"
  shows "async_inv xs s'"
proof -
  from assms(2) obtain k where
    eq: "ai_returned s @ ai_channel s @ held (ai_worker s) @ unfetched s = map Some xs @ replicate k None"
    and k: "ai_worker s \<noteq> Gone \<and> ai_worker s \<noteq> Sending None \<longrightarrow> k = 0"
    and len: "length (ai_channel s) \<le> ai_readahead s"
    by (auto simp: async_inv_def)
  note inv = async_inv_def unfetched_def
  from assms(1) consider "thread_step s s'" | "next_step s s'" by (auto simp: async_step_def)
  then show ?thesis
  proof cases
    case 1
    then show ?thesis
    proof cases
      case fetch
      with eq k len show ?thesis by (auto simp: inv intro!: exI [of _ 0])
    next
      case exhausted
      with eq k len show ?thesis by (auto simp: inv intro!: exI [of _ 1])
    next
      case (panic ys)
      with eq k len show ?thesis by (auto simp: inv)
    next
      case (send m)
      with eq k len show ?thesis by (cases m) (auto simp: inv)
    qed
  next
    case 2
    then show ?thesis
    proof cases
      case recv
      with eq k len show ?thesis by (auto simp: inv)
    next
      case (hand_over m)
      with eq k len show ?thesis by (cases m) (auto simp: inv)
    next
      case hung_up
      with eq have "(ai_returned s @ [None]) @ [] = map Some xs @ replicate (Suc k) None"
        by (simp add: unfetched_def replicate_append_same)
      with hung_up len show ?thesis by (auto simp: inv intro!: exI [of _ "Suc k"])
    qed
  qed
qed

lemma async_inv_reach: "async_step\<^sup>*\<^sup>* (async_new inner readahead) s \<Longrightarrow> async_inv (items inner) s"
  by (induction rule: rtranclp_induct) (auto intro: async_inv_new async_inv_step)

lemma take_padded: "n \<le> length xs + k \<Longrightarrow> take n (xs @ replicate k v) = take n (xs @ replicate n v)"
  by (auto simp: min_def)

text \<open>
  C36. Prefetching changes nothing the consumer can see: in every interleaving of the thread and
  the consumer, and for every size of the channel, the calls of \<open>next\<close> return what iterating
  without a thread returns, each item once and in order and then \<open>None\<close> for ever. The thread is
  never more than \<open>readahead + 1\<close> messages ahead. A panic of the inner iterator looks like its end.
\<close>

theorem async_iter_equals_sync:
  assumes "async_step\<^sup>*\<^sup>* (async_new inner readahead) s"
  shows "ai_returned s = sync_results (items inner) (length (ai_returned s)) \<and>
    length (ai_channel s) + length (held (ai_worker s)) \<le> ai_readahead s + 1"
proof -
  from async_inv_reach [OF assms] obtain k rest where
    eq: "ai_returned s @ rest = map Some (items inner) @ replicate k None"
    and len: "length (ai_channel s) \<le> ai_readahead s"
    by (auto simp: async_inv_def)
  let ?n = "length (ai_returned s)"
  have "ai_returned s = take ?n (ai_returned s @ rest)" by simp
  also have "\<dots> = take ?n (map Some (items inner) @ replicate k None)" by (simp only: eq)
  also have "\<dots> = sync_results (items inner) ?n"
  proof -
    have "length (ai_returned s @ rest) = length (items inner) + k" by (simp only: eq) simp
    then have "?n \<le> length (map Some (items inner)) + k" by simp
    from take_padded [OF this] show ?thesis by (simp add: sync_results_def)
  qed
  finally have "ai_returned s = sync_results (items inner) ?n" .
  moreover have "length (held (ai_worker s)) \<le> 1" by (cases "ai_worker s") auto
  ultimately show ?thesis using len by simp
qed

theorem async_iter_equals_sync_witness:
  "\<exists>s. async_step\<^sup>*\<^sup>* (async_new [Item (7::nat), Panics] 1) s \<and> ai_returned s = [Some 7, None]"
proof -
  let ?s0 = "async_new [Item (7::nat), Panics] 1"
  let ?s1 = "?s0\<lparr>ai_inner := [Panics], ai_worker := Sending (Some 7)\<rparr>"
  let ?s2 = "?s1\<lparr>ai_channel := [Some 7], ai_worker := Fetching\<rparr>"
  let ?s3 = "?s2\<lparr>ai_worker := Gone\<rparr>"
  let ?s4 = "?s3\<lparr>ai_channel := [], ai_returned := [Some 7]\<rparr>"
  let ?s5 = "?s4\<lparr>ai_returned := [Some 7, None]\<rparr>"
  have "async_step ?s0 ?s1" using fetch [of ?s0 7 "[Panics]"] by (simp add: async_step_def async_new_def)
  moreover have "async_step ?s1 ?s2" using send [of ?s1 "Some 7"] by (simp add: async_step_def async_new_def)
  moreover have "async_step ?s2 ?s3" using panic [of ?s2 "[]"] by (simp add: async_step_def async_new_def)
  moreover have "async_step ?s3 ?s4" using recv [of ?s3 "Some 7" "[]"] by (simp add: async_step_def async_new_def)
  moreover have "async_step ?s4 ?s5" using hung_up [of ?s4] by (simp add: async_step_def async_new_def)
  ultimately have reach: "async_step\<^sup>*\<^sup>* ?s0 ?s5" by (blast intro: converse_rtranclp_into_rtranclp rtranclp.rtrancl_refl)
  have "ai_returned ?s5 = sync_results [7] 2"
    using conjunct1 [OF async_iter_equals_sync [OF reach]] by (simp add: numeral_2_eq_2)
  then have "ai_returned ?s5 = [Some 7, None]" by (simp add: sync_results_def numeral_2_eq_2)
  with reach show ?thesis by blast
qed

fun worker_rank :: "'a worker \<Rightarrow> nat" where
  "worker_rank Fetching = 2"
| "worker_rank (Sending (Some _)) = 3"
| "worker_rank (Sending None) = 1"
| "worker_rank Gone = 0"

definition thread_rank :: "'a async_batch_iter \<Rightarrow> nat" where
  "thread_rank s = 2 * length (ai_inner s) + worker_rank (ai_worker s)"

lemma thread_step_rank:
  assumes "thread_step s s'"
  shows "thread_rank s' < thread_rank s"
  using assms
proof cases
  case (send m)
  then show ?thesis by (cases m) (simp_all add: thread_rank_def)
qed (simp_all add: thread_rank_def)

text \<open>
  C37. \<open>next\<close> always returns, whatever the scheduler does: whenever a call cannot return yet, the
  thread can take a step, and the thread can only take finitely many steps in a row. This holds
  in every state, a channel of capacity 0 included.
\<close>

theorem async_next_returns:
  "((\<exists>s'. next_step s s') \<or> (\<exists>s'. thread_step s s')) \<and>
   (thread_step s s' \<longrightarrow> thread_rank s' < thread_rank s)"
proof -
  have "(\<exists>s'. next_step s s') \<or> (\<exists>s'. thread_step s s')"
  proof (cases "ai_channel s")
    case (Cons m ms)
    then show ?thesis by (blast intro: recv)
  next
    case Nil
    show ?thesis
    proof (cases "ai_worker s")
      case Fetching
      show ?thesis
      proof (cases "ai_inner s")
        case (Cons y ys)
        with Fetching show ?thesis by (cases y) (blast intro: fetch panic)+
      qed (use Fetching in \<open>blast intro: exhausted\<close>)
    next
      case (Sending m)
      show ?thesis
      proof (cases "ai_readahead s = 0")
        case True
        from hand_over [OF this Nil Sending] show ?thesis by blast
      next
        case False
        with Nil have "length (ai_channel s) < ai_readahead s" by simp
        from send [OF Sending this] show ?thesis by blast
      qed
    qed (use Nil in \<open>blast intro: hung_up\<close>)
  qed
  then show ?thesis using thread_step_rank by blast
qed

theorem async_next_returns_witness:
  "\<exists>s. thread_step (async_new [Item (1::nat)] 0) s \<and> thread_rank s < thread_rank (async_new [Item (1::nat)] 0)"
proof -
  have "thread_step (async_new [Item (1::nat)] 0)
    ((async_new [Item 1] 0)\<lparr>ai_inner := [], ai_worker := Sending (Some 1)\<rparr>)"
    by (rule fetch) (simp_all add: async_new_def)
  then show ?thesis using async_next_returns by blast
qed

end
