(* ===== verification/PyObjects.thy ===== *)
theory PyObjects
  imports EngineTypes
begin

text \<open>
  \<open>backtester-py/src/lib.rs\<close>, first part: the Python objects and dicts that ticks, reports, trades and
  statistics are turned into. A dict is the list of its items in the order the code sets them; a
  \<open>pyarrow.Array\<close> is the list of its values. PyO3 and the Arrow C data interface, which carry the
  values over to Python, are not part of the repository.
\<close>

section \<open>Values and errors\<close>

datatype py_value =
    PyInt int | PyBool bool | PyStr string | PyFloat f64 | PyNone
  | PyIntArray "int list" | PyBoolArray "bool list"

type_synonym py_dict = "(string \<times> py_value) list"

text \<open>
  \<open>PyErr\<close>: the exceptions the code makes, the \<open>TypeError\<close> PyO3 makes of a failed cast, and
  whatever Python code raises.
\<close>

datatype 'x py_err =
    PyValueError string | PyTypeError string | PyKeyError string | PyRuntimeError string
  | PyCastError | PyRaised 'x

definition quoted :: "string \<Rightarrow> string" where
  "quoted s = CHR 0x27 # s @ [CHR 0x27]"

text \<open>A \<open>match\<close> on the name of a field.\<close>

definition lookup_field :: "py_dict \<Rightarrow> string \<Rightarrow> 'x py_err + py_value" where
  "lookup_field items key =
     (case map_of items key of None \<Rightarrow> Inl (PyKeyError key) | Some v \<Rightarrow> Inr v)"

section \<open>Ticks\<close>

record py_tick =
  pt_ts_exchange :: i64
  pt_ts_local :: i64
  pt_seq :: u64
  pt_symbol_id :: u32
  pt_price :: i64
  pt_qty :: i64
  pt_side :: int
  pt_flags :: u8

definition tick_to_pyobject :: "tick \<Rightarrow> py_tick" where
  "tick_to_pyobject t =
     \<lparr>pt_ts_exchange = tk_ts_exchange t, pt_ts_local = tk_ts_local t, pt_seq = tk_seq t,
      pt_symbol_id = tk_symbol_id t, pt_price = tk_price t, pt_qty = tk_qty t,
      pt_side = as_i8 (tk_side t), pt_flags = tk_flags t\<rparr>"

definition tick_getitem :: "py_tick \<Rightarrow> string \<Rightarrow> 'x py_err + py_value" where
  "tick_getitem t =
     lookup_field
       [(''ts_exchange'', PyInt (pt_ts_exchange t)), (''ts_local'', PyInt (pt_ts_local t)),
        (''seq'', PyInt (int (pt_seq t))), (''symbol_id'', PyInt (int (pt_symbol_id t))),
        (''price'', PyInt (pt_price t)), (''qty'', PyInt (pt_qty t)), (''side'', PyInt (pt_side t)),
        (''flags'', PyInt (int (pt_flags t)))]"

definition tick_repr :: "py_tick \<Rightarrow> string" where
  "tick_repr t =
     ''Tick(ts_exchange='' @ show_int (pt_ts_exchange t) @ '', symbol_id='' @ show_nat (pt_symbol_id t) @
     '', price='' @ show_int (pt_price t) @ '', qty='' @ show_int (pt_qty t) @
     '', side='' @ show_int (pt_side t) @ '')''"

section \<open>Order reports\<close>

text \<open>\<open>format!("{:?}", status)\<close>\<close>

fun status_name :: "order_state \<Rightarrow> string" where
  "status_name Created = ''Created''"
| "status_name PendingNew = ''PendingNew''"
| "status_name Open = ''Open''"
| "status_name PartiallyFilled = ''PartiallyFilled''"
| "status_name PendingCancel = ''PendingCancel''"
| "status_name Cancelled = ''Cancelled''"
| "status_name Filled = ''Filled''"
| "status_name Rejected = ''Rejected''"

record py_order_report =
  pr_order_id :: u64
  pr_client_order_id :: u64
  pr_symbol_id :: u32
  pr_status :: string
  pr_last_fill_qty :: i64
  pr_last_fill_price :: i64
  pr_filled_qty :: i64
  pr_remaining_qty :: i64
  pr_reason :: "string option"

definition order_report_to_pyobject :: "order_report \<Rightarrow> py_order_report" where
  "order_report_to_pyobject r =
     \<lparr>pr_order_id = rp_order_id r, pr_client_order_id = rp_client_order_id r,
      pr_symbol_id = rp_symbol_id r, pr_status = status_name (rp_status r),
      pr_last_fill_qty = rp_last_fill_qty r, pr_last_fill_price = rp_last_fill_price r,
      pr_filled_qty = rp_filled_qty r, pr_remaining_qty = rp_remaining_qty r,
      pr_reason = rp_reason r\<rparr>"

definition report_fields :: "py_order_report \<Rightarrow> py_dict" where
  "report_fields r =
     [(''order_id'', PyInt (int (pr_order_id r))), (''client_order_id'', PyInt (int (pr_client_order_id r))),
      (''symbol_id'', PyInt (int (pr_symbol_id r))), (''status'', PyStr (pr_status r)),
      (''last_fill_qty'', PyInt (pr_last_fill_qty r)), (''last_fill_price'', PyInt (pr_last_fill_price r)),
      (''filled_qty'', PyInt (pr_filled_qty r)), (''remaining_qty'', PyInt (pr_remaining_qty r)),
      (''reason'', case pr_reason r of None \<Rightarrow> PyNone | Some s \<Rightarrow> PyStr s)]"

definition report_getitem :: "py_order_report \<Rightarrow> string \<Rightarrow> 'x py_err + py_value" where
  "report_getitem r key = lookup_field (report_fields r) key"

definition report_get :: "py_order_report \<Rightarrow> string \<Rightarrow> py_value option \<Rightarrow> py_value" where
  "report_get r key dflt =
     (case map_of (report_fields r) key of
        Some v \<Rightarrow> v
      | None \<Rightarrow> (case dflt of None \<Rightarrow> PyNone | Some v \<Rightarrow> v))"

definition report_repr :: "py_order_report \<Rightarrow> string" where
  "report_repr r =
     ''OrderReport(order_id='' @ show_nat (pr_order_id r) @
     '', client_order_id='' @ show_nat (pr_client_order_id r) @
     '', symbol_id='' @ show_nat (pr_symbol_id r) @ '', status='' @ pr_status r @
     '', last_fill_qty='' @ show_int (pr_last_fill_qty r) @
     '', filled_qty='' @ show_int (pr_filled_qty r) @
     '', remaining_qty='' @ show_int (pr_remaining_qty r) @ '')''"

section \<open>Results\<close>

record backtest_result =
  br_trades :: "trade_fill list"
  br_stats :: backtest_stats
  br_equity_curve :: "(i64 \<times> i64) list"

definition trade_fill_to_pydict :: "trade_fill \<Rightarrow> py_dict" where
  "trade_fill_to_pydict t =
     [(''ts_exchange'', PyInt (tf_ts_exchange t)), (''symbol_id'', PyInt (int (tf_symbol_id t))),
      (''order_id'', PyInt (int (tf_order_id t))), (''side'', PyInt (as_i8 (tf_side t))),
      (''price'', PyInt (tf_price t)), (''qty'', PyInt (tf_qty t)), (''fee'', PyInt (tf_fee t)),
      (''is_taker'', PyBool (tf_is_taker t))]"

definition result_trades :: "backtest_result \<Rightarrow> py_dict list" where
  "result_trades r = map trade_fill_to_pydict (br_trades r)"

definition trades_df :: "backtest_result \<Rightarrow> py_dict" where
  "trades_df r =
     (let ts = br_trades r in
     [(''ts_exchange'', PyIntArray (map tf_ts_exchange ts)),
      (''symbol_id'', PyIntArray (map (\<lambda>t. int (tf_symbol_id t)) ts)),
      (''order_id'', PyIntArray (map (\<lambda>t. int (tf_order_id t)) ts)),
      (''side'', PyIntArray (map (\<lambda>t. as_i8 (tf_side t)) ts)),
      (''price'', PyIntArray (map tf_price ts)), (''qty'', PyIntArray (map tf_qty ts)),
      (''fee'', PyIntArray (map tf_fee ts)), (''is_taker'', PyBoolArray (map tf_is_taker ts)),
      (''_len'', PyInt (int (length ts)))])"

definition equity_curve_df :: "backtest_result \<Rightarrow> py_dict" where
  "equity_curve_df r =
     [(''ts_exchange'', PyIntArray (map fst (br_equity_curve r))),
      (''equity'', PyIntArray (map snd (br_equity_curve r))),
      (''_len'', PyInt (int (length (br_equity_curve r))))]"

definition backtest_stats_to_pydict :: "backtest_stats \<Rightarrow> py_dict" where
  "backtest_stats_to_pydict s =
     [(''total_trades'', PyInt (int (bs_total_trades s))), (''win_rate'', PyFloat (bs_win_rate s)),
      (''profit_factor'', PyFloat (bs_profit_factor s)), (''sharpe_ratio'', PyFloat (bs_sharpe_ratio s)),
      (''sortino_ratio'', PyFloat (bs_sortino_ratio s)), (''max_drawdown'', PyFloat (bs_max_drawdown s)),
      (''max_drawdown_duration'', PyInt (bs_max_drawdown_duration s)),
      (''calmar_ratio'', PyFloat (bs_calmar_ratio s)), (''total_pnl'', PyInt (bs_total_pnl s)),
      (''avg_trade_pnl'', PyInt (bs_avg_trade_pnl s)),
      (''avg_holding_period'', PyInt (bs_avg_holding_period s)),
      (''total_fees_paid'', PyInt (bs_total_fees_paid s)), (''killed'', PyBool (bs_killed s))]"

definition result_stats :: "backtest_result \<Rightarrow> py_dict" where
  "result_stats r = backtest_stats_to_pydict (br_stats r)"

definition unscaled :: "i64 \<Rightarrow> py_value" where
  "unscaled v = PyFloat (f64_div (f64_of_int v) (f64_of_int 100000000))"

definition stats_human :: "backtest_result \<Rightarrow> py_dict" where
  "stats_human r =
     (let s = br_stats r in
     [(''total_trades'', PyInt (int (bs_total_trades s))), (''win_rate'', PyFloat (bs_win_rate s)),
      (''profit_factor'', PyFloat (bs_profit_factor s)), (''sharpe_ratio'', PyFloat (bs_sharpe_ratio s)),
      (''sortino_ratio'', PyFloat (bs_sortino_ratio s)), (''max_drawdown'', PyFloat (bs_max_drawdown s)),
      (''max_drawdown_duration'', PyInt (bs_max_drawdown_duration s)),
      (''calmar_ratio'', PyFloat (bs_calmar_ratio s)), (''total_pnl'', unscaled (bs_total_pnl s)),
      (''avg_trade_pnl'', unscaled (bs_avg_trade_pnl s)),
      (''avg_holding_period'', PyInt (bs_avg_holding_period s)),
      (''total_fees_paid'', unscaled (bs_total_fees_paid s)), (''killed'', PyBool (bs_killed s))])"

section \<open>Rows and columns agree\<close>

text \<open>The value in row \<open>i\<close> of a column.\<close>

fun array_value :: "py_value \<Rightarrow> nat \<Rightarrow> py_value option" where
  "array_value (PyIntArray xs) i = (if i < length xs then Some (PyInt (xs ! i)) else None)"
| "array_value (PyBoolArray xs) i = (if i < length xs then Some (PyBool (xs ! i)) else None)"
| "array_value _ i = None"

text \<open>
  C1. The two exports of the trades agree: row \<open>i\<close> of the columns of \<open>trades_df\<close> is, field by
  field, the dict at position \<open>i\<close> of \<open>trades\<close>, and \<open>_len\<close> is the number of dicts.
\<close>

theorem trades_df_rows:
  assumes "i < length (result_trades r)"
  shows "map (\<lambda>(name, _). (name, Option.bind (map_of (trades_df r) name) (\<lambda>column. array_value column i)))
      (result_trades r ! i) =
    map (\<lambda>(name, v). (name, Some v)) (result_trades r ! i) \<and>
    map_of (trades_df r) ''_len'' = Some (PyInt (int (length (result_trades r))))"
  using assms by (simp add: result_trades_def trade_fill_to_pydict_def trades_df_def Let_def)

definition sample_result :: backtest_result where
  "sample_result =
     \<lparr>br_trades = [\<lparr>tf_ts_exchange = 5, tf_order_id = 1, tf_price = 100, tf_qty = 3, tf_fee = 0,
         tf_symbol_id = 1, tf_side = Sell, tf_is_taker = True\<rparr>],
      br_stats = backtest_stats_default, br_equity_curve = []\<rparr>"

theorem trades_df_rows_witness:
  "map_of (trades_df sample_result) ''side'' = Some (PyIntArray [-1]) \<and>
   map_of (result_trades sample_result ! 0) ''side'' = Some (PyInt (-1))"
proof -
  have "0 < length (result_trades sample_result)" by (simp add: sample_result_def result_trades_def)
  from trades_df_rows [OF this] show ?thesis
    by (simp add: sample_result_def result_trades_def trade_fill_to_pydict_def trades_df_def Let_def)
qed

end
