(* ===== verification/PyStrategy.thy ===== *)
theory PyStrategy
  imports PyObjects EngineTermination
begin

text \<open>
  \<open>backtester-py/src/lib.rs\<close>, second part: the context a Python strategy gets, the commands it
  collects, and \<open>PyStrategy\<close>, the implementation of the trait \<open>Strategy\<close> that calls the Python
  object. The object is the record \<open>py_object\<close> of the methods it may have; each takes its argument,
  the context and the state of the Python side, and returns or raises.
\<close>

section \<open>Commands and context\<close>

datatype py_command =
    PySubmitOrder u32 int i64 i64 u64 order_type u64
  | PyCancelOrder u64

record py_context =
  pc_ts_local :: i64
  pc_next_seq :: u64
  pc_commands :: "py_command list"

definition py_context_new :: "strategy_context \<Rightarrow> py_context" where
  "py_context_new cx = \<lparr>pc_ts_local = cx_ts_local cx, pc_next_seq = 0, pc_commands = []\<rparr>"

lemma py_context_new_simps [simp]:
  "pc_commands (py_context_new cx) = []" "pc_next_seq (py_context_new cx) = 0"
  by (simp_all add: py_context_new_def)

text \<open>\<open>debug\<close> is how std prints a \<open>str\<close> with \<open>{:?}\<close>.\<close>

definition py_submit_order ::
  "(string \<Rightarrow> string) \<Rightarrow> u32 \<Rightarrow> int \<Rightarrow> i64 \<Rightarrow> i64 \<Rightarrow> string \<Rightarrow> u64 \<Rightarrow> py_context \<Rightarrow>
   ('x py_err + u64) \<times> py_context" where
  "py_submit_order debug symbol_id sd price qty order_type client_order_id pc =
     (case (if order_type = ''limit'' then Some Limit else if order_type = ''market'' then Some Market else None) of
        None \<Rightarrow>
          (Inl (PyValueError (''invalid order_type '' @ debug order_type @ '': expected '' @
             [CHR 0x22] @ ''limit'' @ [CHR 0x22] @ '' or '' @ [CHR 0x22] @ ''market'' @ [CHR 0x22])), pc)
      | Some ot \<Rightarrow>
          (Inr client_order_id,
           pc\<lparr>pc_next_seq := u64_wrapping_succ (pc_next_seq pc),
              pc_commands := pc_commands pc @
                [PySubmitOrder symbol_id sd price qty (pc_next_seq pc) ot client_order_id]\<rparr>))"

definition py_cancel_order :: "u64 \<Rightarrow> py_context \<Rightarrow> ('x py_err + unit) \<times> py_context" where
  "py_cancel_order order_id pc = (Inr (), pc\<lparr>pc_commands := pc_commands pc @ [PyCancelOrder order_id]\<rparr>)"

text \<open>The commands are applied in order; a side that is no side ends the loop with its error.\<close>

fun apply_py_ctx_commands ::
  "py_command list \<Rightarrow> strategy_context \<Rightarrow> ('x py_err + unit) \<times> strategy_context" where
  "apply_py_ctx_commands [] cx = (Inr (), cx)"
| "apply_py_ctx_commands (PySubmitOrder symbol_id sd price qty sq ot client_order_id # cmds) cx =
     (case side_try_from sd of
        Inl e \<Rightarrow> (Inl (PyValueError (''invalid side: '' @ e)), cx)
      | Inr s \<Rightarrow>
          apply_py_ctx_commands cmds
            (cx_submit_order
               \<lparr>od_order_id = 0, od_client_order_id = client_order_id, od_ts_submit = cx_ts_local cx,
                od_seq = sq, od_price = price, od_qty = qty, od_symbol_id = symbol_id,
                od_side = s, od_order_type = ot\<rparr> cx))"
| "apply_py_ctx_commands (PyCancelOrder order_id # cmds) cx =
     apply_py_ctx_commands cmds (cx_cancel_order order_id cx)"

section \<open>The strategy\<close>

text \<open>What \<open>on_ticks\<close> is given: a list of tick objects, or the columns of a record batch.\<close>

datatype py_ticks = TickObjects "py_tick list" | TickColumns py_dict

type_synonym ('a, 's, 'x) py_method = "'a \<Rightarrow> py_context \<Rightarrow> 's \<Rightarrow> ('x py_err + unit) \<times> py_context \<times> 's"

record ('s, 'x) py_object =
  po_on_tick :: "(py_tick, 's, 'x) py_method option"
  po_on_ticks :: "(py_ticks, 's, 'x) py_method option"
  po_on_order_update :: "(py_order_report, 's, 'x) py_method option"
  po_on_order_updates :: "(py_order_report list, 's, 'x) py_method option"

text \<open>The end of every callback: a raised exception passes through, otherwise the commands are applied.\<close>

definition finish_callback ::
  "strategy_context \<Rightarrow> ('x py_err + unit) \<times> py_context \<times> 's \<Rightarrow>
   ('x py_err + unit) \<times> strategy_context \<times> 's" where
  "finish_callback cx result =
     (case result of
        (Inl e, pc, s) \<Rightarrow> (Inl e, cx, s)
      | (Inr _, pc, s) \<Rightarrow>
          (case apply_py_ctx_commands (pc_commands pc) cx of (r, cx') \<Rightarrow> (r, cx', s)))"

definition py_on_tick :: "('s, 'x) py_object \<Rightarrow> (tick, 's, 'x py_err) callback" where
  "py_on_tick obj t cx s =
     (let tick_obj = tick_to_pyobject t;
          py_ctx = py_context_new cx
      in finish_callback cx
           (case po_on_tick obj of
              Some on_tick \<Rightarrow> on_tick tick_obj py_ctx s
            | None \<Rightarrow>
                (case po_on_ticks obj of
                   Some on_ticks \<Rightarrow> on_ticks (TickObjects [tick_obj]) py_ctx s
                 | None \<Rightarrow> (Inr (), py_ctx, s))))"

definition py_on_order_update :: "('s, 'x) py_object \<Rightarrow> (order_report, 's, 'x py_err) callback" where
  "py_on_order_update obj r cx s =
     (let report_obj = order_report_to_pyobject r;
          py_ctx = py_context_new cx
      in finish_callback cx
           (case po_on_order_update obj of
              Some on_order_update \<Rightarrow> on_order_update report_obj py_ctx s
            | None \<Rightarrow>
                (case po_on_order_updates obj of
                   Some on_order_updates \<Rightarrow> on_order_updates [report_obj] py_ctx s
                 | None \<Rightarrow> (Inr (), py_ctx, s))))"

text \<open>The columns of the record batch that \<open>on_ticks\<close> is given.\<close>

definition tick_columns :: "tick list \<Rightarrow> py_dict" where
  "tick_columns ts =
     [(''ts_exchange'', PyIntArray (map tk_ts_exchange ts)), (''ts_local'', PyIntArray (map tk_ts_local ts)),
      (''seq'', PyIntArray (map (\<lambda>t. int (tk_seq t)) ts)),
      (''symbol_id'', PyIntArray (map (\<lambda>t. int (tk_symbol_id t)) ts)),
      (''price'', PyIntArray (map tk_price ts)), (''qty'', PyIntArray (map tk_qty ts)),
      (''side'', PyIntArray (map (\<lambda>t. as_i8 (tk_side t)) ts)),
      (''flags'', PyIntArray (map (\<lambda>t. int (tk_flags t)) ts))]"

text \<open>The fallback: one call for each element, with the same context, up to the first exception.\<close>

fun call_each :: "('a, 's, 'x) py_method option \<Rightarrow> 'a list \<Rightarrow> py_context \<Rightarrow> 's \<Rightarrow>
    ('x py_err + unit) \<times> py_context \<times> 's" where
  "call_each m [] pc s = (Inr (), pc, s)"
| "call_each None (x # xs) pc s = call_each None xs pc s"
| "call_each (Some f) (x # xs) pc s =
     (case f x pc s of
        (Inl e, pc', s') \<Rightarrow> (Inl e, pc', s')
      | (Inr _, pc', s') \<Rightarrow> call_each (Some f) xs pc' s')"

definition py_on_ticks :: "('s, 'x) py_object \<Rightarrow> (tick list, 's, 'x py_err) callback" where
  "py_on_ticks obj ts cx s =
     (let py_ctx = py_context_new cx
      in finish_callback cx
           (case po_on_ticks obj of
              Some on_ticks \<Rightarrow> on_ticks (TickColumns (tick_columns ts)) py_ctx s
            | None \<Rightarrow> call_each (po_on_tick obj) (map tick_to_pyobject ts) py_ctx s))"

definition py_on_order_updates :: "('s, 'x) py_object \<Rightarrow> (order_report list, 's, 'x py_err) callback" where
  "py_on_order_updates obj rs cx s =
     (let py_ctx = py_context_new cx
      in finish_callback cx
           (case po_on_order_updates obj of
              Some on_order_updates \<Rightarrow> on_order_updates (map order_report_to_pyobject rs) py_ctx s
            | None \<Rightarrow> call_each (po_on_order_update obj) (map order_report_to_pyobject rs) py_ctx s))"

text \<open>\<open>on_funding\<close> is the provided method of the trait: a Python strategy does not see funding.\<close>

definition py_strategy :: "('s, 'x) py_object \<Rightarrow> ('s, 'x py_err) strategy" where
  "py_strategy obj =
     \<lparr>st_on_tick = py_on_tick obj, st_on_ticks = py_on_ticks obj,
      st_on_order_update = py_on_order_update obj, st_on_order_updates = py_on_order_updates obj,
      st_on_funding = default_on_funding\<rparr>"

section \<open>Commands reach the engine\<close>

fun order_type_name :: "order_type \<Rightarrow> string" where
  "order_type_name Limit = ''limit''"
| "order_type_name Market = ''market''"

text \<open>A Python call of \<open>ctx.submit_order\<close> with a valid side and order type, and the order it stands for.\<close>

record order_request =
  rq_symbol_id :: u32
  rq_side :: side
  rq_price :: i64
  rq_qty :: i64
  rq_order_type :: order_type
  rq_client_order_id :: u64

definition request_order ::
  "(string \<Rightarrow> string) \<Rightarrow> order_request \<Rightarrow> py_context \<Rightarrow> ('x py_err + u64) \<times> py_context" where
  "request_order debug q =
     py_submit_order debug (rq_symbol_id q) (as_i8 (rq_side q)) (rq_price q) (rq_qty q)
       (order_type_name (rq_order_type q)) (rq_client_order_id q)"

definition requested_order :: "ts_local_ns \<Rightarrow> u64 \<Rightarrow> order_request \<Rightarrow> order" where
  "requested_order ts sq q =
     \<lparr>od_order_id = 0, od_client_order_id = rq_client_order_id q, od_ts_submit = ts, od_seq = sq,
      od_price = rq_price q, od_qty = rq_qty q, od_symbol_id = rq_symbol_id q, od_side = rq_side q,
      od_order_type = rq_order_type q\<rparr>"

lemma request_order_eq:
  "request_order debug q pc =
     (Inr (rq_client_order_id q),
      pc\<lparr>pc_next_seq := u64_wrapping_succ (pc_next_seq pc),
         pc_commands := pc_commands pc @
           [PySubmitOrder (rq_symbol_id q) (as_i8 (rq_side q)) (rq_price q) (rq_qty q) (pc_next_seq pc)
              (rq_order_type q) (rq_client_order_id q)]\<rparr>)"
  by (cases "rq_order_type q") (simp_all add: request_order_def py_submit_order_def)

lemma apply_append:
  "apply_py_ctx_commands (xs @ ys) cx =
     (case apply_py_ctx_commands xs cx of
        (Inl e, cx') \<Rightarrow> (Inl e, cx') | (Inr _, cx') \<Rightarrow> apply_py_ctx_commands ys cx')"
proof (induction xs arbitrary: cx)
  case (Cons c xs)
  then show ?case by (cases c) (auto split: sum.split)
qed simp

lemma apply_commands_length:
  "apply_py_ctx_commands cmds cx = (r, cx') \<Longrightarrow>
     length (cx_commands cx') \<le> length (cx_commands cx) + length cmds"
proof (induction cmds arbitrary: cx)
  case (Cons c cmds)
  then show ?case
    by (cases c) (auto simp: cx_submit_order_def cx_cancel_order_def split: sum.splits dest!: Cons.IH)
qed simp

text \<open>The context after one request; the type of the exceptions plays no role for it.\<close>

definition after_request :: "(string \<Rightarrow> string) \<Rightarrow> order_request \<Rightarrow> py_context \<Rightarrow> py_context" where
  "after_request debug q pc = snd (request_order debug q pc :: (unit py_err + u64) \<times> py_context)"

lemma after_request_eq:
  "after_request debug q pc =
     pc\<lparr>pc_next_seq := u64_wrapping_succ (pc_next_seq pc),
        pc_commands := pc_commands pc @
          [PySubmitOrder (rq_symbol_id q) (as_i8 (rq_side q)) (rq_price q) (rq_qty q) (pc_next_seq pc)
             (rq_order_type q) (rq_client_order_id q)]\<rparr>"
  by (simp add: after_request_def request_order_eq)

lemma requests_step:
  fixes cx cx1 :: strategy_context
  assumes "apply_py_ctx_commands (pc_commands pc) cx = (Inr () :: 'x py_err + unit, cx1)"
    and "cx_ts_local cx1 = cx_ts_local cx"
  shows "apply_py_ctx_commands (pc_commands (after_request debug q pc)) cx =
    (Inr () :: 'x py_err + unit, cx_submit_order (requested_order (cx_ts_local cx) (pc_next_seq pc) q) cx1)"
  using assms by (simp add: after_request_eq apply_append requested_order_def)

lemma requests_arrive:
  assumes "apply_py_ctx_commands (pc_commands pc) cx = (Inr () :: 'x py_err + unit, cx1)"
    and "cx_ts_local cx1 = cx_ts_local cx" and "pc_next_seq pc = n mod u64_modulus"
  shows "apply_py_ctx_commands
      (pc_commands (fold (after_request debug) qs pc)) cx =
    (Inr () :: 'x py_err + unit, cx1\<lparr>cx_commands := cx_commands cx1 @
        map (\<lambda>(i, q). SubmitOrder (requested_order (cx_ts_local cx) (i mod u64_modulus) q)) (enumerate n qs)\<rparr>)"
  using assms
proof (induction qs arbitrary: pc cx1 n)
  case (Cons q qs)
  let ?pc = "after_request debug q pc"
  let ?cx = "cx_submit_order (requested_order (cx_ts_local cx) (pc_next_seq pc) q) cx1"
  have "apply_py_ctx_commands (pc_commands ?pc) cx = (Inr () :: 'x py_err + unit, ?cx)"
    using requests_step [OF Cons.prems(1,2)] .
  moreover have "cx_ts_local ?cx = cx_ts_local cx" using Cons.prems(2) by (simp add: cx_submit_order_def)
  moreover have "pc_next_seq ?pc = Suc n mod u64_modulus"
    using Cons.prems(3) by (simp add: after_request_eq u64_wrapping_succ_def mod_Suc_eq)
  ultimately have "apply_py_ctx_commands
      (pc_commands (fold (after_request debug) qs ?pc)) cx =
    (Inr () :: 'x py_err + unit, ?cx\<lparr>cx_commands := cx_commands ?cx @
        map (\<lambda>(i, q). SubmitOrder (requested_order (cx_ts_local cx) (i mod u64_modulus) q))
          (enumerate (Suc n) qs)\<rparr>)"
    by (rule Cons.IH)
  then show ?case using Cons.prems(3) by (simp add: cx_submit_order_def)
qed simp

text \<open>
  C35. Whatever orders a Python callback submits, the engine receives exactly these orders, in the
  order of the calls, each with the arguments of its call, the time of the callback and the
  numbers 0, 1, 2 and so on as sequence numbers; sides and order types survive the trip through
  their Python encodings.
\<close>

theorem python_orders_arrive:
  "apply_py_ctx_commands
     (pc_commands (fold (after_request debug) qs (py_context_new cx))) cx =
   (Inr (), cx\<lparr>cx_commands := cx_commands cx @
      map (\<lambda>(i, q). SubmitOrder (requested_order (cx_ts_local cx) (i mod u64_modulus) q)) (enumerate 0 qs)\<rparr>)"
  using requests_arrive [of "py_context_new cx" cx cx 0 debug qs] by simp

text \<open>
  C1. A command with a side that is no side fails the callback with a \<open>ValueError\<close>: the commands
  before it are in the context, those after it are not, whatever they are.
\<close>

theorem invalid_side_stops_commands:
  assumes "apply_py_ctx_commands before cx = (Inr () :: 'x py_err + unit, cx1)" and "sd \<notin> {1, -1, 0}"
  shows "apply_py_ctx_commands (before @ PySubmitOrder symbol_id sd price qty sq ot cid # after) cx =
    (Inl (PyValueError ''invalid side: invalid Side (expected 1, -1, or 0)'') :: 'x py_err + unit, cx1)"
  using assms by (simp add: apply_append side_try_from_def)

definition sample_context :: strategy_context where
  "sample_context = context_new 100 market_default"

theorem invalid_side_stops_commands_witness:
  "fst (apply_py_ctx_commands ([PyCancelOrder 1] @ PySubmitOrder 1 2 100 5 0 Limit 0 # [PyCancelOrder 2]) sample_context)
     = Inl (PyValueError ''invalid side: invalid Side (expected 1, -1, or 0)'' :: unit py_err)"
proof -
  have "apply_py_ctx_commands [PyCancelOrder 1] sample_context =
      ((Inr (), cx_cancel_order 1 sample_context) :: (unit py_err + unit) \<times> strategy_context)" by simp
  moreover have "(2 :: int) \<notin> {1, -1, 0}" by simp
  ultimately show ?thesis
    using invalid_side_stops_commands [of "[PyCancelOrder 1]" sample_context _ 2 1 100 5 0 Limit 0 "[PyCancelOrder 2]"]
    by (metis fst_conv)
qed

section \<open>Python objects with a budget\<close>

text \<open>
  A Python object keeps to a budget when the commands it adds in a call are paid for by the
  budget of its state. Then \<open>PyStrategy\<close> keeps to the same budget as a strategy of the engine.
\<close>

definition py_within_budget :: "('s \<Rightarrow> nat) \<Rightarrow> ('a, 's, 'x) py_method \<Rightarrow> bool" where
  "py_within_budget budget m \<longleftrightarrow>
     (\<forall>a pc s r pc' s'. m a pc s = (r, pc', s') \<longrightarrow>
        length (pc_commands pc') + budget s' \<le> length (pc_commands pc) + budget s)"

locale bounded_py_object =
  fixes obj :: "('s, 'x) py_object" and budget :: "'s \<Rightarrow> nat"
  assumes on_tick: "po_on_tick obj = Some m1 \<Longrightarrow> py_within_budget budget m1"
    and on_ticks: "po_on_ticks obj = Some m2 \<Longrightarrow> py_within_budget budget m2"
    and on_order_update: "po_on_order_update obj = Some m3 \<Longrightarrow> py_within_budget budget m3"
    and on_order_updates: "po_on_order_updates obj = Some m4 \<Longrightarrow> py_within_budget budget m4"

lemma finish_budget:
  fixes r :: "'x py_err + unit"
  assumes "result = (r, pc, s')" and "length (pc_commands pc) + budget s' \<le> budget s"
  shows "case finish_callback cx result of (r, cx', s'') \<Rightarrow>
    length (cx_commands cx') + budget s'' \<le> length (cx_commands cx) + (budget s :: nat)"
proof (cases r)
  case (Inr u)
  obtain r' :: "'x py_err + unit" and cx' where a: "apply_py_ctx_commands (pc_commands pc) cx = (r', cx')"
    by fastforce
  have "length (cx_commands cx') \<le> length (cx_commands cx) + length (pc_commands pc)"
    using a by (rule apply_commands_length)
  then show ?thesis using assms Inr a by (simp add: finish_callback_def)
qed (use assms in \<open>simp add: finish_callback_def\<close>)

lemma call_each_budget:
  assumes "\<And>f. m = Some f \<Longrightarrow> py_within_budget budget f" and "call_each m xs pc s = (r, pc', s')"
  shows "length (pc_commands pc') + budget s' \<le> length (pc_commands pc) + budget s"
  using assms
proof (induction m xs pc s rule: call_each.induct)
  case (3 f x xs pc s)
  obtain r1 pc1 s1 where c: "f x pc s = (r1, pc1, s1)" by (cases "f x pc s") auto
  have "length (pc_commands pc1) + budget s1 \<le> length (pc_commands pc) + budget s"
    using "3.prems"(1) c unfolding py_within_budget_def by blast
  with 3 c show ?case by (cases r1) fastforce+
qed simp_all

lemma py_callback_budget:
  assumes "\<And>x cx s r pc' s'. run x (py_context_new cx) s = (r, pc', s') \<Longrightarrow>
      length (pc_commands pc') + budget s' \<le> budget s"
    and "\<And>x cx s. cb x cx s = finish_callback cx (run x (py_context_new cx) s)"
  shows "within_budget budget cb"
proof -
  have "length (cx_commands cx') + budget s' \<le> length (cx_commands cx) + budget s"
    if "cb x cx s = (r, cx', s')" for x cx s r cx' s'
  proof -
    obtain r1 pc1 s1 where run: "run x (py_context_new cx) s = (r1, pc1, s1)"
      by (cases "run x (py_context_new cx) s") auto
    from finish_budget [OF run, of budget s cx] assms(1) [OF run] that assms(2) show ?thesis by simp
  qed
  then show ?thesis by (simp add: within_budget_def)
qed

lemma py_within_budgetD:
  assumes "py_within_budget budget m" and "m a (py_context_new cx) s = (r, pc', s')"
  shows "length (pc_commands pc') + budget s' \<le> budget s"
proof -
  have "length (pc_commands pc') + budget s' \<le> length (pc_commands (py_context_new cx)) + budget s"
    using assms unfolding py_within_budget_def by blast
  then show ?thesis by (simp add: py_context_new_def)
qed

lemma call_each_new_budget:
  assumes "\<And>f. m = Some f \<Longrightarrow> py_within_budget budget f"
    and "call_each m xs (py_context_new cx) s = (r, pc', s')"
  shows "length (pc_commands pc') + budget s' \<le> budget s"
  using call_each_budget [OF assms] by simp

context bounded_py_object begin

lemma each_tick_budget:
  "call_each (po_on_tick obj) xs (py_context_new cx) s = (r, pc', s') \<Longrightarrow>
     length (pc_commands pc') + budget s' \<le> budget s"
  by (rule call_each_new_budget) (rule on_tick)

lemma each_update_budget:
  "call_each (po_on_order_update obj) xs (py_context_new cx) s = (r, pc', s') \<Longrightarrow>
     length (pc_commands pc') + budget s' \<le> budget s"
  by (rule call_each_new_budget) (rule on_order_update)

end

sublocale bounded_py_object \<subseteq> as_strategy: bounded_strategy "py_strategy obj" budget
proof
  note budgets = on_tick on_ticks on_order_update on_order_updates
  show "within_budget budget (st_on_tick (py_strategy obj))"
    by (rule py_callback_budget [where run = "\<lambda>t pc s. case po_on_tick obj of
            Some on_tick \<Rightarrow> on_tick (tick_to_pyobject t) pc s
          | None \<Rightarrow> (case po_on_ticks obj of
                Some on_ticks \<Rightarrow> on_ticks (TickObjects [tick_to_pyobject t]) pc s
              | None \<Rightarrow> (Inr (), pc, s))"])
      (auto simp: py_strategy_def py_on_tick_def split: option.splits
        dest: py_within_budgetD [OF on_tick]
          py_within_budgetD [OF on_ticks])
  show "within_budget budget (st_on_order_update (py_strategy obj))"
    by (rule py_callback_budget [where run = "\<lambda>r pc s. case po_on_order_update obj of
            Some on_order_update \<Rightarrow> on_order_update (order_report_to_pyobject r) pc s
          | None \<Rightarrow> (case po_on_order_updates obj of
                Some on_order_updates \<Rightarrow> on_order_updates [order_report_to_pyobject r] pc s
              | None \<Rightarrow> (Inr (), pc, s))"])
      (auto simp: py_strategy_def py_on_order_update_def split: option.splits
        dest: py_within_budgetD [OF on_order_update]
          py_within_budgetD [OF on_order_updates])
  show "within_budget budget (st_on_ticks (py_strategy obj))"
    by (rule py_callback_budget [where run = "\<lambda>ts pc s. case po_on_ticks obj of
            Some on_ticks \<Rightarrow> on_ticks (TickColumns (tick_columns ts)) pc s
          | None \<Rightarrow> call_each (po_on_tick obj) (map tick_to_pyobject ts) pc s"])
      (auto simp: py_strategy_def py_on_ticks_def split: option.splits
        dest: each_tick_budget py_within_budgetD [OF on_ticks])
  show "within_budget budget (st_on_order_updates (py_strategy obj))"
    by (rule py_callback_budget [where run = "\<lambda>rs pc s. case po_on_order_updates obj of
            Some on_order_updates \<Rightarrow> on_order_updates (map order_report_to_pyobject rs) pc s
          | None \<Rightarrow> call_each (po_on_order_update obj) (map order_report_to_pyobject rs) pc s"])
      (auto simp: py_strategy_def py_on_order_updates_def split: option.splits
        dest: each_update_budget
          py_within_budgetD [OF on_order_updates])
  show "within_budget budget (st_on_funding (py_strategy obj))"
    by (simp add: py_strategy_def default_funding_budget)
qed

text \<open>A Python strategy that buys once, on the first tick object it sees.\<close>

definition py_buy_once :: "(bool, unit) py_object" where
  "py_buy_once =
     \<lparr>po_on_tick = Some (\<lambda>t pc bought.
        if bought then (Inr (), pc, True)
        else (map_sum id (\<lambda>_. ()) (fst (py_submit_order id 1 1 (pt_price t) 5 ''limit'' 7 pc)),
              snd (py_submit_order id 1 1 (pt_price t) 5 ''limit'' 7 pc :: (unit py_err + u64) \<times> py_context), True)),
      po_on_ticks = None, po_on_order_update = None, po_on_order_updates = None\<rparr>"

interpretation py_buyer: bounded_py_object py_buy_once "\<lambda>bought. if bought then 0 else 1"
  by unfold_locales (auto simp: py_buy_once_def py_within_budget_def py_submit_order_def)

section \<open>The benchmark of the boundary\<close>

text \<open>\<open>on_ticks\<close> is called over and over with the same list of integers, until a call raises.\<close>

fun call_strategy_on_ticks ::
  "(int list \<Rightarrow> 's \<Rightarrow> ('x py_err + unit) \<times> 's) \<Rightarrow> usize \<Rightarrow> usize \<Rightarrow> 's \<Rightarrow> ('x py_err + unit) \<times> 's" where
  "call_strategy_on_ticks on_ticks batch_size 0 s = (Inr (), s)"
| "call_strategy_on_ticks on_ticks batch_size (Suc iterations) s =
     (case on_ticks (map int [0..<batch_size]) s of
        (Inl e, s') \<Rightarrow> (Inl e, s')
      | (Inr _, s') \<Rightarrow> call_strategy_on_ticks on_ticks batch_size iterations s')"

lemma call_strategy_on_ticks_counts:
  "call_strategy_on_ticks (\<lambda>ticks n. (Inr (), n + length ticks)) b k n = (Inr (), n + k * b)"
  by (induction k arbitrary: n) simp_all

end
