(* ===== verification/EngineClock.thy ===== *)
theory EngineClock
  imports EngineErrors
begin

text \<open>
  The wall clock. Only the auto-tuning of the batch size reads it (\<open>en_elapsed\<close>), and the code leaves
  auto-tuning off by default to stay deterministic. Here two runs are compared that differ in their
  clocks and nothing else: without auto-tuning they are the same run.
\<close>

definition untuned :: "engine_config \<Rightarrow> bool" where
  "untuned cfg \<longleftrightarrow> cf_mode cfg = TickMode \<or> \<not> cf_auto_tune cfg"

abbreviation with_clock ::
  "(nat \<Rightarrow> i64) \<Rightarrow> ('s, 'e, 'rng, 'src, 'l3, 'te) engine_env \<Rightarrow> ('s, 'e, 'rng, 'src, 'l3, 'te) engine_env" where
  "with_clock c env \<equiv> env\<lparr>en_elapsed := c\<rparr>"

section \<open>Ingestion and dispatch do not read the clock\<close>

lemma clock_fields:
  "en_strategy (with_clock c env) = en_strategy env" "en_latency (with_clock c env) = en_latency env"
  "en_tick_ops (with_clock c env) = en_tick_ops env" "en_l3_ops (with_clock c env) = en_l3_ops env"
  by simp_all

lemma round_clock: "ingest_round (with_clock c env) g = ingest_round env g"
  unfolding ingest_round_def init_source_heap_def init_l3_source_heap_def ingest_tick_def ingest_l3_def
    clock_fields ..

lemma ingest_transfer:
  fixes env env' :: "('s, 'e, 'rng, 'src, 'l3, 'te) engine_env" and g :: "('st, 's, 'rng, 'src, 'l3) engine"
  assumes "\<And>g :: ('st, 's, 'rng, 'src, 'l3) engine. ingest_round env' g = ingest_round env g" and "ingest env g = Some y"
  shows "ingest env' g = Some y"
proof -
  have "env = env \<longrightarrow> ingest env' g = Some y"
  proof (rule ingest.raw_induct [where P = "\<lambda>e g y. e = env \<longrightarrow> ingest env' g = Some y", OF _ assms(2)],
      intro impI, goal_cases)
    case (1 f e g y)
    note IH = 1(1) and eq = 1(2) [unfolded 1(3)]
    show ?case
      using eq IH [of env _ y]
      by (subst ingest.simps) (auto simp: assms(1) split: prod.splits sum.splits if_splits)
  qed
  then show ?thesis by simp
qed

lemma ingest_clock: "ingest (with_clock c env) g = ingest env g"
proof -
  have "ingest (with_clock c env) g = Some y \<longleftrightarrow> ingest env g = Some y" for y
    using ingest_transfer [of "with_clock c env" env g y] ingest_transfer [of env "with_clock c env" g y]
    by (auto simp: round_clock)
  then show ?thesis by (cases "ingest env g"; cases "ingest (with_clock c env) g") auto
qed

lemma dispatch_clock: "dispatch (with_clock c env) k g = dispatch env k g"
  unfolding dispatch_def handle_tick_delivery_def handle_order_def order_latency_def
    handle_order_cancel_def handle_order_report_def handle_funding_def clock_fields ..

section \<open>Without auto-tuning a flush does not read it either\<close>

lemma auto_tune_off: "untuned (eg_config g) \<Longrightarrow> auto_tune_batch env n g = g"
  by (auto simp: auto_tune_batch_def untuned_def)

lemma config_callbacks: "eg_config (snd (flush_callbacks env cx g)) = eg_config g"
  by (simp add: flush_callbacks_def Let_def split: prod.split sum.split)

lemma callbacks_clock: "flush_callbacks (with_clock c env) cx g = flush_callbacks env cx g"
  unfolding flush_callbacks_def clock_fields ..

lemma flush_clock:
  fixes env :: "('s, 'e, 'rng, 'src, 'l3, 'te) engine_env" and g :: "('st, 's, 'rng, 'src, 'l3) engine"
  assumes "untuned (eg_config g)"
  shows "flush_strategy (with_clock c env) ts g = flush_strategy env ts g"
    and "eg_config (snd (flush_strategy env ts g)) = eg_config g"
proof -
  let ?g1 = "g\<lparr>eg_active_batch_timer_id := None\<rparr>"
  obtain r g2 where f: "flush_callbacks env (context_new ts (eg_market g)) ?g1 = (r, g2)"
    by (cases "flush_callbacks env (context_new ts (eg_market g)) ?g1") auto
  have g2: "eg_config g2 = eg_config g"
    using config_callbacks [of env "context_new ts (eg_market g)" ?g1] f by simp
  then have off: "auto_tune_batch e n (handle_commands cs ts g2) = handle_commands cs ts g2"
    for e :: "('s, 'e, 'rng, 'src, 'l3, 'te) engine_env" and n cs
    using assms by (simp add: auto_tune_off config_commands)
  show "flush_strategy (with_clock c env) ts g = flush_strategy env ts g"
    by (simp add: flush_strategy_def Let_def f off callbacks_clock split: sum.split)
  show "eg_config (snd (flush_strategy env ts g)) = eg_config g"
    by (simp add: flush_strategy_def Let_def f off config_commands g2 split: sum.split)
qed

lemma wakeup_clock:
  fixes env :: "('s, 'e, 'rng, 'src, 'l3, 'te) engine_env" and g :: "('st, 's, 'rng, 'src, 'l3) engine"
  assumes "untuned (eg_config g)"
  shows "batch_wakeup (with_clock c env) w g = batch_wakeup env w g"
    and "eg_config (snd (batch_wakeup env w g)) = eg_config g"
proof -
  obtain r g1 where f: "flush_strategy env (eg_now_ts_sim g) g = (r, g1)"
    by (cases "flush_strategy env (eg_now_ts_sim g) g") auto
  have "eg_config g1 = eg_config g" using flush_clock(2) [OF assms, of env "eg_now_ts_sim g"] f by simp
  then show "eg_config (snd (batch_wakeup env w g)) = eg_config g"
    by (cases r) (simp_all add: batch_wakeup_def f)
  show "batch_wakeup (with_clock c env) w g = batch_wakeup env w g"
    unfolding batch_wakeup_def flush_clock(1) [OF assms] ..
qed

lemma process_clock:
  fixes env :: "('s, 'e, 'rng, 'src, 'l3, 'te) engine_env" and g :: "('st, 's, 'rng, 'src, 'l3) engine"
  assumes "untuned (eg_config g)"
  shows "process_next (with_clock c env) g = process_next env g"
    and "eg_config (snd (process_next env g)) = eg_config g"
proof -
  have *: "process_next (with_clock c env) g = process_next env g \<and> eg_config (snd (process_next env g)) = eg_config g"
  proof (cases "eq_pop (eg_queue g)")
    case (Some p)
    obtain ev q where p: "p = (ev, q)" by (cases p)
    let ?g1 = "g\<lparr>eg_queue := q, eg_now_ts_sim := ts_sim ev\<rparr>"
    obtain h g2 where d: "dispatch env (ev_kind ev) ?g1 = (h, g2)"
      by (cases "dispatch env (ev_kind ev) ?g1") auto
    have config: "eg_config g2 = eg_config g" using config_dispatch [of env "ev_kind ev" ?g1] d by simp
    with assms have off: "untuned (eg_config g2)" by simp
    show ?thesis
      by (simp add: process_next_def Some p d dispatch_clock Let_def config wakeup_clock [OF off] split: handled.split)
  qed (simp add: process_next_def)
  then show "process_next (with_clock c env) g = process_next env g"
    and "eg_config (snd (process_next env g)) = eg_config g" by blast+
qed

lemma step_clock:
  fixes env :: "('s, 'e, 'rng, 'src, 'l3, 'te) engine_env" and g :: "('st, 's, 'rng, 'src, 'l3) engine"
  assumes "untuned (eg_config g)"
  shows "engine_step (with_clock c env) g = engine_step env g"
    and "engine_step env g = Some (r, g') \<Longrightarrow> eg_config g' = eg_config g"
proof -
  have config: "eg_config g1 = eg_config g" if "ingest env g = Some (ri, g1)" for ri g1
    using ingest_same [OF that] by (simp add: books_same_def)
  have off: "untuned (eg_config g1)" if "ingest env g = Some (ri, g1)" for ri g1
    using assms config [OF that] by simp
  show "engine_step (with_clock c env) g = engine_step env g"
  proof (cases "ingest env g")
    case (Some z)
    then show ?thesis
      using off by (cases z; cases "fst z") (simp_all add: engine_step_def ingest_clock process_clock(1))
  qed (simp add: engine_step_def ingest_clock)
  assume s: "engine_step env g = Some (r, g')"
  then obtain ri g1 where i: "ingest env g = Some (ri, g1)" by (auto simp: engine_step_def split: option.splits)
  show "eg_config g' = eg_config g"
    using s i config [OF i] process_clock(2) [OF off [OF i], of env]
    by (cases ri) (auto simp: engine_step_def)
qed

section \<open>Two clocks, one run\<close>

lemma run_clock:
  fixes env :: "('s, 'e, 'rng, 'src, 'l3, 'te) engine_env" and g :: "('st, 's, 'rng, 'src, 'l3) engine"
  assumes "untuned (eg_config g)" and "engine_run env g = Some y"
  shows "engine_run (with_clock c env) g = Some y"
proof -
  have "env = env \<longrightarrow> untuned (eg_config g) \<longrightarrow> engine_run (with_clock c env) g = Some y"
  proof (rule engine_run.raw_induct [where
        P = "\<lambda>e g y. e = env \<longrightarrow> untuned (eg_config g) \<longrightarrow> engine_run (with_clock c env) g = Some y",
        OF _ assms(2)], intro impI, goal_cases)
    case (1 f e g y)
    note IH = 1(1) and eq = 1(2) [unfolded 1(3)] and off = 1(4)
    show ?case
    proof (cases "engine_step env g")
      case (Some z)
      obtain r g1 where z: "engine_step env g = Some (r, g1)" using Some by (cases z) auto
      have off1: "untuned (eg_config g1)" using step_clock(2) [OF off z] off by simp
      obtain r2 g2 where fl: "flush_strategy env (eg_now_ts_sim g1) g1 = (r2, g2)"
        by (cases "flush_strategy env (eg_now_ts_sim g1) g1") auto
      have off2: "untuned (eg_config g2)" using flush_clock(2) [OF off1, of env "eg_now_ts_sim g1"] fl off1 by simp
      show ?thesis
        using eq IH [of env g1 y] IH [of env g2 y] off1 off2
        by (subst engine_run.simps)
          (auto simp: step_clock(1) [OF off] flush_clock(1) [OF off1] z fl split: sum.splits option.splits if_splits)
    qed (use eq in simp)
  qed
  with assms(1) show ?thesis by simp
qed

end
