(* ===== verification/Sweep.thy ===== *)
theory Sweep
  imports EngineClock EngineRun
begin

text \<open>
  \<open>sweep.rs\<close>: one engine per strategy over the same events, with seeds derived from the index.
  The runs are independent, so that rayon's parallel map is a map; \<open>collect\<close> into a \<open>Result\<close>
  keeps the order of the inputs and, when runs fail, returns one of their errors, which one
  rayon leaves open: the argument \<open>pick\<close>. Every run reads a wall clock of its own (\<open>clocks i\<close>) and
  brackets the parallel sums of its statistics in its own way (\<open>reduces i\<close>): nothing relates the
  clocks or the reductions of two runs.
\<close>

section \<open>Collecting results\<close>

definition errors :: "('e + 'a) list \<Rightarrow> 'e list" where
  "errors rs = List.map_filter (\<lambda>r. case r of Inl e \<Rightarrow> Some e | Inr _ \<Rightarrow> None) rs"

definition collect_results :: "('e list \<Rightarrow> 'e) \<Rightarrow> ('e + 'a) list \<Rightarrow> 'e + 'a list" where
  "collect_results pick rs =
     (case errors rs of [] \<Rightarrow> Inr (map projr rs) | e # es \<Rightarrow> Inl (pick (e # es)))"

text \<open>All runs return, or the sweep does not.\<close>

fun all_some :: "'a option list \<Rightarrow> 'a list option" where
  "all_some [] = Some []"
| "all_some (x # xs) = (case x of None \<Rightarrow> None | Some y \<Rightarrow> map_option ((#) y) (all_some xs))"

lemma errors_simps [simp]:
  "errors [] = []" "errors (Inl e # rs) = e # errors rs" "errors (Inr x # rs) = errors rs"
  "errors (rs @ ss) = errors rs @ errors ss"
  by (simp_all add: errors_def List.map_filter_def)

lemma all_some_eq: "all_some xs = Some ys \<longleftrightarrow> xs = map Some ys"
  by (induction xs arbitrary: ys) (auto split: option.splits)

lemma all_some_total: "\<forall>x\<in>set xs. x \<noteq> None \<Longrightarrow> \<exists>ys. all_some xs = Some ys \<and> length ys = length xs"
  by (induction xs) auto

lemma errors_Nil: "errors rs = [] \<longleftrightarrow> (\<exists>xs. rs = map Inr xs)"
proof (induction rs)
  case (Cons r rs)
  then show ?case by (cases r) (auto simp: Cons_eq_map_conv)
qed simp

lemma collect_results_Inr: "collect_results pick rs = Inr xs \<longleftrightarrow> rs = map Inr xs"
proof
  assume "rs = map Inr xs"
  then have "errors rs = []" using errors_Nil by blast
  with \<open>rs = map Inr xs\<close> show "collect_results pick rs = Inr xs"
    by (simp add: collect_results_def o_def)
next
  assume a: "collect_results pick rs = Inr xs"
  then have "errors rs = []" by (auto simp: collect_results_def split: list.splits)
  then obtain ys where ys: "rs = map Inr ys" using errors_Nil by blast
  then have "collect_results pick rs = Inr ys"
    using \<open>errors rs = []\<close> by (simp add: collect_results_def o_def)
  with a ys show "rs = map Inr xs" by simp
qed

section \<open>The sweep\<close>

record sweep_result =
  sr_stats :: backtest_stats

definition u64_wrapping_add :: "u64 \<Rightarrow> u64 \<Rightarrow> u64" where
  "u64_wrapping_add a b = (a + b) mod 2 ^ 64"

lemma u64_wrapping_add_code [code]:
  "u64_wrapping_add a b = nat ((int a + int b) mod 18446744073709551616)"
  by (simp add: u64_wrapping_add_def nat_mod_distrib nat_add_distrib)

lemma u64_wrapping_add_assoc:
  "u64_wrapping_add (u64_wrapping_add a b) c = u64_wrapping_add a (b + c)"
  by (simp add: u64_wrapping_add_def mod_simps ac_simps)

definition sweep_run ::
  "('s, 'e, 'rng, 'src, 'l3, 'te) engine_env \<Rightarrow> (nat \<Rightarrow> i64) \<Rightarrow> par_reduce \<Rightarrow> 'st queue_model \<Rightarrow>
   engine_config \<Rightarrow> (ts_sim_ns \<times> event_kind) list \<Rightarrow> nat \<Rightarrow> 's \<Rightarrow>
   (('te, 'e) engine_error + sweep_result) option" where
  "sweep_run env clock par_reduce qm base_config events index strat =
     (let config = base_config\<lparr>cf_seed := u64_wrapping_add (cf_seed base_config) index\<rparr>;
          g = fold (\<lambda>(ts, kind). push_event ts kind) events
                (engine_new env qm strat config :: ('st, 's, 'rng, 'src, 'l3) engine)
      in case engine_run (with_clock clock env) g of
           None \<Rightarrow> None
         | Some (Inl e, _) \<Rightarrow> Some (Inl e)
         | Some (Inr _, g') \<Rightarrow> Some (Inr \<lparr>sr_stats = engine_stats par_reduce g'\<rparr>))"

definition run_parameter_sweep ::
  "(('te, 'e) engine_error list \<Rightarrow> ('te, 'e) engine_error) \<Rightarrow>
   ('s, 'e, 'rng, 'src, 'l3, 'te) engine_env \<Rightarrow> (nat \<Rightarrow> nat \<Rightarrow> i64) \<Rightarrow> (nat \<Rightarrow> par_reduce) \<Rightarrow>
   'st queue_model \<Rightarrow> engine_config \<Rightarrow> 's list \<Rightarrow> (ts_sim_ns \<times> event_kind) list \<Rightarrow>
   (('te, 'e) engine_error + sweep_result list) option" where
  "run_parameter_sweep pick env clocks reduces qm base_config strategies events =
     map_option (collect_results pick)
       (all_some (map (\<lambda>(index, strat).
            sweep_run env (clocks index) (reduces index) qm base_config events index strat)
          (enumerate 0 strategies)))"

lemma sweep_run_shift:
  "sweep_run env c r qm (cfg\<lparr>cf_seed := u64_wrapping_add (cf_seed cfg) k\<rparr>) events i s =
   sweep_run env c r qm cfg events (k + i) s"
  by (simp add: sweep_run_def u64_wrapping_add_assoc)

lemma sweep_Inr:
  "run_parameter_sweep pick env clocks reduces qm cfg strats events = Some (Inr rs) \<longleftrightarrow>
   length rs = length strats \<and>
   (\<forall>i<length strats. sweep_run env (clocks i) (reduces i) qm cfg events i (strats ! i) = Some (Inr (rs ! i)))"
proof -
  have "run_parameter_sweep pick env clocks reduces qm cfg strats events = Some (Inr rs) \<longleftrightarrow>
      map (\<lambda>(i, s). sweep_run env (clocks i) (reduces i) qm cfg events i s) (enumerate 0 strats) =
      map (Some \<circ> Inr) rs"
    by (auto simp: run_parameter_sweep_def all_some_eq collect_results_Inr)
  then show ?thesis by (auto simp: list_eq_iff_nth_eq nth_enumerate_eq)
qed

section \<open>Clocks and reductions\<close>

text \<open>Equal in every statistic but the two ratios, which are summed in parallel for long histories.\<close>

definition same_outcome :: "sweep_result \<Rightarrow> sweep_result \<Rightarrow> bool" where
  "same_outcome r r' \<longleftrightarrow>
     (sr_stats r)\<lparr>bs_sharpe_ratio := bs_sharpe_ratio (sr_stats r'),
                  bs_sortino_ratio := bs_sortino_ratio (sr_stats r')\<rparr> = sr_stats r'"

lemma stats_outcome: "same_outcome \<lparr>sr_stats = engine_stats red g\<rparr> \<lparr>sr_stats = engine_stats red' g\<rparr>"
  by (simp add: same_outcome_def engine_stats_def calculate_stats_def stats_from_def Let_def)

lemma push_event_config: "eg_config (push_event ts kind g) = eg_config g"
  by (simp add: push_event_def)

lemma fold_push_config: "eg_config (fold (\<lambda>(ts, kind). push_event ts kind) events g) = eg_config g"
  by (induction events arbitrary: g) (auto simp: push_event_config)

lemma sweep_run_clock:
  fixes env :: "('s, 'e, 'rng, 'src, 'l3, 'te) engine_env"
  assumes "untuned cfg" and "sweep_run env c red qm cfg events i s = Some (Inr x)"
  shows "\<exists>y. sweep_run env c' red' qm cfg events i s = Some (Inr y) \<and> same_outcome y x \<and> (red' = red \<longrightarrow> y = x)"
proof -
  let ?cfg = "cfg\<lparr>cf_seed := u64_wrapping_add (cf_seed cfg) i\<rparr>"
  let ?g = "fold (\<lambda>(ts, kind). push_event ts kind) events (engine_new env qm s ?cfg)"
  obtain u g' where run: "engine_run (with_clock c env) ?g = Some (Inr u, g')"
    and x: "x = \<lparr>sr_stats = engine_stats red g'\<rparr>"
    using assms(2) by (auto simp: sweep_run_def Let_def split: option.splits prod.splits sum.splits)
  have "untuned (eg_config ?g)" using assms(1) by (simp add: fold_push_config engine_new_def untuned_def)
  from run_clock [OF this run, of c'] have "engine_run (with_clock c' env) ?g = Some (Inr u, g')" by simp
  then show ?thesis by (simp add: sweep_run_def x stats_outcome)
qed

lemma sweep_again:
  assumes "\<And>i. i < length strats \<Longrightarrow>
      \<exists>y. sweep_run env (clocks i) (reduces i) qm cfg events i (strats ! i) = Some (Inr y) \<and> P i y"
  shows "\<exists>rs. run_parameter_sweep pick env clocks reduces qm cfg strats events = Some (Inr rs) \<and>
    length rs = length strats \<and> (\<forall>i<length strats. P i (rs ! i))"
proof -
  from assms obtain f where f: "\<And>i. i < length strats \<Longrightarrow>
      sweep_run env (clocks i) (reduces i) qm cfg events i (strats ! i) = Some (Inr (f i)) \<and> P i (f i)"
    by metis
  show ?thesis by (rule exI [of _ "map f [0..<length strats]"]) (simp add: sweep_Inr f)
qed

text \<open>
  C39. Without auto-tuning of the batch size a sweep can be split anywhere and repeated at any time.
  When the sweep over \<open>xs @ ys\<close> succeeds, so do the sweep over \<open>xs\<close> and the sweep over \<open>ys\<close> with the base
  seed moved by the number of strategies in front (also when the seed wraps around), whatever the wall
  clocks of their engines show and however rayon brackets their sums, and their results, one after the
  other, are those of the whole sweep in all statistics but the Sharpe and Sortino ratios, and in these
  as well for every run whose sums are bracketed alike. So a result depends on its own strategy and
  index only, and comes back at the position of its strategy. With auto-tuning the batch size follows
  the wall clock, and nothing of this is claimed.
\<close>

theorem sweep_splits:
  assumes "untuned cfg"
    and "run_parameter_sweep pick env clocks reduces qm cfg (xs @ ys) events = Some (Inr rs)"
  shows "\<exists>rs1 rs2.
    run_parameter_sweep pick env clocks1 reduces1 qm cfg xs events = Some (Inr rs1) \<and>
    run_parameter_sweep pick env clocks2 reduces2 qm
      (cfg\<lparr>cf_seed := u64_wrapping_add (cf_seed cfg) (length xs)\<rparr>) ys events = Some (Inr rs2) \<and>
    length rs1 = length xs \<and> list_all2 same_outcome (rs1 @ rs2) rs \<and>
    (\<forall>i<length xs. reduces1 i = reduces i \<longrightarrow> rs1 ! i = rs ! i) \<and>
    (\<forall>i<length ys. reduces2 i = reduces (length xs + i) \<longrightarrow> rs2 ! i = rs ! (length xs + i))"
proof -
  let ?ok = "\<lambda>red k i y. same_outcome y (rs ! (k + i)) \<and> (red i = reduces (k + i) \<longrightarrow> y = rs ! (k + i))"
  from assms(2) have len: "length rs = length xs + length ys"
    and run: "\<And>i. i < length xs + length ys \<Longrightarrow>
      sweep_run env (clocks i) (reduces i) qm cfg events i ((xs @ ys) ! i) = Some (Inr (rs ! i))"
    by (simp_all add: sweep_Inr)
  have "\<exists>y. sweep_run env (clocks1 i) (reduces1 i) qm cfg events i (xs ! i) = Some (Inr y) \<and> ?ok reduces1 0 i y"
    if "i < length xs" for i
    using sweep_run_clock [OF assms(1) run [of i]] that by (simp add: nth_append)
  from sweep_again [OF this] obtain rs1
    where 1: "run_parameter_sweep pick env clocks1 reduces1 qm cfg xs events = Some (Inr rs1)"
      "length rs1 = length xs" "\<And>i. i < length xs \<Longrightarrow> ?ok reduces1 0 i (rs1 ! i)" by blast
  let ?cfg = "cfg\<lparr>cf_seed := u64_wrapping_add (cf_seed cfg) (length xs)\<rparr>"
  have "\<exists>y. sweep_run env (clocks2 i) (reduces2 i) qm ?cfg events i (ys ! i) = Some (Inr y) \<and>
      ?ok reduces2 (length xs) i y" if "i < length ys" for i
    unfolding sweep_run_shift using sweep_run_clock [OF assms(1) run [of "length xs + i"]] that by simp
  from sweep_again [OF this] obtain rs2
    where 2: "run_parameter_sweep pick env clocks2 reduces2 qm ?cfg ys events = Some (Inr rs2)"
      "length rs2 = length ys" "\<And>i. i < length ys \<Longrightarrow> ?ok reduces2 (length xs) i (rs2 ! i)" by blast
  have "same_outcome ((rs1 @ rs2) ! i) (rs ! i)" if "i < length xs + length ys" for i
    using 1(2) 1(3) [of i] 2(3) [of "i - length xs"] that by (cases "i < length xs") (auto simp: nth_append)
  then have "list_all2 same_outcome (rs1 @ rs2) rs" using 1(2) 2(2) len by (simp add: list_all2_conv_all_nth)
  with 1 2 show ?thesis by fastforce
qed

text \<open>The pushed events of a sweep run to their end without any source.\<close>

definition sources_of :: "('st, 's, 'rng, 'src, 'l3) engine \<Rightarrow> 'src list \<times> 'l3 list \<times> bool \<times> bool" where
  "sources_of g =
     (eg_sources g, eg_l3_sources g, eg_is_source_heap_initialized g, eg_is_l3_source_heap_initialized g)"

lemma push_event_sources: "sources_of (push_event ts kind g) = sources_of g"
  by (simp add: sources_of_def push_event_def)

lemma fold_push_sources: "sources_of (fold (\<lambda>(ts, kind). push_event ts kind) events g) = sources_of g"
  by (induction events arbitrary: g) (auto simp: push_event_sources)

lemma no_source_world:
  "bounded_strategy (en_strategy env) budget \<Longrightarrow> engine_world env budget (\<lambda>_ _. False) (\<lambda>_ _. False)"
  by (rule engine_world.intro) (simp_all add: row_source_def)

lemma sweep_run_returns:
  fixes env :: "('s, 'e, 'rng, 'src, 'l3, 'te) engine_env"
  assumes "bounded_strategy (en_strategy env) budget"
  shows "sweep_run env clock par_reduce qm cfg events i s \<noteq> None"
proof -
  let ?cfg = "cfg\<lparr>cf_seed := u64_wrapping_add (cf_seed cfg) i\<rparr>"
  let ?g = "fold (\<lambda>(ts, kind). push_event ts kind) events (engine_new env qm s ?cfg)"
  have "rows_left (\<lambda>_ _. False) (\<lambda>_ _. False) ?g 0" "heap_ok ?g"
    using fold_push_sources [of events "engine_new env qm s ?cfg"]
    by (simp_all add: rows_left_def heap_ok_def sources_of_def engine_new_def)
  moreover from assms have "bounded_strategy (en_strategy (with_clock clock env)) budget" by simp
  ultimately obtain r g' where "engine_run (with_clock clock env) ?g = Some (r, g')"
    using engine_world.run_returns [OF no_source_world] by fastforce
  then show ?thesis by (cases r) (simp_all add: sweep_run_def)
qed

text \<open>
  C40. A sweep over strategies with bounded budgets always returns: the results of all runs, in
  number the strategies, or the error of one of the runs, with any wall clocks (auto-tuning included)
  and any bracketing of rayon's sums.
\<close>

theorem sweep_returns:
  fixes env :: "('s, 'e, 'rng, 'src, 'l3, 'te) engine_env"
  assumes "bounded_strategy (en_strategy env) budget"
    and "\<And>es. es \<noteq> [] \<Longrightarrow> pick es \<in> set es"
  shows "(\<exists>rs. run_parameter_sweep pick env clocks reduces qm cfg strats events = Some (Inr rs) \<and>
       length rs = length strats) \<or>
    (\<exists>e i. run_parameter_sweep pick env clocks reduces qm cfg strats events = Some (Inl e) \<and>
       i < length strats \<and> sweep_run env (clocks i) (reduces i) qm cfg events i (strats ! i) = Some (Inl e))"
proof -
  let ?runs = "map (\<lambda>(i, s). sweep_run env (clocks i) (reduces i) qm cfg events i s) (enumerate 0 strats)"
  have "\<forall>x\<in>set ?runs. x \<noteq> None" using sweep_run_returns [OF assms(1)] by auto
  from all_some_total [OF this] obtain rs where rs: "all_some ?runs = Some rs" "length rs = length strats"
    by auto
  have nth: "sweep_run env (clocks i) (reduces i) qm cfg events i (strats ! i) = Some (rs ! i)" if "i < length strats" for i
    using arg_cong [OF iffD1 [OF all_some_eq rs(1)], of "\<lambda>xs. xs ! i"] that rs(2)
    by (simp add: nth_enumerate_eq)
  show ?thesis
  proof (cases "errors rs")
    case Nil
    then obtain xs where xs: "rs = map Inr xs" using errors_Nil by blast
    then have "run_parameter_sweep pick env clocks reduces qm cfg strats events = Some (Inr xs)"
      using rs by (simp add: run_parameter_sweep_def collect_results_Inr)
    with xs rs(2) show ?thesis by auto
  next
    case (Cons e es)
    let ?e = "pick (e # es)"
    have "?e \<in> set (errors rs)" using assms(2) [of "e # es"] Cons by simp
    then have "Inl ?e \<in> set rs"
      by (auto simp: errors_def List.map_filter_def split: sum.splits)
    then obtain i where "i < length rs" "rs ! i = Inl ?e" by (auto simp: in_set_conv_nth)
    moreover have "run_parameter_sweep pick env clocks reduces qm cfg strats events = Some (Inl ?e)"
      using rs Cons by (simp add: run_parameter_sweep_def collect_results_def)
    ultimately show ?thesis using nth rs(2) by auto
  qed
qed


text \<open>
  Two runs over a tick and its delivery; the second strategy has bought before. The clocks and the
  bracketing of the sums are arguments.
\<close>

abbreviation sample_pushed :: "(ts_sim_ns \<times> event_kind) list" where
  "sample_pushed \<equiv>
     [(100, TickEvent (sell_tick 100 0)), (100, TickDelivery (sell_tick 100 0)),
      (120, TickEvent (sell_tick 120 1))]"

definition sample_sweep ::
  "(nat \<Rightarrow> nat \<Rightarrow> i64) \<Rightarrow> (nat \<Rightarrow> par_reduce) \<Rightarrow> engine_config \<Rightarrow> bool list \<Rightarrow>
   ((unit, unit) engine_error + sweep_result list) option" where
  "sample_sweep clocks reduces cfg strats =
     run_parameter_sweep hd sample_env clocks reduces conservative_queue cfg strats sample_pushed"

text \<open>The trades of each result, or nothing when the sweep fails.\<close>

definition sweep_trades :: "((unit, unit) engine_error + sweep_result list) option \<Rightarrow> nat list" where
  "sweep_trades r =
     (case r of Some (Inr rs) \<Rightarrow> map (\<lambda>s. bs_total_trades (sr_stats s)) rs | _ \<Rightarrow> [])"

abbreviation left_sums :: par_reduce where
  "left_sums \<equiv> \<lambda>z f. foldl f z"

abbreviation right_sums :: par_reduce where
  "right_sums \<equiv> \<lambda>z f xs. foldr f xs z"

lemma sample_sweep_trades:
  "sweep_trades (sample_sweep (\<lambda>_ _. 0) (\<lambda>_. left_sums) sample_config [False, True]) = [1, 0]"
  by code_simp

lemma sample_sweep_ok:
  "\<exists>rs. sample_sweep (\<lambda>_ _. 0) (\<lambda>_. left_sums) sample_config [False, True] = Some (Inr rs) \<and>
     sweep_trades (Some (Inr rs)) = [1, 0]"
  using sample_sweep_trades by (auto simp: sweep_trades_def split: option.splits sum.splits)

theorem sweep_splits_witness:
  "\<exists>rs1 rs2. sample_sweep (\<lambda>i n. int (i + n)) (\<lambda>_. right_sums) sample_config [False] = Some (Inr rs1) \<and>
     sample_sweep (\<lambda>_ _. 7) (\<lambda>_. left_sums)
       (sample_config\<lparr>cf_seed := u64_wrapping_add (cf_seed sample_config) 1\<rparr>) [True] = Some (Inr rs2) \<and>
     sweep_trades (Some (Inr rs1)) = [1] \<and> sweep_trades (Some (Inr rs2)) = [0]"
proof -
  obtain rs where rs: "sample_sweep (\<lambda>_ _. 0) (\<lambda>_. left_sums) sample_config [False, True] = Some (Inr rs)"
    and trades: "sweep_trades (Some (Inr rs)) = [1, 0]" using sample_sweep_ok by blast
  have off: "untuned sample_config" by (simp add: untuned_def sample_config_def engine_config_default_def)
  from rs have "run_parameter_sweep hd sample_env (\<lambda>_ _. 0) (\<lambda>_. left_sums) conservative_queue sample_config
      ([False] @ [True]) sample_pushed = Some (Inr rs)" by (simp add: sample_sweep_def)
  from sweep_splits [OF off this, of "\<lambda>i n. int (i + n)" "\<lambda>_. right_sums" "\<lambda>_ _. 7" "\<lambda>_. left_sums"]
  obtain rs1 rs2
    where 1: "sample_sweep (\<lambda>i n. int (i + n)) (\<lambda>_. right_sums) sample_config [False] = Some (Inr rs1)"
      and 2: "sample_sweep (\<lambda>_ _. 7) (\<lambda>_. left_sums)
        (sample_config\<lparr>cf_seed := u64_wrapping_add (cf_seed sample_config) 1\<rparr>) [True] = Some (Inr rs2)"
      and len: "length rs1 = 1" and same: "list_all2 same_outcome (rs1 @ rs2) rs"
    by (auto simp: sample_sweep_def)
  have count: "bs_total_trades (sr_stats r) = bs_total_trades (sr_stats r')" if "same_outcome r r'" for r r'
    using arg_cong [OF that [unfolded same_outcome_def], of bs_total_trades] by simp
  have "map (\<lambda>s. bs_total_trades (sr_stats s)) (rs1 @ rs2) = map (\<lambda>s. bs_total_trades (sr_stats s)) rs"
    using same by (induction rule: list_all2_induct) (auto simp: count)
  with trades len have "sweep_trades (Some (Inr rs1)) = [1] \<and> sweep_trades (Some (Inr rs2)) = [0]"
    by (cases rs1) (auto simp: sweep_trades_def)
  with 1 2 show ?thesis by blast
qed

theorem sweep_returns_witness:
  "\<exists>r. run_parameter_sweep hd sample_env (\<lambda>i n. int (i * n)) (\<lambda>_. left_sums) conservative_queue sample_config
     [False, True, False] [(5, TickDelivery (sell_tick 5 0))] = Some r"
proof -
  have "bounded_strategy (en_strategy sample_env) (\<lambda>bought. if bought then 0 else 1)"
    using sample_strategy.bounded_strategy_axioms by (simp add: sample_env_def)
  from sweep_returns [OF this, of hd] show ?thesis by (metis list.set_sel(1))
qed

end
