(* ===== verification/PyBacktester.thy ===== *)
theory PyBacktester
  imports PyStrategy Sweep "HOL-Library.List_Lexorder" "HOL-Library.Char_ord"
begin

text \<open>
  \<open>backtester-py/src/lib.rs\<close>, third part: the class \<open>Backtester\<close>. Its constructor with all checks, the
  symbol identifiers, the configuration of the engine, the choice of one of the six engines, and
  \<open>run\<close>, \<open>run_many\<close> and \<open>run_arrow\<close>. A Python dict with string keys is the list of its items; a frame
  or stream is a value that the argument \<open>open_stream\<close> turns into the batches of its Arrow stream
  (polars' \<open>collect\<close> and \<open>to_arrow\<close> and the C stream interface, which are not part of the repository).
\<close>

section \<open>Construction\<close>

datatype 'a py_mapping = PyDict "(string \<times> 'a) list" | NotADict

text \<open>The arguments of the constructor, and the object it makes of them.\<close>

record 'f backtester_args =
  ba_data :: "'f py_mapping"
  ba_feed_latency_ns :: i64
  ba_order_update_latency_ns :: "i64 option"
  ba_python_mode :: string
  ba_batch_ms :: i64
  ba_seed :: u64
  ba_trade_log_mode :: string
  ba_maker_fee_bps :: i64
  ba_taker_fee_bps :: i64
  ba_ring_buffer_size :: usize
  ba_symbol_map :: "int py_mapping option"
  ba_queue_model :: string
  ba_latency_model :: string
  ba_latency_mean_ns :: i64
  ba_latency_std_ns :: i64
  ba_max_open_orders :: usize
  ba_max_position :: i64
  ba_max_loss :: i64
  ba_depth_mode :: string
  ba_l3_data :: "'f py_mapping option"

record 'f backtester =
  bt_data :: "'f py_mapping"
  bt_feed_latency_ns :: i64
  bt_order_update_latency_ns :: i64
  bt_python_mode :: string
  bt_batch_ms :: i64
  bt_seed :: u64
  bt_trade_log_mode :: string
  bt_maker_fee_bps :: i64
  bt_taker_fee_bps :: i64
  bt_ring_buffer_size :: usize
  bt_symbol_map :: "(string, u32) hash_map option"
  bt_queue_model :: string
  bt_latency_model :: string
  bt_latency_mean_ns :: i64
  bt_latency_std_ns :: i64
  bt_max_open_orders :: usize
  bt_max_position :: i64
  bt_max_loss :: i64
  bt_depth_mode :: string
  bt_l3_data :: "'f py_mapping option"

text \<open>
  The loop over the items of \<open>symbol_map\<close>. The value of an item is a Python integer here; a value
  of another type fails its conversion to \<open>u32\<close> like an integer out of range.
\<close>

fun parse_symbol_map ::
  "(string \<times> int) list \<Rightarrow> (string, u32) hash_map \<Rightarrow> (u32, string) hash_map \<Rightarrow>
   'x py_err + (string, u32) hash_map" where
  "parse_symbol_map [] m ids_to_keys = Inr m"
| "parse_symbol_map ((key, v) # rest) m ids_to_keys =
     (if v < 0 \<or> v \<ge> 4294967296 then
        Inl (PyValueError (''symbol_map: id for '' @ quoted key @ '' must be a non-negative integer''))
      else if v = 0 then
        Inl (PyValueError (''symbol_map: id for '' @ quoted key @ '' is 0; ids must be >= 1''))
      else (case hm_get ids_to_keys (nat v) of
              Some existing_key \<Rightarrow>
                Inl (PyValueError (''symbol_map: duplicate id '' @ show_nat (nat v) @ '' for '' @
                  quoted existing_key @ '' and '' @ quoted key))
            | None \<Rightarrow>
                parse_symbol_map rest (hm_insert key (nat v) m) (hm_insert (nat v) key ids_to_keys)))"

fun check_covered :: "string list \<Rightarrow> (string, u32) hash_map \<Rightarrow> 'x py_err + unit" where
  "check_covered [] m = Inr ()"
| "check_covered (key # keys) m =
     (if hm_get m key = None
      then Inl (PyValueError (''symbol_map is missing entry for data key '' @ quoted key))
      else check_covered keys m)"

definition resolve_symbol_map ::
  "int py_mapping option \<Rightarrow> 'f py_mapping \<Rightarrow> 'x py_err + (string, u32) hash_map option" where
  "resolve_symbol_map symbol_map data =
     (case symbol_map of
        None \<Rightarrow> Inr None
      | Some NotADict \<Rightarrow> Inl (PyTypeError ''symbol_map must be a dict'')
      | Some (PyDict entries) \<Rightarrow>
          (case data of
             NotADict \<Rightarrow> Inl (PyTypeError ''data must be a dict'')
           | PyDict frames \<Rightarrow>
               bind_err (parse_symbol_map entries hm_empty hm_empty) (\<lambda>m.
               bind_err (check_covered (map fst frames) m) (\<lambda>_. Inr (Some m)))))"

definition backtester_new :: "'f backtester_args \<Rightarrow> 'x py_err + 'f backtester" where
  "backtester_new a =
     (if ba_ring_buffer_size a = 0 then Inl (PyValueError ''ring_buffer_size must be >= 1'')
      else bind_err (resolve_symbol_map (ba_symbol_map a) (ba_data a)) (\<lambda>resolved.
        if ba_queue_model a \<notin> {''conservative'', ''volume_clock''} then
          Inl (PyValueError (''unknown queue_model '' @ quoted (ba_queue_model a) @ ''; expected '' @
            quoted ''conservative'' @ '' or '' @ quoted ''volume_clock''))
        else if ba_depth_mode a \<notin> {''l2'', ''l3''} then
          Inl (PyValueError (''unknown depth_mode '' @ quoted (ba_depth_mode a) @ ''; expected '' @
            quoted ''l2'' @ '' or '' @ quoted ''l3''))
        else if ba_depth_mode a = ''l3'' \<and> ba_l3_data a = None then
          Inl (PyValueError (''depth_mode='' @ quoted ''l3'' @ '' requires l3_data''))
        else if ba_depth_mode a = ''l2'' \<and> ba_l3_data a \<noteq> None then
          Inl (PyValueError (''l3_data requires depth_mode='' @ quoted ''l3''))
        else if ba_latency_model a \<notin> {''constant'', ''log_normal''} then
          Inl (PyValueError (''unknown latency_model '' @ quoted (ba_latency_model a) @ ''; expected '' @
            quoted ''constant'' @ '' or '' @ quoted ''log_normal''))
        else if ba_max_loss a > 0 then
          Inl (PyValueError ''max_loss must be <= 0 (negative threshold) or 0 (disabled)'')
        else Inr
          \<lparr>bt_data = ba_data a, bt_feed_latency_ns = ba_feed_latency_ns a,
           bt_order_update_latency_ns =
             (case ba_order_update_latency_ns a of None \<Rightarrow> ba_feed_latency_ns a | Some l \<Rightarrow> l),
           bt_python_mode = ba_python_mode a, bt_batch_ms = ba_batch_ms a, bt_seed = ba_seed a,
           bt_trade_log_mode = ba_trade_log_mode a, bt_maker_fee_bps = ba_maker_fee_bps a,
           bt_taker_fee_bps = ba_taker_fee_bps a, bt_ring_buffer_size = ba_ring_buffer_size a,
           bt_symbol_map = resolved, bt_queue_model = ba_queue_model a,
           bt_latency_model = ba_latency_model a, bt_latency_mean_ns = ba_latency_mean_ns a,
           bt_latency_std_ns = ba_latency_std_ns a, bt_max_open_orders = ba_max_open_orders a,
           bt_max_position = ba_max_position a, bt_max_loss = ba_max_loss a,
           bt_depth_mode = ba_depth_mode a, bt_l3_data = ba_l3_data a\<rparr>))"

section \<open>Symbol identifiers\<close>

fun check_symbol_ids ::
  "string list \<Rightarrow> (string, u32) hash_map \<Rightarrow> (u32, string) hash_map \<Rightarrow> 'x py_err + unit" where
  "check_symbol_ids [] m ids_to_keys = Inr ()"
| "check_symbol_ids (k # ks) m ids_to_keys =
     (case hm_get m k of
        None \<Rightarrow> Inl (PyValueError (''symbol_map is missing entry for data key '' @ quoted k))
      | Some i \<Rightarrow>
          (case hm_get ids_to_keys i of
             Some existing_key \<Rightarrow>
               Inl (PyValueError (''symbol_map: duplicate id '' @ show_nat i @ '' for '' @
                 quoted existing_key @ '' and '' @ quoted k))
           | None \<Rightarrow> check_symbol_ids ks m (hm_insert i k ids_to_keys)))"

text \<open>\<open>(i as u32) + 1\<close>, wrapping.\<close>

definition default_id :: "nat \<Rightarrow> u32" where
  "default_id i = (i mod 2 ^ 32 + 1) mod 2 ^ 32"

definition build_symbol_ids ::
  "string list \<Rightarrow> (string, u32) hash_map option \<Rightarrow> 'x py_err + (string, u32) hash_map" where
  "build_symbol_ids sorted_keys explicit_map =
     (case explicit_map of
        Some m \<Rightarrow> bind_err (check_symbol_ids sorted_keys m hm_empty) (\<lambda>_. Inr m)
      | None \<Rightarrow>
          Inr (fold (\<lambda>(i, k) ids. hm_insert k (default_id i) ids) (enumerate 0 sorted_keys) hm_empty))"

section \<open>Configuration\<close>

definition parse_mode :: "string \<Rightarrow> engine_mode" where
  "parse_mode s = (if s = ''batch'' then BatchMode else TickMode)"

text \<open>
  \<open>to_lowercase\<close> on the characters that matter: the names compared against are ASCII and hold no
  letter that std lowers a non-ASCII character to.
\<close>

definition lower_char :: "char \<Rightarrow> char" where
  "lower_char c = (if of_char c \<ge> (65 :: nat) \<and> of_char c \<le> (90 :: nat) then char_of (of_char c + (32 :: nat)) else c)"

definition to_lowercase :: "string \<Rightarrow> string" where
  "to_lowercase s = map lower_char s"

definition parse_trade_log_mode :: "string \<Rightarrow> usize \<Rightarrow> trade_log_mode" where
  "parse_trade_log_mode s ring_buffer_size =
     (let l = to_lowercase s in
      if l = ''all'' then LogAll
      else if l = ''summaryonly'' then SummaryOnly
      else if l = ''none'' then LogNone
      else if take (length ''ringbuffer'') l = ''ringbuffer'' then RingBuffer ring_buffer_size
      else LogAll)"

definition saturating_mul_i64 :: "i64 \<Rightarrow> i64 \<Rightarrow> i64" where
  "saturating_mul_i64 a b = clamp_i64 (a * b)"

definition backtester_config :: "'f backtester \<Rightarrow> u64 \<Rightarrow> engine_config" where
  "backtester_config bt seed =
     \<lparr>cf_feed_latency_ns = bt_feed_latency_ns bt,
      cf_order_update_latency_ns = bt_order_update_latency_ns bt,
      cf_mode = parse_mode (bt_python_mode bt),
      cf_max_batch_ns = saturating_mul_i64 (bt_batch_ms bt) 1000000,
      cf_auto_tune = False, cf_seed = seed,
      cf_trade_log_mode = parse_trade_log_mode (bt_trade_log_mode bt) (bt_ring_buffer_size bt),
      cf_maker_fee_bps = bt_maker_fee_bps bt, cf_taker_fee_bps = bt_taker_fee_bps bt,
      cf_max_open_orders = bt_max_open_orders bt, cf_max_position = bt_max_position bt,
      cf_max_loss = bt_max_loss bt\<rparr>"

definition effective_queue_model :: "'f backtester \<Rightarrow> string" where
  "effective_queue_model bt = (if bt_depth_mode bt = ''l3'' then ''l3_exact'' else bt_queue_model bt)"

section \<open>The outside world and errors\<close>

text \<open>
  Everything the bindings call that is not part of the repository, in one record: opening a frame or
  stream, arrow's cast kernel and error texts, how a Python exception prints, the seeding and the
  uniform numbers of the generator, the platform's mathematical functions, the wall clock, and the
  order in which rayon reduces.
\<close>

record ('f, 'x, 'ae, 'rng) py_world =
  pw_open_stream :: "'f \<Rightarrow> 'x py_err + ('ae arrow_error + record_batch) list"
  pw_cast :: "'ae cast_fn"
  pw_show_arrow :: "'ae arrow_error \<Rightarrow> string"
  pw_show_err :: "'x py_err \<Rightarrow> string"
  pw_make_rng :: "u64 \<Rightarrow> 'rng"
  pw_gen_f64 :: "'rng \<Rightarrow> f64 \<times> 'rng"
  pw_math :: math_fns
  pw_clock :: "nat \<Rightarrow> i64"
  pw_par_reduce :: par_reduce

definition map_err :: "('a \<Rightarrow> 'b) \<Rightarrow> 'a + 'c \<Rightarrow> 'b + 'c" where
  "map_err f r = map_sum f id r"

definition tick_source_error_to_pyerr ::
  "('f, 'x, 'ae, 'rng) py_world \<Rightarrow> 'ae tick_source_error \<Rightarrow> 'x py_err" where
  "tick_source_error_to_pyerr w e =
     (let text = show_tick_source_error (pw_show_arrow w) e
      in case e of
           NonIntegerColumn _ _ \<Rightarrow> PyTypeError text
         | Reader _ \<Rightarrow> PyRuntimeError text
         | _ \<Rightarrow> PyValueError text)"

definition engine_error_to_pyerr ::
  "('f, 'x, 'ae, 'rng) py_world \<Rightarrow> ('ae tick_source_error, 'x py_err) engine_error \<Rightarrow> 'x py_err" where
  "engine_error_to_pyerr w e =
     (case e of
        TickSourceErr te \<Rightarrow> tick_source_error_to_pyerr w te
      | StrategyErr pe \<Rightarrow> pe
      | Internal message \<Rightarrow> PyRuntimeError message)"

section \<open>The six engines\<close>

type_synonym ('s, 'x, 'ae, 'rng) py_env =
  "('s, 'x py_err, 'rng, (cached_batch, tick, 'ae) arrow_source,
    (cached_l3_batch, l3_update, 'ae) arrow_source, 'ae tick_source_error) engine_env"

type_synonym ('st, 's, 'ae, 'rng) py_engine =
  "('st, 's, 'rng, (cached_batch, tick, 'ae) arrow_source,
    (cached_l3_batch, l3_update, 'ae) arrow_source) engine"

text \<open>Each engine comes with its environment, which holds its strategy and latency model.\<close>

datatype ('s, 'x, 'ae, 'rng) any_engine =
    ConservativeConstant "('s, 'x, 'ae, 'rng) py_env" "(conservative_state, 's, 'ae, 'rng) py_engine"
  | VolumeClockConstant "('s, 'x, 'ae, 'rng) py_env" "(volume_clock_state, 's, 'ae, 'rng) py_engine"
  | L3ExactConstant "('s, 'x, 'ae, 'rng) py_env" "(l3_exact_state, 's, 'ae, 'rng) py_engine"
  | ConservativeLogNormal "('s, 'x, 'ae, 'rng) py_env" "(conservative_state, 's, 'ae, 'rng) py_engine"
  | VolumeClockLogNormal "('s, 'x, 'ae, 'rng) py_env" "(volume_clock_state, 's, 'ae, 'rng) py_engine"
  | L3ExactLogNormal "('s, 'x, 'ae, 'rng) py_env" "(l3_exact_state, 's, 'ae, 'rng) py_engine"

definition py_env ::
  "('f, 'x, 'ae, 'rng) py_world \<Rightarrow> ('s, 'x) py_object \<Rightarrow> 'rng latency_model \<Rightarrow> ('s, 'x, 'ae, 'rng) py_env" where
  "py_env w obj lm = arrow_env (py_strategy obj) lm (pw_cast w) (pw_make_rng w) (pw_clock w)"

definition any_engine_new ::
  "('f, 'x, 'ae, 'rng) py_world \<Rightarrow> string \<Rightarrow> string \<Rightarrow> i64 \<Rightarrow> i64 \<Rightarrow> i64 \<Rightarrow> i64 \<Rightarrow>
   ('s, 'x) py_object \<Rightarrow> 's \<Rightarrow> engine_config \<Rightarrow> ('s, 'x, 'ae, 'rng) any_engine" where
  "any_engine_new w queue_model latency_model feed_latency_ns order_latency_ns mean_ns std_ns obj s config =
     (let const_l = py_env w obj (constant_model
            \<lparr>cl_feed_latency_ns = feed_latency_ns, cl_order_latency_ns = order_latency_ns\<rparr>);
          log_l = py_env w obj (lognormal_model (pw_math w) (pw_gen_f64 w)
            \<lparr>lj_mean_ns = mean_ns, lj_std_dev_ns = std_ns\<rparr>)
      in if queue_model = ''volume_clock'' then
           (if latency_model = ''log_normal''
            then VolumeClockLogNormal log_l (engine_new log_l volume_clock_queue s config)
            else VolumeClockConstant const_l (engine_new const_l volume_clock_queue s config))
         else if queue_model = ''l3_exact'' then
           (if latency_model = ''log_normal''
            then L3ExactLogNormal log_l (engine_new log_l l3_exact_queue s config)
            else L3ExactConstant const_l (engine_new const_l l3_exact_queue s config))
         else
           (if latency_model = ''log_normal''
            then ConservativeLogNormal log_l (engine_new log_l conservative_queue s config)
            else ConservativeConstant const_l (engine_new const_l conservative_queue s config)))"

fun any_add_tick_source ::
  "(cached_batch, tick, 'ae) arrow_source \<Rightarrow> ('s, 'x, 'ae, 'rng) any_engine \<Rightarrow> ('s, 'x, 'ae, 'rng) any_engine" where
  "any_add_tick_source src (ConservativeConstant env e) = ConservativeConstant env (add_tick_source src e)"
| "any_add_tick_source src (VolumeClockConstant env e) = VolumeClockConstant env (add_tick_source src e)"
| "any_add_tick_source src (L3ExactConstant env e) = L3ExactConstant env (add_tick_source src e)"
| "any_add_tick_source src (ConservativeLogNormal env e) = ConservativeLogNormal env (add_tick_source src e)"
| "any_add_tick_source src (VolumeClockLogNormal env e) = VolumeClockLogNormal env (add_tick_source src e)"
| "any_add_tick_source src (L3ExactLogNormal env e) = L3ExactLogNormal env (add_tick_source src e)"

fun any_add_l3_source ::
  "(cached_l3_batch, l3_update, 'ae) arrow_source \<Rightarrow> ('s, 'x, 'ae, 'rng) any_engine \<Rightarrow> ('s, 'x, 'ae, 'rng) any_engine" where
  "any_add_l3_source src (ConservativeConstant env e) = ConservativeConstant env (add_l3_source env src e)"
| "any_add_l3_source src (VolumeClockConstant env e) = VolumeClockConstant env (add_l3_source env src e)"
| "any_add_l3_source src (L3ExactConstant env e) = L3ExactConstant env (add_l3_source env src e)"
| "any_add_l3_source src (ConservativeLogNormal env e) = ConservativeLogNormal env (add_l3_source env src e)"
| "any_add_l3_source src (VolumeClockLogNormal env e) = VolumeClockLogNormal env (add_l3_source env src e)"
| "any_add_l3_source src (L3ExactLogNormal env e) = L3ExactLogNormal env (add_l3_source env src e)"

fun any_push_event ::
  "ts_sim_ns \<Rightarrow> event_kind \<Rightarrow> ('s, 'x, 'ae, 'rng) any_engine \<Rightarrow> ('s, 'x, 'ae, 'rng) any_engine" where
  "any_push_event ts k (ConservativeConstant env e) = ConservativeConstant env (push_event ts k e)"
| "any_push_event ts k (VolumeClockConstant env e) = VolumeClockConstant env (push_event ts k e)"
| "any_push_event ts k (L3ExactConstant env e) = L3ExactConstant env (push_event ts k e)"
| "any_push_event ts k (ConservativeLogNormal env e) = ConservativeLogNormal env (push_event ts k e)"
| "any_push_event ts k (VolumeClockLogNormal env e) = VolumeClockLogNormal env (push_event ts k e)"
| "any_push_event ts k (L3ExactLogNormal env e) = L3ExactLogNormal env (push_event ts k e)"

text \<open>The result of a run with its error turned into a Python one and the engine wrapped again.\<close>

definition wrap_run ::
  "('f, 'x, 'ae, 'rng) py_world \<Rightarrow> ('g \<Rightarrow> ('s, 'x, 'ae, 'rng) any_engine) \<Rightarrow>
   ((('ae tick_source_error, 'x py_err) engine_error + unit) \<times> 'g) option \<Rightarrow>
   (('x py_err + unit) \<times> ('s, 'x, 'ae, 'rng) any_engine) option" where
  "wrap_run w wrap r = map_option (map_prod (map_err (engine_error_to_pyerr w)) wrap) r"

fun any_run ::
  "('f, 'x, 'ae, 'rng) py_world \<Rightarrow> ('s, 'x, 'ae, 'rng) any_engine \<Rightarrow>
   (('x py_err + unit) \<times> ('s, 'x, 'ae, 'rng) any_engine) option" where
  "any_run w (ConservativeConstant env e) = wrap_run w (ConservativeConstant env) (engine_run env e)"
| "any_run w (VolumeClockConstant env e) = wrap_run w (VolumeClockConstant env) (engine_run env e)"
| "any_run w (L3ExactConstant env e) = wrap_run w (L3ExactConstant env) (engine_run env e)"
| "any_run w (ConservativeLogNormal env e) = wrap_run w (ConservativeLogNormal env) (engine_run env e)"
| "any_run w (VolumeClockLogNormal env e) = wrap_run w (VolumeClockLogNormal env) (engine_run env e)"
| "any_run w (L3ExactLogNormal env e) = wrap_run w (L3ExactLogNormal env) (engine_run env e)"

definition extract_engine ::
  "('f, 'x, 'ae, 'rng) py_world \<Rightarrow> ('st, 's, 'ae, 'rng) py_engine \<Rightarrow> backtest_result" where
  "extract_engine w e =
     \<lparr>br_trades = fills_vec (eg_trade_log e), br_stats = engine_stats (pw_par_reduce w) e,
      br_equity_curve = equity_curve_from_pnl_deltas (full_pnl_history (eg_trade_log e))\<rparr>"

fun extract_result ::
  "('f, 'x, 'ae, 'rng) py_world \<Rightarrow> ('s, 'x, 'ae, 'rng) any_engine \<Rightarrow> backtest_result" where
  "extract_result w (ConservativeConstant env e) = extract_engine w e"
| "extract_result w (VolumeClockConstant env e) = extract_engine w e"
| "extract_result w (L3ExactConstant env e) = extract_engine w e"
| "extract_result w (ConservativeLogNormal env e) = extract_engine w e"
| "extract_result w (VolumeClockLogNormal env e) = extract_engine w e"
| "extract_result w (L3ExactLogNormal env e) = extract_engine w e"

text \<open>\<open>engine.run()?; Ok(engine.extract_result())\<close>\<close>

definition run_and_extract ::
  "('f, 'x, 'ae, 'rng) py_world \<Rightarrow> ('s, 'x, 'ae, 'rng) any_engine \<Rightarrow> ('x py_err + backtest_result) option" where
  "run_and_extract w e =
     (case any_run w e of
        None \<Rightarrow> None
      | Some (Inl err, _) \<Rightarrow> Some (Inl err)
      | Some (Inr _, e') \<Rightarrow> Some (Inr (extract_result w e')))"

text \<open>The engine \<open>run\<close>, \<open>run_many\<close> and \<open>run_arrow\<close> make for a strategy, with the seed of the run.\<close>

definition backtester_engine ::
  "('f, 'x, 'ae, 'rng) py_world \<Rightarrow> 'f backtester \<Rightarrow> u64 \<Rightarrow> ('s, 'x) py_object \<Rightarrow> 's \<Rightarrow>
   ('s, 'x, 'ae, 'rng) any_engine" where
  "backtester_engine w bt seed obj s =
     any_engine_new w (effective_queue_model bt) (bt_latency_model bt) (bt_feed_latency_ns bt)
       (bt_order_update_latency_ns bt) (bt_latency_mean_ns bt) (bt_latency_std_ns bt) obj s
       (backtester_config bt seed)"

section \<open>\<open>run\<close>\<close>

fun add_data_sources ::
  "('f, 'x, 'ae, 'rng) py_world \<Rightarrow> (string \<times> 'f) list \<Rightarrow> (string, u32) hash_map \<Rightarrow> string list \<Rightarrow>
   ('s, 'x, 'ae, 'rng) any_engine \<Rightarrow> 'x py_err + ('s, 'x, 'ae, 'rng) any_engine" where
  "add_data_sources w data_dict symbol_ids [] e = Inr e"
| "add_data_sources w data_dict symbol_ids (k # ks) e =
     (case hm_get symbol_ids k of
        None \<Rightarrow> Inl (PyRuntimeError ''missing symbol id'')
      | Some symbol_id \<Rightarrow>
          (case map_of data_dict k of
             None \<Rightarrow> Inl (PyKeyError ''missing key'')
           | Some frame \<Rightarrow>
               bind_err (pw_open_stream w frame) (\<lambda>stream.
               bind_err (map_err (tick_source_error_to_pyerr w) (tick_source_try_new (pw_cast w) symbol_id stream))
                 (\<lambda>source. add_data_sources w data_dict symbol_ids ks (any_add_tick_source source e)))))"

fun attach_l3_loop ::
  "('f, 'x, 'ae, 'rng) py_world \<Rightarrow> (string \<times> 'f) list \<Rightarrow> (string, u32) hash_map \<Rightarrow> string list \<Rightarrow>
   ('s, 'x, 'ae, 'rng) any_engine \<Rightarrow> 'x py_err + ('s, 'x, 'ae, 'rng) any_engine" where
  "attach_l3_loop w l3_dict symbol_ids [] e = Inr e"
| "attach_l3_loop w l3_dict symbol_ids (k # ks) e =
     (case hm_get symbol_ids k of
        None \<Rightarrow> Inl (PyRuntimeError (''missing symbol id for L3 data key '' @ quoted k))
      | Some symbol_id \<Rightarrow>
          (case map_of l3_dict k of
             None \<Rightarrow> Inl (PyValueError (''l3_data is missing entry for data key '' @ quoted k))
           | Some frame \<Rightarrow>
               bind_err (pw_open_stream w frame) (\<lambda>stream.
               bind_err (map_err (\<lambda>error. PyValueError (''l3_data stream for symbol '' @ quoted k @ '': '' @
                     show_tick_source_error (pw_show_arrow w) error))
                   (l3_source_try_new (pw_cast w) symbol_id stream))
                 (\<lambda>source. attach_l3_loop w l3_dict symbol_ids ks (any_add_l3_source source e)))))"

definition requires_l3_data :: "'x py_err" where
  "requires_l3_data = PyValueError (''depth_mode='' @ quoted ''l3'' @ '' requires l3_data'')"

definition attach_l3_sources ::
  "('f, 'x, 'ae, 'rng) py_world \<Rightarrow> 'f py_mapping option \<Rightarrow> string list \<Rightarrow> (string, u32) hash_map \<Rightarrow>
   ('s, 'x, 'ae, 'rng) any_engine \<Rightarrow> 'x py_err + ('s, 'x, 'ae, 'rng) any_engine" where
  "attach_l3_sources w l3_data keys symbol_ids e =
     (case l3_data of
        None \<Rightarrow> Inl requires_l3_data
      | Some NotADict \<Rightarrow> Inl (PyTypeError ''l3_data must be a dict'')
      | Some (PyDict l3_dict) \<Rightarrow> attach_l3_loop w l3_dict symbol_ids keys e)"

definition attach_if_l3 ::
  "('f, 'x, 'ae, 'rng) py_world \<Rightarrow> 'f backtester \<Rightarrow> string list \<Rightarrow> (string, u32) hash_map \<Rightarrow>
   ('s, 'x, 'ae, 'rng) any_engine \<Rightarrow> 'x py_err + ('s, 'x, 'ae, 'rng) any_engine" where
  "attach_if_l3 w bt keys symbol_ids e =
     (if bt_depth_mode bt = ''l3'' then attach_l3_sources w (bt_l3_data bt) keys symbol_ids e else Inr e)"

text \<open>The engine ready to run, or the error before the run.\<close>

definition prepare_run ::
  "('f, 'x, 'ae, 'rng) py_world \<Rightarrow> 'f backtester \<Rightarrow> ('s, 'x) py_object \<Rightarrow> 's \<Rightarrow>
   'x py_err + ('s, 'x, 'ae, 'rng) any_engine" where
  "prepare_run w bt obj s =
     (case bt_data bt of
        NotADict \<Rightarrow> Inl PyCastError
      | PyDict data_dict \<Rightarrow>
          let keys = sort (map fst data_dict)
          in bind_err (build_symbol_ids keys (bt_symbol_map bt)) (\<lambda>symbol_ids.
             bind_err (add_data_sources w data_dict symbol_ids keys (backtester_engine w bt (bt_seed bt) obj s))
               (attach_if_l3 w bt keys symbol_ids)))"

definition backtester_run ::
  "('f, 'x, 'ae, 'rng) py_world \<Rightarrow> 'f backtester \<Rightarrow> ('s, 'x) py_object \<Rightarrow> 's \<Rightarrow>
   ('x py_err + backtest_result) option" where
  "backtester_run w bt obj s =
     (case prepare_run w bt obj s of Inl err \<Rightarrow> Some (Inl err) | Inr e \<Rightarrow> run_and_extract w e)"

end
