(* ===== verification/PyRuns.thy ===== *)
theory PyRuns
  imports PyBacktester "HOL-Library.Product_Lexorder"
begin

text \<open>
  \<open>backtester-py/src/lib.rs\<close>, fourth part: \<open>run_arrow\<close>, the parsing of the data into events that
  \<open>run_many\<close> shares between its runs, \<open>run_many\<close> itself, and the checksum of \<open>run_smoke\<close>.
\<close>

section \<open>\<open>run_arrow\<close>\<close>

datatype 'f py_streams = StreamDict "(string \<times> 'f) list" | SingleStream 'f

fun add_stream_sources ::
  "('f, 'x, 'ae, 'rng) py_world \<Rightarrow> (string \<times> 'f) list \<Rightarrow> (string, u32) hash_map \<Rightarrow> string list \<Rightarrow>
   ('s, 'x, 'ae, 'rng) any_engine \<Rightarrow> 'x py_err + ('s, 'x, 'ae, 'rng) any_engine" where
  "add_stream_sources w streams symbol_ids [] e = Inr e"
| "add_stream_sources w streams symbol_ids (k # ks) e =
     (case hm_get symbol_ids k of
        None \<Rightarrow> Inl (PyRuntimeError ''missing symbol id'')
      | Some symbol_id \<Rightarrow>
          (case map_of streams k of
             None \<Rightarrow> Inl (PyKeyError k)
           | Some stream \<Rightarrow>
               bind_err (map_err (\<lambda>err. PyValueError (''run_arrow: stream for symbol '' @ quoted k @ '': '' @
                   pw_show_err w err)) (pw_open_stream w stream)) (\<lambda>reader.
               bind_err (map_err (\<lambda>err. PyValueError (''run_arrow: stream for symbol '' @ quoted k @ '': '' @
                   show_tick_source_error (pw_show_arrow w) err))
                   (tick_source_try_new (pw_cast w) symbol_id reader))
                 (\<lambda>source. add_stream_sources w streams symbol_ids ks (any_add_tick_source source e)))))"

definition single_l3_key :: "'f py_mapping option \<Rightarrow> 'x py_err + string list" where
  "single_l3_key l3_data =
     (case l3_data of
        None \<Rightarrow> Inl requires_l3_data
      | Some NotADict \<Rightarrow> Inl (PyTypeError ''l3_data must be a dict'')
      | Some (PyDict l3_dict) \<Rightarrow>
          let keys = sort (map fst l3_dict)
          in if length keys \<noteq> 1
             then Inl (PyValueError ''run_arrow single-stream L3 mode requires exactly one l3_data entry'')
             else Inr keys)"

definition prepare_run_arrow ::
  "('f, 'x, 'ae, 'rng) py_world \<Rightarrow> 'f backtester \<Rightarrow> 'f py_streams \<Rightarrow> ('s, 'x) py_object \<Rightarrow> 's \<Rightarrow>
   'x py_err + ('s, 'x, 'ae, 'rng) any_engine" where
  "prepare_run_arrow w bt streams obj s =
     (let e = backtester_engine w bt (bt_seed bt) obj s
      in case streams of
           StreamDict streams_dict \<Rightarrow>
             let keys = sort (map fst streams_dict)
             in if keys = [] then Inl (PyValueError ''run_arrow: stream dict must not be empty'')
                else bind_err (build_symbol_ids keys (bt_symbol_map bt)) (\<lambda>symbol_ids.
                     bind_err (add_stream_sources w streams_dict symbol_ids keys e)
                       (attach_if_l3 w bt keys symbol_ids))
         | SingleStream stream \<Rightarrow>
             bind_err (pw_open_stream w stream) (\<lambda>reader.
             bind_err (map_err (tick_source_error_to_pyerr w) (tick_source_try_new (pw_cast w) 1 reader)) (\<lambda>source.
             if bt_depth_mode bt = ''l3'' then
               bind_err (single_l3_key (bt_l3_data bt)) (\<lambda>keys.
                 attach_l3_sources w (bt_l3_data bt) keys (hm_insert (hd keys) 1 hm_empty)
                   (any_add_tick_source source e))
             else Inr (any_add_tick_source source e))))"

definition backtester_run_arrow ::
  "('f, 'x, 'ae, 'rng) py_world \<Rightarrow> 'f backtester \<Rightarrow> 'f py_streams \<Rightarrow> ('s, 'x) py_object \<Rightarrow> 's \<Rightarrow>
   ('x py_err + backtest_result) option" where
  "backtester_run_arrow w bt streams obj s =
     (case prepare_run_arrow w bt streams obj s of Inl err \<Rightarrow> Some (Inl err) | Inr e \<Rightarrow> run_and_extract w e)"

section \<open>Reading a source to its end\<close>

text \<open>\<open>while let Some(tick) = source.next()?\<close>; \<open>None\<close> would be a source that never ends.\<close>

partial_function (option) read_rows ::
  "('src \<Rightarrow> ('te + 'row option) \<times> 'src) \<Rightarrow> 'src \<Rightarrow> ('te + 'row list) option" where
  "read_rows nxt src =
     (case nxt src of
        (Inl e, src') \<Rightarrow> Some (Inl e)
      | (Inr None, src') \<Rightarrow> Some (Inr [])
      | (Inr (Some row), src') \<Rightarrow>
          Option.bind (read_rows nxt src') (\<lambda>rest. Some (map_sum id ((#) row) rest)))"

declare read_rows.simps [code]

context row_source begin

lemma read_rows_holds: "holds s rows \<Longrightarrow> read_rows next s = Some (Inr rows)"
proof (induction rows arbitrary: s)
  case Nil
  from next_holds [OF Nil] obtain s' where "next s = (Inr None, s')" by auto
  then show ?case by (simp add: read_rows.simps [of "next" s])
next
  case (Cons row rows)
  from next_holds [OF Cons.prems] obtain s' where "next s = (Inr (Some row), s')" "holds s' rows" by auto
  with Cons.IH [of s'] show ?case by (simp add: read_rows.simps [of "next" s])
qed

end

text \<open>The rows of a frame: opened, a source built, and read to its end, with the code's errors.\<close>

definition frame_ticks ::
  "('f, 'x, 'ae, 'rng) py_world \<Rightarrow> ('ae tick_source_error \<Rightarrow> 'x py_err) \<Rightarrow> u32 \<Rightarrow> 'f \<Rightarrow>
   ('x py_err + tick list) option" where
  "frame_ticks w new_err symbol_id frame =
     (case bind_err (pw_open_stream w frame) (\<lambda>stream.
             map_err new_err (tick_source_try_new (pw_cast w) symbol_id stream)) of
        Inl e \<Rightarrow> Some (Inl e)
      | Inr source \<Rightarrow>
          map_option (map_err (tick_source_error_to_pyerr w))
            (read_rows (source_next (tick_format (pw_cast w))) source))"

section \<open>Events for \<open>run_many\<close>\<close>

type_synonym timed_event = "ts_sim_ns \<times> u64 \<times> event_kind"

text \<open>
  The two events of a row. \<open>global_seq\<close> counts the elements of a vector in memory and cannot wrap.
\<close>

definition row_events :: "i64 \<Rightarrow> u64 \<Rightarrow> tick \<Rightarrow> timed_event list" where
  "row_events feed_latency_ns global_seq t =
     (let ts_local = (if tk_ts_local t = 0 then saturating_add (tk_ts_exchange t) feed_latency_ns
                      else tk_ts_local t);
          truth_tick = t\<lparr>tk_ts_local := tk_ts_exchange t, tk_flags := 1\<rparr>;
          delivered_tick = t\<lparr>tk_ts_local := ts_local, tk_flags := 1\<rparr>
      in [(tk_ts_exchange t, global_seq, TickEvent truth_tick),
          (ts_local, global_seq + 1, TickDelivery delivered_tick)])"

fun ticks_events :: "i64 \<Rightarrow> u64 \<Rightarrow> tick list \<Rightarrow> timed_event list" where
  "ticks_events feed_latency_ns global_seq [] = []"
| "ticks_events feed_latency_ns global_seq (t # ts) =
     row_events feed_latency_ns global_seq t @ ticks_events feed_latency_ns (global_seq + 2) ts"

text \<open>The loop over the keys, with the events and the next sequence number it has reached.\<close>

fun parse_loop ::
  "('f, 'x, 'ae, 'rng) py_world \<Rightarrow> i64 \<Rightarrow> (string \<times> 'f) list \<Rightarrow> (string, u32) hash_map \<Rightarrow> string list \<Rightarrow>
   timed_event list \<Rightarrow> u64 \<Rightarrow> ('x py_err + timed_event list) option" where
  "parse_loop w feed_latency_ns data_dict symbol_ids [] events global_seq = Some (Inr events)"
| "parse_loop w feed_latency_ns data_dict symbol_ids (k # ks) events global_seq =
     (case map_of data_dict k of
        None \<Rightarrow> Some (Inl (PyKeyError ''missing key''))
      | Some frame \<Rightarrow>
          (case hm_get symbol_ids k of
             None \<Rightarrow> Some (Inl (PyRuntimeError ''missing symbol id''))
           | Some symbol_id \<Rightarrow>
               (case frame_ticks w (tick_source_error_to_pyerr w) symbol_id frame of
                  None \<Rightarrow> None
                | Some (Inl e) \<Rightarrow> Some (Inl e)
                | Some (Inr ts) \<Rightarrow>
                    parse_loop w feed_latency_ns data_dict symbol_ids ks
                      (events @ ticks_events feed_latency_ns global_seq ts)
                      (global_seq + 2 * length ts))))"

definition event_key :: "timed_event \<Rightarrow> ts_sim_ns \<times> u64" where
  "event_key ev = (fst ev, fst (snd ev))"

definition parse_polars_data ::
  "('f, 'x, 'ae, 'rng) py_world \<Rightarrow> 'f py_mapping \<Rightarrow> i64 \<Rightarrow> (string, u32) hash_map option \<Rightarrow>
   ('x py_err + timed_event list) option" where
  "parse_polars_data w data feed_latency_ns explicit_symbol_map =
     (case data of
        NotADict \<Rightarrow> Some (Inl PyCastError)
      | PyDict data_dict \<Rightarrow>
          let keys = sort (map fst data_dict)
          in (case build_symbol_ids keys explicit_symbol_map of
                Inl e \<Rightarrow> Some (Inl e)
              | Inr symbol_ids \<Rightarrow>
                  map_option (map_sum id (sort_key event_key))
                    (parse_loop w feed_latency_ns data_dict symbol_ids keys [] 0)))"

section \<open>\<open>run_many\<close>\<close>

definition push_timed_events ::
  "timed_event list \<Rightarrow> ('s, 'x, 'ae, 'rng) any_engine \<Rightarrow> ('s, 'x, 'ae, 'rng) any_engine" where
  "push_timed_events events e = fold (\<lambda>(ts, _, kind). any_push_event ts kind) events e"

text \<open>\<open>pick\<close> is the error rayon's \<open>collect\<close> returns when several runs fail.\<close>

definition backtester_run_many ::
  "('x py_err list \<Rightarrow> 'x py_err) \<Rightarrow> ('f, 'x, 'ae, 'rng) py_world \<Rightarrow> 'f backtester \<Rightarrow>
   (('s, 'x) py_object \<times> 's) list \<Rightarrow> ('x py_err + backtest_result list) option" where
  "backtester_run_many pick w bt strategies =
     (if bt_depth_mode bt = ''l3'' then
        Some (Inl (PyValueError (''run_many does not support depth_mode='' @ quoted ''l3'' @
          ''; use run() or run_arrow()'')))
      else (case parse_polars_data w (bt_data bt) (bt_feed_latency_ns bt) (bt_symbol_map bt) of
              None \<Rightarrow> None
            | Some (Inl e) \<Rightarrow> Some (Inl e)
            | Some (Inr events) \<Rightarrow>
                map_option (collect_results pick)
                  (all_some (map (\<lambda>(i, obj, s). run_and_extract w
                       (push_timed_events events
                          (backtester_engine w bt (u64_wrapping_add (bt_seed bt) i) obj s)))
                     (enumerate 0 strategies)))))"

section \<open>The checksum\<close>

definition checksum_tick :: "tick \<Rightarrow> int \<Rightarrow> int" where
  "checksum_tick t c =
     add_i128 (add_i128 (add_i128 (add_i128 (add_i128 c (tk_ts_exchange t)) (tk_price t)) (tk_qty t))
       (as_i8 (tk_side t))) (int (tk_seq t))"

fun checksum_loop ::
  "('f, 'x, 'ae, 'rng) py_world \<Rightarrow> (string \<times> 'f) list \<Rightarrow> int \<Rightarrow> ('x py_err + int) option" where
  "checksum_loop w [] c = Some (Inr c)"
| "checksum_loop w ((k, frame) # rest) c =
     (case frame_ticks w (\<lambda>e. PyRuntimeError (''checksum: '' @ k @ '': '' @
               show_tick_source_error (pw_show_arrow w) e)) 1 frame of
        None \<Rightarrow> None
      | Some (Inl e) \<Rightarrow> Some (Inl e)
      | Some (Inr ts) \<Rightarrow> checksum_loop w rest (fold checksum_tick ts c))"

definition checksum_from_polars_data ::
  "('f, 'x, 'ae, 'rng) py_world \<Rightarrow> 'f py_mapping \<Rightarrow> ('x py_err + i64) option" where
  "checksum_from_polars_data w data =
     (case data of
        NotADict \<Rightarrow> Some (Inl PyCastError)
      | PyDict data_dict \<Rightarrow> map_option (map_sum id wrap_i64) (checksum_loop w data_dict 0))"

definition run_smoke :: "('f, 'x, 'ae, 'rng) py_world \<Rightarrow> 'f backtester \<Rightarrow> ('x py_err + i64) option" where
  "run_smoke w bt = checksum_from_polars_data w (bt_data bt)"

end
