(* ===== verification/PyConstruction.thy ===== *)
theory PyConstruction
  imports PyRuns
begin

text \<open>
  The checks of the constructor and the symbol identifiers: which arguments \<open>Backtester\<close> accepts,
  that accepted arguments always lead to distinct identifiers, and that the order of the items of
  a Python dict plays no role.
\<close>

section \<open>The symbol map\<close>

definition ids_valid :: "(string \<times> int) list \<Rightarrow> bool" where
  "ids_valid entries \<longleftrightarrow>
     (\<forall>v\<in>set (map snd entries). 1 \<le> v \<and> v < 4294967296) \<and> distinct (map snd entries)"

lemma parse_symbol_map_accepts:
  "(\<exists>m'. parse_symbol_map entries m ids = (Inr m' :: 'x py_err + (string, u32) hash_map)) \<longleftrightarrow>
     ids_valid entries \<and> (\<forall>v\<in>set (map snd entries). hm_get ids (nat v) = None)"
proof (induction entries m ids rule: parse_symbol_map.induct)
  case (2 key v rest m ids)
  show ?case
  proof (cases "1 \<le> v \<and> v < 4294967296 \<and> hm_get ids (nat v) = None")
    case True
    then have "(\<exists>m'. parse_symbol_map ((key, v) # rest) m ids = (Inr m' :: 'x py_err + (string, u32) hash_map)) \<longleftrightarrow>
        ids_valid rest \<and> (\<forall>u\<in>set (map snd rest). hm_get (hm_insert (nat v) key ids) (nat u) = None)"
      using "2.IH" by simp
    also have "\<dots> \<longleftrightarrow> ids_valid rest \<and> (\<forall>u\<in>set (map snd rest). u \<noteq> v \<and> hm_get ids (nat u) = None)"
      using True by (auto simp: ids_valid_def)
    also have "\<dots> \<longleftrightarrow> ids_valid ((key, v) # rest) \<and>
        (\<forall>u\<in>set (map snd ((key, v) # rest)). hm_get ids (nat u) = None)"
      using True by (auto simp: ids_valid_def)
    finally show ?thesis .
  next
    case False
    then show ?thesis by (auto simp: ids_valid_def split: option.splits)
  qed
qed (simp add: ids_valid_def)

lemma parse_symbol_map_get:
  assumes "parse_symbol_map entries m ids = (Inr m' :: 'x py_err + (string, u32) hash_map)"
    and "distinct (map fst entries)"
  shows "hm_get m' k = (case map_of entries k of None \<Rightarrow> hm_get m k | Some v \<Rightarrow> Some (nat v))"
  using assms
proof (induction entries m ids arbitrary: m' rule: parse_symbol_map.induct)
  case (2 key v rest m ids)
  then have "map_of rest key = None" by (simp add: map_of_eq_None_iff)
  with 2 show ?case by (auto split: if_splits option.splits)
qed simp

lemma check_covered_accepts:
  "check_covered keys m = (Inr u :: 'x py_err + unit) \<longleftrightarrow> (\<forall>k\<in>set keys. hm_get m k \<noteq> None)"
  by (induction keys m rule: check_covered.induct) auto

section \<open>The constructor\<close>

definition symbol_map_ok :: "'f backtester_args \<Rightarrow> bool" where
  "symbol_map_ok a \<longleftrightarrow>
     (case ba_symbol_map a of
        None \<Rightarrow> True
      | Some NotADict \<Rightarrow> False
      | Some (PyDict entries) \<Rightarrow>
          (case ba_data a of
             NotADict \<Rightarrow> False
           | PyDict frames \<Rightarrow> ids_valid entries \<and> fst ` set frames \<subseteq> fst ` set entries))"

definition py_dicts_ok :: "'f backtester_args \<Rightarrow> bool" where
  "py_dicts_ok a \<longleftrightarrow>
     (\<forall>entries. ba_symbol_map a = Some (PyDict entries) \<longrightarrow> distinct (map fst entries)) \<and>
     (\<forall>frames. ba_data a = PyDict frames \<longrightarrow> distinct (map fst frames))"

lemma bind_err_Inr: "bind_err x f = Inr z \<longleftrightarrow> (\<exists>y. x = Inr y \<and> f y = Inr z)"
  by (cases x) (simp_all add: bind_err_def)

lemma parse_covers:
  assumes "parse_symbol_map entries hm_empty hm_empty = (Inr m :: 'x py_err + (string, u32) hash_map)"
    and "distinct (map fst entries)"
  shows "hm_get m k \<noteq> None \<longleftrightarrow> k \<in> fst ` set entries"
  using parse_symbol_map_get [OF assms, of k]
  by (auto simp: map_of_eq_None_iff split: option.splits dest: map_of_SomeD) (metis map_of_eq_None_iff option.distinct(1))

lemma resolve_accepts:
  assumes "py_dicts_ok a"
  shows "(\<exists>m. resolve_symbol_map (ba_symbol_map a) (ba_data a) = (Inr m :: 'x py_err + (string, u32) hash_map option)) \<longleftrightarrow>
    symbol_map_ok a"
proof (cases "ba_symbol_map a")
  case (Some sm)
  show ?thesis
  proof (cases sm)
    case entries: (PyDict entries)
    show ?thesis
    proof (cases "ba_data a")
      case frames: (PyDict frames)
      have d: "distinct (map fst entries)" using assms Some entries by (simp add: py_dicts_ok_def)
      have acc: "(\<exists>m. parse_symbol_map entries hm_empty hm_empty = (Inr m :: 'x py_err + (string, u32) hash_map)) \<longleftrightarrow>
          ids_valid entries" by (simp add: parse_symbol_map_accepts)
      have "(\<exists>m. resolve_symbol_map (ba_symbol_map a) (ba_data a) = (Inr m :: 'x py_err + (string, u32) hash_map option)) \<longleftrightarrow>
          (\<exists>m. parse_symbol_map entries hm_empty hm_empty = (Inr m :: 'x py_err + (string, u32) hash_map) \<and>
             (\<forall>k\<in>set (map fst frames). hm_get m k \<noteq> None))"
        using Some entries frames
        by (simp add: resolve_symbol_map_def bind_err_Inr check_covered_accepts)
      also have "\<dots> \<longleftrightarrow> (\<exists>m. parse_symbol_map entries hm_empty hm_empty = (Inr m :: 'x py_err + (string, u32) hash_map)) \<and>
          (\<forall>k\<in>set (map fst frames). k \<in> fst ` set entries)"
      proof -
        have "(\<forall>k\<in>set (map fst frames). hm_get m k \<noteq> None) \<longleftrightarrow>
            (\<forall>k\<in>set (map fst frames). k \<in> fst ` set entries)"
          if "parse_symbol_map entries hm_empty hm_empty = (Inr m :: 'x py_err + (string, u32) hash_map)" for m
          by (simp only: parse_covers [OF that d])
        then show ?thesis by meson
      qed
      also have "\<dots> \<longleftrightarrow> ids_valid entries \<and> fst ` set frames \<subseteq> fst ` set entries"
        unfolding acc by (simp only: set_map subset_eq)
      finally show ?thesis using Some entries frames by (simp add: symbol_map_ok_def)
    qed (use Some entries in \<open>simp add: resolve_symbol_map_def symbol_map_ok_def\<close>)
  qed (use Some in \<open>simp add: resolve_symbol_map_def symbol_map_ok_def\<close>)
qed (simp add: resolve_symbol_map_def symbol_map_ok_def)

text \<open>
  C32. The constructor accepts exactly the consistent arguments: a ring buffer that holds something,
  known names for the queue model, the latency model and the depth mode, L3 data if and only if
  the depth mode is L3, a loss limit that is not positive, and a symbol map, if there is one, that
  covers the data and gives distinct identifiers between 1 and the largest 32-bit number. Anything
  else is an error.
\<close>

theorem constructor_accepts:
  assumes "py_dicts_ok a"
  shows "(\<exists>bt. backtester_new a = (Inr bt :: 'x py_err + 'f backtester)) \<longleftrightarrow>
    1 \<le> ba_ring_buffer_size a \<and> symbol_map_ok a \<and>
    ba_queue_model a \<in> {''conservative'', ''volume_clock''} \<and>
    ba_latency_model a \<in> {''constant'', ''log_normal''} \<and>
    (ba_depth_mode a = ''l3'' \<and> ba_l3_data a \<noteq> None \<or> ba_depth_mode a = ''l2'' \<and> ba_l3_data a = None) \<and>
    ba_max_loss a \<le> 0"
proof (cases "resolve_symbol_map (ba_symbol_map a) (ba_data a) :: 'x py_err + (string, u32) hash_map option")
  case (Inl e)
  then have "\<not> symbol_map_ok a" using resolve_accepts [OF assms, where 'x = 'x] by auto
  with Inl show ?thesis by (simp add: backtester_new_def bind_err_def)
next
  case (Inr m)
  then have "symbol_map_ok a" using resolve_accepts [OF assms, where 'x = 'x] by auto
  with Inr show ?thesis by (auto simp: backtester_new_def bind_err_def)
qed

definition sample_args :: "unit backtester_args" where
  "sample_args =
     \<lparr>ba_data = PyDict [(''eth'', ()), (''btc'', ())], ba_feed_latency_ns = 0,
      ba_order_update_latency_ns = None, ba_python_mode = ''tick'', ba_batch_ms = 0, ba_seed = 42,
      ba_trade_log_mode = ''all'', ba_maker_fee_bps = 0, ba_taker_fee_bps = 0,
      ba_ring_buffer_size = 10000, ba_symbol_map = Some (PyDict [(''btc'', 7), (''eth'', 7)]),
      ba_queue_model = ''conservative'', ba_latency_model = ''constant'', ba_latency_mean_ns = 0,
      ba_latency_std_ns = 0, ba_max_open_orders = 0, ba_max_position = 0, ba_max_loss = 0,
      ba_depth_mode = ''l2'', ba_l3_data = None\<rparr>"

theorem constructor_accepts_witness:
  "\<not> (\<exists>bt. backtester_new sample_args = (Inr bt :: unit py_err + unit backtester)) \<and>
   (\<exists>bt. backtester_new (sample_args\<lparr>ba_symbol_map := Some (PyDict [(''btc'', 7), (''eth'', 9)])\<rparr>) =
      (Inr bt :: unit py_err + unit backtester))"
  by (subst (1 2) constructor_accepts)
    (simp_all add: py_dicts_ok_def sample_args_def symbol_map_ok_def ids_valid_def)

section \<open>Symbol identifiers\<close>

lemma default_id_small: "i < 4294967295 \<Longrightarrow> default_id i = Suc i"
  by (simp add: default_id_def)

lemma default_ids_get:
  assumes "distinct ks"
  shows "hm_get (fold (\<lambda>(i, k) ids. hm_insert k (default_id i) ids) (enumerate n ks) ids) k =
    (case map_of (zip ks [n..<n + length ks]) k of None \<Rightarrow> hm_get ids k | Some i \<Rightarrow> Some (default_id i))"
  using assms
proof (induction ks arbitrary: n ids)
  case (Cons x ks)
  have "n < n + length (x # ks)" by simp
  from upt_conv_Cons [OF this] have up: "[n..<n + length (x # ks)] = n # [Suc n..<Suc n + length ks]" by simp
  have "map_of (zip ks [Suc n..<Suc n + length ks]) x = None" using Cons.prems by (simp add: map_of_zip_is_None)
  with Cons up show ?case by (simp split: option.splits)
qed simp

lemma default_id_nth:
  assumes "distinct ks" and "j < length ks" and "length ks < 4294967295"
  shows "hm_get (fold (\<lambda>(i, k) ids. hm_insert k (default_id i) ids) (enumerate 0 ks) hm_empty) (ks ! j) =
    Some (Suc j)"
proof -
  have "map_of (zip ks [0..<length ks]) (ks ! j) = Some j"
    using map_of_zip_nth [of ks "[0..<length ks]" j] assms by simp
  then show ?thesis using default_ids_get [OF assms(1), of 0 hm_empty "ks ! j"] assms
    by (simp add: default_id_small)
qed

lemma check_symbol_ids_accepts:
  assumes "distinct ks" and "inj_on (hm_get m) (set ks)"
    and "\<forall>k\<in>set ks. \<exists>i. hm_get m k = Some i \<and> hm_get ids i = None"
  shows "check_symbol_ids ks m ids = (Inr () :: 'x py_err + unit)"
  using assms
proof (induction ks m ids rule: check_symbol_ids.induct)
  case (2 k ks m ids)
  then obtain i where i: "hm_get m k = Some i" "hm_get ids i = None" by auto
  have "\<exists>j. hm_get m k' = Some j \<and> hm_get (hm_insert i k ids) j = None" if k': "k' \<in> set ks" for k'
  proof -
    obtain j where j: "hm_get m k' = Some j" "hm_get ids j = None" using 2(4) k' by auto
    moreover have "j \<noteq> i" using 2(2,3) k' i(1) j(1) by (auto simp: inj_on_def)
    ultimately show ?thesis by simp
  qed
  with 2 i show ?case by (auto simp: inj_on_def)
qed simp

text \<open>A map that came through the constructor gives each key of the data its own valid identifier.\<close>

lemma resolved_map:
  assumes "resolve_symbol_map (Some (PyDict entries)) (PyDict frames) = (Inr (Some m) :: 'x py_err + (string, u32) hash_map option)"
    and "distinct (map fst entries)"
  shows "inj_on (hm_get m) (fst ` set frames) \<and>
    (\<forall>k\<in>fst ` set frames. \<exists>i. hm_get m k = Some i \<and> 1 \<le> i \<and> i < 4294967296)"
proof -
  from assms(1) have parse: "parse_symbol_map entries hm_empty hm_empty = (Inr m :: 'x py_err + (string, u32) hash_map)"
    and cover: "\<forall>k\<in>fst ` set frames. hm_get m k \<noteq> None"
    by (auto simp: resolve_symbol_map_def bind_err_Inr check_covered_accepts)
  have valid: "ids_valid entries" using parse parse_symbol_map_accepts [of entries hm_empty hm_empty, where 'x = 'x] by auto
  have get: "\<exists>v. (k, v) \<in> set entries \<and> hm_get m k = Some (nat v) \<and> 1 \<le> v \<and> v < 4294967296"
    if "k \<in> fst ` set frames" for k
  proof -
    from cover that have "hm_get m k \<noteq> None" by blast
    then obtain v where v: "map_of entries k = Some v" "hm_get m k = Some (nat v)"
      using parse_symbol_map_get [OF parse assms(2), of k] by (auto split: option.splits)
    then have "(k, v) \<in> set entries" by (auto dest: map_of_SomeD)
    with valid v show ?thesis by (force simp: ids_valid_def)
  qed
  have "inj_on (hm_get m) (fst ` set frames)"
  proof (rule inj_onI)
    fix k k' assume "k \<in> fst ` set frames" "k' \<in> fst ` set frames" "hm_get m k = hm_get m k'"
    then obtain v v' where "(k, v) \<in> set entries" "(k', v') \<in> set entries" "nat v = nat v'" "1 \<le> v" "1 \<le> v'"
      using get by (metis option.inject)
    moreover from this have "v = v'" by linarith
    ultimately have "(k, v) = (k', v')"
      using valid by (intro inj_onD [of snd "set entries"]) (auto simp: ids_valid_def distinct_map)
    then show "k = k'" by simp
  qed
  then show ?thesis using get by fastforce
qed

text \<open>
  C31. Every accepted \<open>Backtester\<close> can name its symbols: the identifiers of the keys of the data exist,
  are distinct and lie between 1 and the largest 32-bit number, with an explicit map and without
  one; without one the keys are numbered from 1 in alphabetical order, whatever the order of the
  dict. So a run never fails on a symbol identifier.
\<close>

theorem symbol_ids_valid:
  assumes "backtester_new a = (Inr bt :: 'x py_err + 'f backtester)" and "py_dicts_ok a"
    and "ba_data a = PyDict frames" and "length frames < 4294967295"
  shows "\<exists>ids. build_symbol_ids (sort (map fst frames)) (bt_symbol_map bt) = (Inr ids :: 'y py_err + (string, u32) hash_map) \<and>
    inj_on (hm_get ids) (fst ` set frames) \<and>
    (\<forall>k\<in>fst ` set frames. \<exists>i. hm_get ids k = Some i \<and> 1 \<le> i \<and> i < 2 ^ 32) \<and>
    (ba_symbol_map a = None \<longrightarrow>
       (\<forall>j<length frames. hm_get ids (sort (map fst frames) ! j) = Some (j + 1)))"
proof (cases "ba_symbol_map a")
  case None
  let ?ks = "sort (map fst frames)"
  let ?ids = "fold (\<lambda>(i, k) ids. hm_insert k (default_id i) ids) (enumerate 0 ?ks) hm_empty"
  have d: "distinct ?ks" using assms(2,3) by (simp add: py_dicts_ok_def)
  have m: "bt_symbol_map bt = None"
    using assms(1) None by (auto simp: backtester_new_def resolve_symbol_map_def bind_err_Inr split: if_splits)
  have nth: "hm_get ?ids (?ks ! j) = Some (Suc j)" if "j < length frames" for j
    using default_id_nth [OF d] that assms(4) by simp
  have idx: "\<exists>j<length frames. k = ?ks ! j" if "k \<in> fst ` set frames" for k
    using that by (metis in_set_conv_nth length_map length_sort list.set_map set_sort)
  have "inj_on (hm_get ?ids) (fst ` set frames)"
  proof (rule inj_onI)
    fix k k' assume k: "k \<in> fst ` set frames" "k' \<in> fst ` set frames" and eq: "hm_get ?ids k = hm_get ?ids k'"
    from idx k obtain j j' where j: "j < length frames" "k = ?ks ! j" "j' < length frames" "k' = ?ks ! j'" by metis
    with eq nth have "j = j'" by simp
    with j show "k = k'" by simp
  qed
  moreover have "\<exists>i. hm_get ?ids k = Some i \<and> 1 \<le> i \<and> i < 2 ^ 32" if k: "k \<in> fst ` set frames" for k
  proof -
    from idx [OF k] obtain j where "j < length frames" "k = ?ks ! j" by blast
    with nth assms(4) show ?thesis by simp
  qed
  ultimately show ?thesis using m nth by (auto simp: build_symbol_ids_def)
next
  case (Some sm)
  then obtain entries m where sm: "sm = PyDict entries" and bt: "bt_symbol_map bt = Some m"
    and res: "resolve_symbol_map (Some (PyDict entries)) (PyDict frames) =
      (Inr (Some m) :: 'x py_err + (string, u32) hash_map option)"
    using assms(1,3)
    by (cases sm) (auto simp: backtester_new_def bind_err_Inr resolve_symbol_map_def split: if_splits)
  have "distinct (map fst entries)" using assms(2) Some sm by (simp add: py_dicts_ok_def)
  note ids = resolved_map [OF res this]
  have "check_symbol_ids (sort (map fst frames)) m hm_empty = (Inr () :: 'y py_err + unit)"
    by (rule check_symbol_ids_accepts) (use assms(2,3) ids in \<open>auto simp: py_dicts_ok_def\<close>)
  then show ?thesis using ids bt Some by (auto simp: build_symbol_ids_def bind_err_def)
qed

theorem symbol_ids_valid_witness:
  "\<exists>bt ids. backtester_new (sample_args\<lparr>ba_symbol_map := None\<rparr>) = (Inr bt :: unit py_err + unit backtester) \<and>
     build_symbol_ids (sort [''eth'', ''btc'']) (bt_symbol_map bt) = (Inr ids :: unit py_err + (string, u32) hash_map) \<and>
     hm_get ids (sort [''eth'', ''btc''] ! 0) = Some 1"
proof -
  let ?a = "sample_args\<lparr>ba_symbol_map := None\<rparr>"
  obtain bt where bt: "backtester_new ?a = (Inr bt :: unit py_err + unit backtester)"
    by (simp add: sample_args_def backtester_new_def resolve_symbol_map_def bind_err_def)
  have "py_dicts_ok ?a" by (simp add: py_dicts_ok_def sample_args_def)
  from symbol_ids_valid [OF bt this, of "[(''eth'', ()), (''btc'', ())]", where 'y = unit] bt
  show ?thesis by (fastforce simp: sample_args_def)
qed

section \<open>The order of a dict\<close>

lemma map_of_mset:
  assumes "distinct (map fst xs)" and "mset ys = mset xs"
  shows "map_of ys = map_of xs"
proof -
  have "distinct (map fst ys)" using assms by (metis distinct_map mset_eq_imp_distinct_iff mset_eq_setD mset_map)
  moreover have "set ys = set xs" using assms(2) by (rule mset_eq_setD)
  ultimately show ?thesis using assms(1) by (simp add: map_of_inject_set)
qed

lemma add_data_sources_cong:
  "map_of d = map_of d' \<Longrightarrow> add_data_sources w d ids ks e = add_data_sources w d' ids ks e"
  by (induction ks arbitrary: e) (auto split: option.split intro!: arg_cong [of _ _ "bind_err _"])

lemma parse_loop_cong:
  "map_of d = map_of d' \<Longrightarrow> parse_loop w l d ids ks evs n = parse_loop w l d' ids ks evs n"
  by (induction ks arbitrary: evs n) (auto split: option.split sum.split)

lemma parse_polars_data_cong:
  "map_of d = map_of d' \<Longrightarrow> sort (map fst d) = sort (map fst d') \<Longrightarrow>
     parse_polars_data w (PyDict d) l m = parse_polars_data w (PyDict d') l m"
  by (auto simp: parse_polars_data_def Let_def parse_loop_cong [of d d'] split: sum.split)

lemma backtester_engine_data [simp]:
  "backtester_engine w (bt\<lparr>bt_data := d\<rparr>) seed obj s = backtester_engine w bt seed obj s"
  by (simp add: backtester_engine_def effective_queue_model_def backtester_config_def)

lemma attach_if_l3_data [simp]: "attach_if_l3 w (bt\<lparr>bt_data := d\<rparr>) = attach_if_l3 w bt"
  by (simp add: attach_if_l3_def fun_eq_iff)

text \<open>
  C33. The order of the items of the data dict plays no role: a permutation of the items gives the
  same result of \<open>run\<close> and the same results of \<open>run_many\<close>, errors included.
\<close>

theorem runs_ignore_dict_order:
  assumes "bt_data bt = PyDict frames" and "distinct (map fst frames)" and "mset frames' = mset frames"
  shows "backtester_run w (bt\<lparr>bt_data := PyDict frames'\<rparr>) obj s = backtester_run w bt obj s \<and>
    backtester_run_many pick w (bt\<lparr>bt_data := PyDict frames'\<rparr>) strategies =
      backtester_run_many pick w bt strategies"
proof -
  have keys: "sort (map fst frames') = sort (map fst frames)"
    using assms(3) by (metis mset_map properties_for_sort sorted_sort mset_sort)
  have look: "map_of frames' = map_of frames" using assms(2,3) by (rule map_of_mset)
  have "prepare_run w (bt\<lparr>bt_data := PyDict frames'\<rparr>) obj s = prepare_run w bt obj s"
    using assms(1) by (simp add: prepare_run_def keys Let_def add_data_sources_cong [OF look])
  moreover have "parse_polars_data w (PyDict frames') l m = parse_polars_data w (PyDict frames) l m" for l m
    by (rule parse_polars_data_cong [OF look keys])
  ultimately show ?thesis
    using assms(1)
    by (auto simp: backtester_run_def backtester_run_many_def split: option.split sum.split)
qed

definition sample_world :: "(unit, unit, unit, unit) py_world" where
  "sample_world =
     \<lparr>pw_open_stream = (\<lambda>_. Inr []), pw_cast = keep_cast, pw_show_arrow = (\<lambda>_. []), pw_show_err = (\<lambda>_. []),
      pw_make_rng = (\<lambda>_. ()), pw_gen_f64 = (\<lambda>_. (f64_zero, ())),
      pw_math = \<lparr>mf_ln = id, mf_exp = id, mf_cos = id\<rparr>, pw_clock = (\<lambda>_. 0),
      pw_par_reduce = (\<lambda>z f. foldl f z)\<rparr>"

definition sample_backtester :: "unit backtester" where
  "sample_backtester =
     projr (backtester_new (sample_args\<lparr>ba_symbol_map := None\<rparr>) :: unit py_err + unit backtester)"

theorem runs_ignore_dict_order_witness:
  "backtester_run sample_world (sample_backtester\<lparr>bt_data := PyDict [(''btc'', ()), (''eth'', ())]\<rparr>)
     py_buy_once False = backtester_run sample_world sample_backtester py_buy_once False"
proof (rule conjunct1 [OF runs_ignore_dict_order])
  show "bt_data sample_backtester = PyDict [(''eth'', ()), (''btc'', ())]"
    by (simp add: sample_backtester_def sample_args_def backtester_new_def resolve_symbol_map_def bind_err_def)
qed simp_all

end
