(* ===== verification/PyEvents.thy ===== *)
theory PyEvents
  imports PyConstruction EngineSamples
begin

text \<open>
  The events \<open>run_many\<close> feeds its engines: complete, in strictly ascending order, and replayed by the
  event queue in that order; and an example where the replay differs from a streaming run of the same
  data.
\<close>

section \<open>Two events for each row, in ascending order\<close>

lemma row_events_seq [simp]: "map (fst \<circ> snd) (row_events l n t) = [n, n + 1]"
  by (simp add: row_events_def Let_def)

lemma row_events_length [simp]: "length (row_events l n t) = 2"
  by (simp add: row_events_def Let_def)

lemma ticks_events_append:
  "ticks_events l n (xs @ ys) = ticks_events l n xs @ ticks_events l (n + 2 * length xs) ys"
  by (induction xs arbitrary: n) (simp_all add: ac_simps)

lemma ticks_events_length: "length (ticks_events l n ts) = 2 * length ts"
  by (induction ts arbitrary: n) simp_all

lemma ticks_events_seqs: "map (fst \<circ> snd) (ticks_events l n ts) = [n..<n + 2 * length ts]"
proof (induction ts arbitrary: n)
  case (Cons t ts)
  have "[n..<(n + 2) + 2 * length ts] = [n..<n + 2] @ [n + 2..<n + 2 + 2 * length ts]"
    by (rule upt_add_eq_append) simp
  then have "[n..<n + 2 * length (t # ts)] = [n, n + 1] @ [n + 2..<n + 2 + 2 * length ts]"
    by (simp add: upt_rec)
  with Cons.IH [of "n + 2"] show ?case by (simp del: comp_apply)
qed simp

lemma ticks_events_keys: "distinct (map event_key (ticks_events l n ts))"
proof -
  have "map (fst \<circ> snd) (ticks_events l n ts) = map snd (map event_key (ticks_events l n ts))"
    by (simp add: event_key_def comp_def)
  then have "distinct (map snd (map event_key (ticks_events l n ts)))"
    using ticks_events_seqs [of l n ts] by (metis distinct_upt)
  then show ?thesis by (rule conjunct1 [OF iffD1 [OF distinct_map]])
qed

text \<open>The rows that the loop has read for a key.\<close>

definition read_from ::
  "('f, 'x, 'ae, 'rng) py_world \<Rightarrow> (string \<times> 'f) list \<Rightarrow> (string, u32) hash_map \<Rightarrow> string \<Rightarrow> tick list \<Rightarrow> bool" where
  "read_from w data_dict symbol_ids k ts \<longleftrightarrow>
     (\<exists>i frame. hm_get symbol_ids k = Some i \<and> map_of data_dict k = Some frame \<and>
        frame_ticks w (tick_source_error_to_pyerr w) i frame = Some (Inr ts))"

lemma parse_loop_reads:
  assumes "parse_loop w l d ids ks evs n = Some (Inr out)"
  shows "\<exists>tss. list_all2 (read_from w d ids) ks tss \<and> out = evs @ ticks_events l n (concat tss)"
  using assms
proof (induction ks arbitrary: evs n)
  case (Cons k ks)
  then obtain frame i ts where 1: "map_of d k = Some frame" "hm_get ids k = Some i"
      "frame_ticks w (tick_source_error_to_pyerr w) i frame = Some (Inr ts)"
    and 2: "parse_loop w l d ids ks (evs @ ticks_events l n ts) (n + 2 * length ts) = Some (Inr out)"
    by (auto split: option.splits sum.splits)
  from Cons.IH [OF 2] obtain tss where "list_all2 (read_from w d ids) ks tss"
      "out = (evs @ ticks_events l n ts) @ ticks_events l (n + 2 * length ts) (concat tss)" by blast
  with 1 show ?case
    by (intro exI [of _ "ts # tss"]) (auto simp: read_from_def [of w d ids k] ticks_events_append)
qed simp

lemma map_sum_Inr: "map_sum f g z = Inr y \<longleftrightarrow> (\<exists>x. z = Inr x \<and> g x = y)"
  by (cases z) auto

lemma sorted_distinct_strict: "sorted xs \<Longrightarrow> distinct xs \<Longrightarrow> sorted_wrt (<) xs"
  by (simp add: strict_sorted_iff)

text \<open>
  C34. The shared events of \<open>run_many\<close> are those of the rows of all frames, read in the alphabetical
  order of the keys, two for each row: nothing is lost or doubled. They stand in strictly ascending
  order of time and sequence number, so that equal times keep the order of the rows, and the trade
  of a row comes before its delivery unless the frame gives the row a local time before its exchange
  time, which nothing forbids.
\<close>

theorem run_many_events_complete:
  fixes w :: "('f, 'x, 'ae, 'rng) py_world"
  assumes "parse_polars_data w (PyDict frames) l m = Some (Inr events)"
  shows "sorted_wrt (<) (map event_key events) \<and>
    (\<exists>ids tss. build_symbol_ids (sort (map fst frames)) m = (Inr ids :: 'x py_err + (string, u32) hash_map) \<and>
       list_all2 (read_from w frames ids) (sort (map fst frames)) tss \<and>
       mset events = mset (ticks_events l 0 (concat tss)))"
proof -
  let ?ks = "sort (map fst frames)"
  obtain ids where ids: "build_symbol_ids ?ks m = (Inr ids :: 'x py_err + (string, u32) hash_map)"
    using assms by (cases "build_symbol_ids ?ks m :: 'x py_err + (string, u32) hash_map")
      (auto simp: parse_polars_data_def Let_def)
  obtain out where out: "parse_loop w l frames ids ?ks [] 0 = Some (Inr out)" and ev: "events = sort_key event_key out"
    using assms ids by (auto simp: parse_polars_data_def Let_def map_sum_Inr)
  from parse_loop_reads [OF out] obtain tss where tss: "list_all2 (read_from w frames ids) ?ks tss"
    and oute: "out = ticks_events l 0 (concat tss)" by auto
  have "distinct (map event_key out)" unfolding oute by (rule ticks_events_keys)
  then have "distinct (map event_key events)" using ev by (simp add: distinct_map)
  then have "sorted_wrt (<) (map event_key events)" using ev by (simp add: sorted_distinct_strict)
  then show ?thesis using ids tss ev oute by auto
qed

section \<open>Streaming and replay differ\<close>

text \<open>
  The same two rows, at the times 100 and 110, once streamed from a source and once replayed from
  the events of \<open>run_many\<close>. The strategy buys on the first tick, and with a latency of 10 its order
  reaches the venue at 110. A streaming engine reads the second row when the clock has come to 110, so
  its events are numbered after the order, and the trade fills the order; the replayed row was numbered
  before the run began, goes first, and the order is never filled.
\<close>

definition rows_100_110 :: "tick list" where
  "rows_100_110 = [sell_tick 100 0, sell_tick 110 1]"

definition streamed_engine :: sample_engine where
  "streamed_engine =
     add_tick_source rows_100_110 (engine_new sample_env conservative_queue False engine_config_default)"

definition replayed_engine :: sample_engine where
  "replayed_engine =
     fold (\<lambda>(t, _, kind). push_event t kind) (ticks_events 0 0 rows_100_110)
       (engine_new sample_env conservative_queue False engine_config_default)"

definition fill_times :: "sample_engine \<Rightarrow> i64 list" where
  "fill_times g = map tf_ts_exchange (fills_vec (eg_trade_log g))"

lemma replay_events_sorted:
  "sort_key event_key (ticks_events 0 0 rows_100_110) = ticks_events 0 0 rows_100_110"
  by code_simp

theorem replay_misses_fill:
  "fill_times (run_steps 12 sample_env streamed_engine) = [110] \<and>
   eq_peek (eg_queue (run_steps 12 sample_env streamed_engine)) = None"
  "fill_times (run_steps 12 sample_env replayed_engine) = [] \<and>
   eq_peek (eg_queue (run_steps 12 sample_env replayed_engine)) = None"
  by code_simp+

section \<open>A frame of rows\<close>

text \<open>
  A frame is a list of times; its Arrow stream is one batch of rows with these times, each a sale of
  3 at the price 100.
\<close>

definition tick_batch :: "i64 list \<Rightarrow> record_batch" where
  "tick_batch tss =
     \<lparr>rb_num_rows = length tss,
      rb_columns = [(''ts_exchange'', int_column DT_Int64 tss),
        (''price'', int_column DT_Int64 (map (\<lambda>_. 100) tss)),
        (''qty'', int_column DT_Int64 (map (\<lambda>_. 3) tss)),
        (''side'', int_column DT_Int8 (map (\<lambda>_. -1) tss))]\<rparr>"

definition batch_world :: "(i64 list, unit, unit, unit) py_world" where
  "batch_world =
     \<lparr>pw_open_stream = (\<lambda>tss. Inr [Inr (tick_batch tss)]), pw_cast = keep_cast,
      pw_show_arrow = (\<lambda>_. []), pw_show_err = (\<lambda>_. []), pw_make_rng = (\<lambda>_. ()),
      pw_gen_f64 = (\<lambda>_. (f64_zero, ())), pw_math = \<lparr>mf_ln = id, mf_exp = id, mf_cos = id\<rparr>,
      pw_clock = (\<lambda>_. 0), pw_par_reduce = (\<lambda>z f. foldl f z)\<rparr>"

text \<open>What the sources of such frames deliver.\<close>

definition batch_row :: "u32 \<Rightarrow> i64 \<Rightarrow> tick" where
  "batch_row i t =
     \<lparr>tk_ts_exchange = t, tk_ts_local = 0, tk_seq = 0, tk_price = 100, tk_qty = 3,
      tk_symbol_id = i, tk_side = Sell, tk_flags = 0\<rparr>"

definition batch_cached :: "i64 list \<Rightarrow> cached_batch" where
  "batch_cached tss =
     \<lparr>cb_ts_exchange = tss, cb_price = map (\<lambda>_. 100) tss, cb_qty = map (\<lambda>_. 3) tss,
      cb_side = map (\<lambda>_. -1) tss, cb_seq = None, cb_ts_local = None, cb_num_rows = length tss\<rparr>"

lemma batch_loads: "rf_load (tick_format keep_cast) (tick_batch tss) = Inr (batch_cached tss)"
  by (simp add: tick_format_def cached_batch_new_def bind_err_def get_required_i64_def required_column_def
      column_by_name_def tick_batch_def integer_array_to_i64_def integer_array_to_i8_def
      integer_array_to_def cast_integer_array_def int_column_def keep_cast_def downcast_ref_def
      get_optional_u64_def get_optional_i64_def optional_column_def batch_cached_def)

lemma batch_good: "good_batch (tick_format keep_cast) i (batch_cached tss) (map (batch_row i) tss)"
  by (auto simp: good_batch_def tick_format_def batch_cached_def read_tick_at_def batch_row_def side_try_from_def)

lemma batch_stream: "stream_of (tick_format keep_cast) i [Inr (tick_batch tss)] (map (batch_row i) tss)"
  using stream_batch [OF batch_loads batch_good stream_end] by simp

lemma batch_frame_ticks: "frame_ticks batch_world err i tss = Some (Inr (map (batch_row i) tss))"
proof -
  from source_try_new_holds [OF batch_stream] obtain s
    where s: "source_try_new (tick_format keep_cast) i [Inr (tick_batch tss)] = Inr s"
      "source_holds (tick_format keep_cast) s (map (batch_row i) tss)" by blast
  then show ?thesis
    using arrow_rows.read_rows_holds [OF s(2)]
    by (simp add: frame_ticks_def batch_world_def tick_source_try_new_def bind_err_def map_err_def)
qed

lemma batch_parse:
  "parse_polars_data batch_world (PyDict [(k, tss)]) l None =
     Some (Inr (sort_key event_key (ticks_events l 0 (map (batch_row 1) tss))))"
proof -
  have "build_symbol_ids [k] None = (Inr (hm_insert k 1 hm_empty) :: unit py_err + (string, u32) hash_map)"
    by (simp add: build_symbol_ids_def default_id_def)
  then show ?thesis by (simp add: parse_polars_data_def batch_frame_ticks)
qed

lemma batch_row_events:
  "row_events 0 n (batch_row i t) =
     [(t, n, TickEvent ((batch_row i t)\<lparr>tk_ts_local := t, tk_flags := 1\<rparr>)),
      (t, n + 1, TickDelivery ((batch_row i t)\<lparr>tk_ts_local := t, tk_flags := 1\<rparr>))]" if "in_i64 t"
  using that by (simp add: row_events_def batch_row_def saturating_add_def clamp_i64_def in_i64_def)

theorem run_many_events_complete_witness:
  "\<exists>events. parse_polars_data batch_world (PyDict [(''btc'', [110, 100])]) 0 None = Some (Inr events) \<and>
     map event_key events = [(100, 2), (100, 3), (110, 0), (110, 1)] \<and> sorted_wrt (<) (map event_key events)"
proof -
  let ?events = "sort_key event_key (ticks_events 0 0 (map (batch_row 1) [110, 100]))"
  have keys: "map event_key ?events = [(100, 2), (100, 3), (110, 0), (110, 1)]"
    by (simp add: batch_row_events in_i64_def event_key_def)
  from run_many_events_complete [OF batch_parse [of "''btc''" "[110, 100]" 0]]
  have "sorted_wrt (<) (map event_key ?events)" by (rule conjunct1)
  with keys show ?thesis by (intro exI [of _ ?events] conjI batch_parse)
qed

end
