(* ===== verification/Spec2Isabelle.thy ===== *)
theory Spec2Isabelle
  imports QueueFills ExchangeOps StatsProps StatsSimd FixedPointIo Fixtures EngineTime EngineLedger
    EngineErrors Io PyEvents
begin

text \<open>
  A verification library for the backtester: an event-driven simulator in Rust
  (\<open>src/backtester-core\<close>) that replays market data against a user's strategy, with a Python interface
  (\<open>src/backtester-py\<close>).

  The program. Sources deliver ticks and order-book updates, read from Arrow batches. The engine merges
  them by time with its own queue of events, and processes the events one by one: a trade may fill
  resting orders at the simulated venue of its symbol, a delivered tick is handed to the strategy, and
  the strategy's orders travel with simulated latency to the venue and back as reports. Fills change
  the account, the trade log with its statistics, and the risk guard, which may refuse new orders. In
  batch mode ticks and reports are buffered and handed over together. The Python bindings build an
  engine from a dict of frames, run one strategy over streamed sources (\<open>run\<close>, \<open>run_arrow\<close>) or several
  over shared, pre-sorted events (\<open>run_many\<close>).

  The theories, each with the file it models; every theory's own introduction says more.

  \<^item> \<open>Prelude\<close>: machine integers and hash maps; \<open>BTree\<close> and \<open>BinaryHeap\<close>: the standard library's
    ordered map and heap, as far as the code uses them.
  \<^item> \<open>Types\<close> (\<open>types.rs\<close>, \<open>event.rs\<close>); \<open>FixedPointIo\<close>: its two float conversions; \<open>EventQueue\<close>
    (\<open>event_queue.rs\<close>); \<open>Fixtures\<close> (\<open>fixtures.rs\<close>): the sample values of the tests.
  \<^item> \<open>OrderBookL2\<close>, \<open>OrderBookL3\<close> (\<open>orderbook_l2.rs\<close>, \<open>orderbook_l3.rs\<close>): the books, and the refinement
    of the one by the other. \<open>QueueModel\<close>, \<open>QueueFills\<close> (\<open>queue_model.rs\<close>): the position of an order in
    its queue, its contract \<open>queue_laws\<close>, and what the models fill in total.
  \<^item> \<open>ExchangeSim\<close> (\<open>exchange_simulator.rs\<close>): the venue; \<open>ExchangeInv\<close> and \<open>ExchangeOps\<close>: its invariant,
    its operations as steps, and the life of an order.
  \<^item> \<open>Account\<close>, \<open>RiskGuard\<close>, \<open>Tuner\<close>, \<open>Latency\<close> (\<open>account.rs\<close>, \<open>risk_guard.rs\<close>, \<open>tuner.rs\<close>,
    \<open>latency_model.rs\<close> with \<open>rng.rs\<close>); \<open>F64\<close>: binary floating point with its rounding.
  \<^item> \<open>Stats\<close>, \<open>StatsProps\<close> (\<open>stats.rs\<close>): the trade log, its incremental and batch statistics;
    \<open>StatsSimd\<close>: the vectorised and parallel ratios.
  \<^item> \<open>ArrowSource\<close> (\<open>tick_source.rs\<close>, \<open>l3_source.rs\<close>): both sources over one cursor, with the contract
    \<open>row_source\<close>. \<open>Io\<close> (\<open>io.rs\<close>): the memory-mapped cursor with its loader and the prefetching
    thread.
  \<^item> \<open>EngineTypes\<close>, \<open>EngineState\<close>, \<open>EngineStep\<close> (\<open>engine.rs\<close>): the state, one function per arm of the
    dispatch, the ingestion loop and the run loop. \<open>EngineActs\<close> and \<open>EngineDispatch\<close> reduce all of
    this to elementary acts; \<open>EngineInv\<close> and \<open>EngineProps\<close> use them for the invariants of every run,
    \<open>EngineOrders\<close> for the way it calls its venues, \<open>EngineLedger\<close> for the log as a ledger: the
    positions are the sums of its fills and its PnL history follows from them, \<open>EngineErrors\<close> for
    steps that fail, \<open>EngineClock\<close> for runs that differ in their wall clocks, \<open>EngineTime\<close> for the
    order of time, \<open>EngineTermination\<close> and \<open>EngineRun\<close> for termination;
    \<open>EngineSamples\<close> holds a small engine for the examples.
  \<^item> \<open>Sweep\<close> (\<open>sweep.rs\<close>): many engines over the same events, each with its own wall clock and its own
    bracketing of rayon's sums.
  \<^item> \<open>PyObjects\<close>, \<open>PyStrategy\<close>, \<open>PyBacktester\<close>, \<open>PyRuns\<close> (\<open>backtester-py/src/lib.rs\<close>): the objects
    crossing the boundary, strategies written in Python, the class \<open>Backtester\<close>, and its other runs;
    \<open>PyConstruction\<close> and \<open>PyEvents\<close>: which arguments it accepts and which events it makes of them.

  How the code is modelled. A struct is a record, an enum a datatype, a method a function that returns
  the changed state; a \<open>Result\<close> is a sum whose left side is the error, and every early return is a
  branch. Signed integers are \<open>int\<close> with each operation written as the code has it: wrapping, as in a
  release build, saturating, or widened to \<open>i128\<close>. Unsigned ones are \<open>nat\<close>. A \<open>HashMap\<close> is an association
  list without duplicate keys, a \<open>BTreeMap\<close> the sorted list of its entries; both come with the lookup
  laws the proofs use. Loops over finite data are recursions; the ingestion loop, the run loop and the
  reading of a source are partial functions in the option monad, so that a loop that does not end is
  \<open>None\<close>, and \<open>engine_run_returns\<close> and \<open>sweep_returns\<close> show when they do end. No fuel is used in the
  model; \<open>run_steps\<close> of the samples and \<open>drain\<close> of the sources count steps for examples only.

  What stands outside is an argument of the model, with its documented behaviour as a named hypothesis
  or the assumption of a locale: the strategy (\<open>bounded_strategy\<close> says that it stops sending orders),
  a source (\<open>row_source\<close>), the queue model (\<open>queue_laws\<close>), the random generator and the platform's
  mathematical functions, arrow's cast kernel, the vectors of the \<open>wide\<close> crate, the wall clock, the
  order in which rayon reduces, the opening of files, frames and streams, and the scheduling of threads. Each locale is interpreted on the
  model's own definitions.

  What the theorems show. The run loop returns; time only moves forward and nothing is seen early; the
  limits of the risk guard hold in every reachable state, whatever the strategy does; the engine calls
  its venues by their rules, so that, as long as no quantity is negative, their orders always add up, move along their state diagram and are
  indexed exactly; the positions of the account are the sums of the logged fills, and the PnL
  history is the one these fills realise; a step that fails sends neither an order nor a cancel
  request; without auto-tuning two sweeps agree whatever the clocks show; the queue models fill what their contract says and agree with each other; the account
  realises the price differences, and the statistics agree with the account and with each other;
  sources deliver every row once; the Python layer numbers symbols without clashes, does not depend on
  the order of dicts, and passes orders on unchanged; prefetching changes nothing but time.

  Not modelled: the end of the prefetching thread when its iterator is dropped, \<open>numa.rs\<close> and \<open>utils.rs\<close> (an allocator, a prefetch instruction), the pointers of the
  Arrow C interface (\<open>arrow_utils.rs\<close>), getters that return a field, and the texts of the engine's
  errors. Memory exhaustion and panics are outside the model, the overflow of 64-bit counters of
  events and orders is inside.
\<close>

end
